(* ===== verification/Prelude.thy ===== *)
theory Prelude
  imports Main "HOL-Library.Word" "HOL-Library.Monad_Syntax"
begin

text \<open>
  Shared vocabulary of the development: the Go integer and byte types, slices with the
  bounds check that makes Go panic, and the part of the packages \<^verbatim>\<open>fmt\<close>,
  \<^verbatim>\<open>strconv\<close> and \<^verbatim>\<open>strings\<close> the server uses.
  A Go panic is the value \<^term>\<open>None\<close> of an option; errors that the code returns are
  values of a sum type.
\<close>

unbundle bit_operations_syntax

named_theorems panic_free \<open>facts that a slice expression or a lookup does not panic\<close>
named_theorems bits \<open>bit-level characterisations of the word operations\<close>

type_synonym byte = "8 word"
type_synonym uint32 = "32 word"
type_synonym uint64 = "64 word"

section \<open>Slices\<close>

text \<open>
  \<^verbatim>\<open>s[i:]\<close> and \<^verbatim>\<open>s[:i]\<close> panic when the bound lies outside the slice. The
  capacity of a slice is taken to be its length.
\<close>

definition slice_from :: "'a list \<Rightarrow> nat \<Rightarrow> 'a list option" where
  "slice_from s i = (if i \<le> length s then Some (drop i s) else None)"

definition slice_to :: "'a list \<Rightarrow> nat \<Rightarrow> 'a list option" where
  "slice_to s i = (if i \<le> length s then Some (take i s) else None)"

definition index :: "'a list \<Rightarrow> nat \<Rightarrow> 'a option" where
  "index s i = (if i < length s then Some (s ! i) else None)"

lemma slice_from_Some [simp, panic_free]: "i \<le> length s \<Longrightarrow> slice_from s i = Some (drop i s)"
  by (simp add: slice_from_def)

lemma slice_to_Some [simp, panic_free]: "i \<le> length s \<Longrightarrow> slice_to s i = Some (take i s)"
  by (simp add: slice_to_def)

lemma index_Some [simp, panic_free]: "i < length s \<Longrightarrow> index s i = Some (s ! i)"
  by (simp add: index_def)

lemma index_eq_Some_iff: "index s i = Some x \<longleftrightarrow> i < length s \<and> s ! i = x"
  by (auto simp: index_def)

section \<open>Words\<close>

lemma unat_less_word_imp_of_nat: "unat (of_nat n :: 'a::len word) = n" if "n < 2 ^ LENGTH('a)"
  using that by (simp add: unat_of_nat take_bit_nat_eq_self)

lemma unat_minus_one_less: "x \<noteq> 0 \<Longrightarrow> unat (x - 1) < unat x" for x :: "'a::len word"
  by (simp add: unat_minus_one unat_gt_0)

lemma unat_minus_two_less: "x \<noteq> 1 \<Longrightarrow> unat (x - 2) < unat (x - 1)" for x :: "'a::len word"
  using unat_minus_one_less [of "x - 1"] by simp

end
