(* ===== verification/Json.thy ===== *)
theory Json
  imports GoStrings
begin

text \<open>
  The JSON texts the services exchange: the data model, the compact printer of
  \<^verbatim>\<open>json.Marshal\<close> and a parser for \<^verbatim>\<open>json.Unmarshal\<close>, with the proof that parsing a
  printed value gives the value back.
  Strings are taken to hold valid UTF-8, which Go's encoder leaves as it is; it would write U+FFFD for a byte that is not, and
  strings that come through gRPC or out of a JSON text are valid. An invalid one can only come from a form field or from outside.
\<close>

datatype json =
    JNull
  | JBool bool
  | JNum int
  | JFrac string \<comment> \<open>a number literal with a fraction or an exponent\<close>
  | JStr string
  | JArr "json list"
  | JObj "(string \<times> json) list"

section \<open>Printing\<close>

definition hex_char :: "nat \<Rightarrow> char" where
  "hex_char d = (if d < 10 then char_of (48 + d) else char_of (87 + d))"

definition escape_char :: "char \<Rightarrow> string" where
  "escape_char c =
     (let n = of_char c :: nat
      in if n = 0x22 \<or> n = 0x5C then [CHR 0x5C, c]
         else if n = 10 then [CHR 0x5C, CHR ''n'']
         else if n = 13 then [CHR 0x5C, CHR ''r'']
         else if n = 9 then [CHR 0x5C, CHR ''t'']
         else if n < 32 \<or> n = 0x3C \<or> n = 0x3E \<or> n = 0x26 then
           [CHR 0x5C, CHR ''u'', CHR ''0'', CHR ''0'', hex_char (n div 16), hex_char (n mod 16)]
         else [c])"

definition quote :: char where "quote = CHR 0x22"

text \<open>U+2028 and U+2029 are escaped too, although they are valid in a JSON text.\<close>

fun escape :: "string \<Rightarrow> string" where
  "escape [] = []"
| "escape (c # cs) =
     (if (of_char c :: nat) = 0xE2 \<and> take 2 cs = [CHR 0x80, CHR 0xA8] then
        CHR 0x5C # ''u2028'' @ escape (drop 2 cs)
      else if (of_char c :: nat) = 0xE2 \<and> take 2 cs = [CHR 0x80, CHR 0xA9] then
        CHR 0x5C # ''u2029'' @ escape (drop 2 cs)
      else escape_char c @ escape cs)"

definition print_string :: "string \<Rightarrow> string" where
  "print_string s = [quote] @ escape s @ [quote]"

fun commas :: "string list \<Rightarrow> string" where
  "commas [] = []"
| "commas [x] = x"
| "commas (x # y # ys) = x @ '','' @ commas (y # ys)"

primrec json_print :: "json \<Rightarrow> string" where
  "json_print JNull = ''null''"
| "json_print (JBool b) = (if b then ''true'' else ''false'')"
| "json_print (JNum i) = fmt_d i"
| "json_print (JFrac s) = s"
| "json_print (JStr s) = print_string s"
| "json_print (JArr js) = ''['' @ commas (map json_print js) @ '']''"
| "json_print (JObj kvs) =
     ''{'' @ commas (map (\<lambda>kp. print_string (fst kp) @ '':'' @ snd kp) (map (map_prod id json_print) kvs)) @ ''}''"

section \<open>Parsing\<close>

definition is_ws :: "char \<Rightarrow> bool" where
  "is_ws c \<longleftrightarrow> c \<in> {CHR '' '', CHR 9, CHR 10, CHR 13}"

definition skip_ws :: "string \<Rightarrow> string" where
  "skip_ws s = dropWhile is_ws s"

definition hex_val :: "char \<Rightarrow> nat option" where
  "hex_val c =
     (let n = of_char c :: nat
      in if 48 \<le> n \<and> n \<le> 57 then Some (n - 48)
         else if 97 \<le> n \<and> n \<le> 102 then Some (n - 87)
         else if 65 \<le> n \<and> n \<le> 70 then Some (n - 55)
         else None)"

fun hex4 :: "string \<Rightarrow> (nat \<times> string) option" where
  "hex4 (a # b # c # d # rest) = do {
     w \<leftarrow> hex_val a; x \<leftarrow> hex_val b; y \<leftarrow> hex_val c; z \<leftarrow> hex_val d;
     Some (((w * 16 + x) * 16 + y) * 16 + z, rest)
   }"
| "hex4 _ = None"

definition utf8 :: "nat \<Rightarrow> string" where
  "utf8 n =
     (if n < 0x80 then [char_of n]
      else if n < 0x800 then [char_of (0xC0 + n div 64), char_of (0x80 + n mod 64)]
      else if n < 0x10000 then
        [char_of (0xE0 + n div 4096), char_of (0x80 + n div 64 mod 64), char_of (0x80 + n mod 64)]
      else [char_of (0xF0 + n div 262144), char_of (0x80 + n div 4096 mod 64),
            char_of (0x80 + n div 64 mod 64), char_of (0x80 + n mod 64)])"

text \<open>\<^verbatim>\<open>\uXXXX\<close> after its \<^verbatim>\<open>u\<close>: surrogate pairs are joined, a lone surrogate is U+FFFD.\<close>

definition unicode_escape :: "string \<Rightarrow> (string \<times> string) option" where
  "unicode_escape s =
     (case hex4 s of
        None \<Rightarrow> None
      | Some (n, rest) \<Rightarrow>
          if 0xD800 \<le> n \<and> n < 0xDC00 then
            (if take 2 rest = [CHR 0x5C, CHR ''u''] then
               (case hex4 (drop 2 rest) of
                  Some (m, rest') \<Rightarrow>
                    if 0xDC00 \<le> m \<and> m < 0xE000
                    then Some (utf8 (0x10000 + (n - 0xD800) * 1024 + (m - 0xDC00)), rest')
                    else Some (utf8 0xFFFD, rest)
                | None \<Rightarrow> Some (utf8 0xFFFD, rest))
             else Some (utf8 0xFFFD, rest))
          else if 0xDC00 \<le> n \<and> n < 0xE000 then Some (utf8 0xFFFD, rest)
          else Some (utf8 n, rest))"

definition unescape :: "char \<Rightarrow> char option" where
  "unescape e =
     (if e = quote \<or> e = CHR 0x5C \<or> e = CHR ''/'' then Some e
      else if e = CHR ''b'' then Some (CHR 8)
      else if e = CHR ''f'' then Some (CHR 12)
      else if e = CHR ''n'' then Some (CHR 10)
      else if e = CHR ''r'' then Some (CHR 13)
      else if e = CHR ''t'' then Some (CHR 9)
      else None)"

lemma hex4_shrinks: "hex4 s = Some (n, r) \<Longrightarrow> length r < length s"
  by (induction s rule: hex4.induct) (auto split: bind_splits)

lemma unicode_escape_shrinks: "unicode_escape s = Some (x, r) \<Longrightarrow> length r < length s"
  by (auto simp: unicode_escape_def split: option.splits if_splits dest!: hex4_shrinks)

text \<open>The text after the opening quote: the string and what follows the closing quote.\<close>

function parse_string :: "string \<Rightarrow> (string \<times> string) option" where
  "parse_string [] = None"
| "parse_string (c # cs) =
     (if c = quote then Some ([], cs)
      else if c = CHR 0x5C then
        (case cs of
           [] \<Rightarrow> None
         | e # ds \<Rightarrow>
             if e = CHR ''u'' then
               (case unicode_escape ds of
                  None \<Rightarrow> None
                | Some (x, rest) \<Rightarrow> map_option (map_prod (append x) id) (parse_string rest))
             else
               (case unescape e of
                  None \<Rightarrow> None
                | Some x \<Rightarrow> map_option (map_prod (Cons x) id) (parse_string ds)))
      else if (of_char c :: nat) < 32 then None
      else map_option (map_prod (Cons c) id) (parse_string cs))"
  by pat_completeness auto
termination
  by (relation "measure length") (auto dest: unicode_escape_shrinks)

declare parse_string.simps(2) [simp del]

definition parse_number :: "string \<Rightarrow> (json \<times> string) option" where
  "parse_number s =
     (let sign = (if take 1 s = ''-'' then ''-'' else []);
          t = drop (length sign) s;
          ds = takeWhile is_digit t;
          t = dropWhile is_digit t;
          fr = (if take 1 t = ''.'' then ''.'' @ takeWhile is_digit (drop 1 t) else []);
          t' = drop (length fr) t;
          ex = (if take 1 t' = ''e'' \<or> take 1 t' = ''E'' then
                  (let sg = (if take 1 (drop 1 t') = ''+'' \<or> take 1 (drop 1 t') = ''-''
                             then take 1 (drop 1 t') else [])
                   in take 1 t' @ sg @ takeWhile is_digit (drop (1 + length sg) t'))
                else []);
          rest = drop (length ex) t'
      in if ds = [] \<or> (hd ds = CHR ''0'' \<and> length ds \<noteq> 1) \<or> fr = ''.''
            \<or> (ex \<noteq> [] \<and> \<not> is_digit (last ex)) then None
         else if fr = [] \<and> ex = [] then
           (case dec_val ds of
              None \<Rightarrow> None
            | Some n \<Rightarrow> Some (JNum (if sign = [] then int n else - int n), rest))
         else Some (JFrac (sign @ ds @ fr @ ex), rest))"

definition parse_literal :: "string \<Rightarrow> json \<Rightarrow> string \<Rightarrow> (json \<times> string) option" where
  "parse_literal w j s = (if take (length w) s = w then Some (j, drop (length w) s) else None)"

fun parse_value :: "nat \<Rightarrow> string \<Rightarrow> (json \<times> string) option"
  and parse_elems :: "nat \<Rightarrow> string \<Rightarrow> (json list \<times> string) option"
  and parse_members :: "nat \<Rightarrow> string \<Rightarrow> ((string \<times> json) list \<times> string) option"
where
  "parse_value 0 s = None"
| "parse_value (Suc n) s =
     (case skip_ws s of
        [] \<Rightarrow> None
      | c # cs \<Rightarrow>
          if c = quote then map_option (map_prod JStr id) (parse_string cs)
          else if c = CHR ''['' then
            (if take 1 (skip_ws cs) = '']'' then Some (JArr [], drop 1 (skip_ws cs))
             else map_option (map_prod JArr id) (parse_elems n cs))
          else if c = CHR ''{'' then
            (if take 1 (skip_ws cs) = ''}'' then Some (JObj [], drop 1 (skip_ws cs))
             else map_option (map_prod JObj id) (parse_members n cs))
          else if c = CHR ''n'' then parse_literal ''null'' JNull (c # cs)
          else if c = CHR ''t'' then parse_literal ''true'' (JBool True) (c # cs)
          else if c = CHR ''f'' then parse_literal ''false'' (JBool False) (c # cs)
          else parse_number (c # cs))"
| "parse_elems 0 s = None"
| "parse_elems (Suc n) s = do {
     (j, r) \<leftarrow> parse_value n s;
     let r = skip_ws r;
     if take 1 r = '','' then map_option (map_prod (Cons j) id) (parse_elems n (drop 1 r))
     else if take 1 r = '']'' then Some ([j], drop 1 r)
     else None
   }"
| "parse_members 0 s = None"
| "parse_members (Suc n) s = do {
     (k, r) \<leftarrow> (case skip_ws s of [] \<Rightarrow> None | c # cs \<Rightarrow> if c = quote then parse_string cs else None);
     let r = skip_ws r;
     (j, r) \<leftarrow> (if take 1 r = '':'' then parse_value n (drop 1 r) else None);
     let r = skip_ws r;
     if take 1 r = '','' then map_option (map_prod (Cons (k, j)) id) (parse_members n (drop 1 r))
     else if take 1 r = ''}'' then Some ([(k, j)], drop 1 r)
     else None
   }"

definition json_parse :: "string \<Rightarrow> json option" where
  "json_parse s =
     (case parse_value (Suc (length s)) s of
        None \<Rightarrow> None
      | Some (j, r) \<Rightarrow> if skip_ws r = [] then Some j else None)"


section \<open>Round trip\<close>

lemma hex_val_hex_char [simp]: "d < 16 \<Longrightarrow> hex_val (hex_char d) = Some d"
  by (auto simp: hex_val_def hex_char_def Let_def of_char_of)

lemma hex_val_zero [simp]: "hex_val (CHR ''0'') = Some 0"
  by (simp add: hex_val_def)




lemma char_lits:
  "char_of (0x22 :: nat) = CHR 0x22" "char_of (0x5C :: nat) = CHR 0x5C"
  "char_of (10 :: nat) = CHR 10" "char_of (13 :: nat) = CHR 13" "char_of (9 :: nat) = CHR 9"
  "char_of (0xE2 :: nat) = CHR 0xE2" "char_of (0x80 :: nat) = CHR 0x80"
  "char_of (0xA8 :: nat) = CHR 0xA8" "char_of (0xA9 :: nat) = CHR 0xA9"
  by (simp_all add: char_of_eq_iff)

lemma parse_string_simple:
  "e \<noteq> CHR ''u'' \<Longrightarrow> unescape e = Some x \<Longrightarrow>
   parse_string (CHR 0x5C # e # t) = map_option (map_prod (Cons x) id) (parse_string t)"
  by (subst parse_string.simps(2)) (simp add: quote_def)

lemma parse_string_unicode:
  "unicode_escape t = Some (x, r) \<Longrightarrow>
   parse_string (CHR 0x5C # CHR ''u'' # t) = map_option (map_prod (append x) id) (parse_string r)"
  by (subst parse_string.simps(2)) (simp add: quote_def)

lemma parse_string_plain:
  "of_char c \<notin> {0x22, 0x5C :: nat} \<Longrightarrow> \<not> (of_char c :: nat) < 32 \<Longrightarrow>
   parse_string (c # t) = map_option (map_prod (Cons c) id) (parse_string t)"
  by (subst parse_string.simps(2)) (auto simp: quote_def)

lemma unicode_escape_ctrl:
  "n < 128 \<Longrightarrow>
   unicode_escape (CHR ''0'' # CHR ''0'' # hex_char (n div 16) # hex_char (n mod 16) # t) = Some ([char_of n], t)"
  by (simp add: unicode_escape_def utf8_def)

lemma of_char_eq_char: "of_char c = (n :: nat) \<Longrightarrow> c = char_of n"
  by (metis char_of_char)

lemma append_singleton: "(@) [x] = (#) x"
  by auto

lemma take2_split: "take 2 xs = [a, b] \<Longrightarrow> a # b # drop 2 xs = xs"
  by (metis append_Cons append_Nil append_take_drop_id)

lemma parse_string_escape_char:
  "parse_string (escape_char c @ t) = map_option (map_prod (Cons c) id) (parse_string t)"
proof -
  define n where "n = (of_char c :: nat)"
  have c: "c = char_of n"
    by (simp add: n_def)
  consider "n \<in> {0x22, 0x5C}" | "n = 10" | "n = 13" | "n = 9"
    | "n \<notin> {0x22, 0x5C, 10, 13, 9}" "n < 32 \<or> n = 0x3C \<or> n = 0x3E \<or> n = 0x26"
    | "n \<notin> {0x22, 0x5C}" "\<not> n < 32" "n \<notin> {0x3C, 0x3E, 0x26}"
    by auto
  then show ?thesis
  proof cases
    case 1
    then show ?thesis
      by (auto simp: escape_char_def c of_char_of unescape_def quote_def parse_string_simple char_lits)
  next
    case 5
    then show ?thesis
      using unicode_escape_ctrl [of n t]
      by (auto simp: escape_char_def c of_char_of parse_string_unicode append_singleton)
  next
    case 6
    then show ?thesis
      by (auto simp: escape_char_def Let_def parse_string_plain simp flip: n_def)
  qed (simp_all add: escape_char_def c of_char_of unescape_def quote_def parse_string_simple char_lits)
qed

lemma unicode_escape_separator:
  "unicode_escape (''2028'' @ t) = Some ([CHR 0xE2, CHR 0x80, CHR 0xA8], t)"
  "unicode_escape (''2029'' @ t) = Some ([CHR 0xE2, CHR 0x80, CHR 0xA9], t)"
  by (simp_all add: unicode_escape_def hex_val_def utf8_def char_lits)

lemma parse_string_escape: "parse_string (escape s @ quote # rest) = Some (s, rest)"
proof (induction s rule: escape.induct)
  case 1
  show ?case
    by (simp add: parse_string.simps(2))
next
  case (2 c cs)
  note sep = unicode_escape_separator [simplified]
  show ?case
  proof (cases "(of_char c :: nat) = 0xE2 \<and> take 2 cs \<in> {[CHR 0x80, CHR 0xA8], [CHR 0x80, CHR 0xA9]}")
    case True
    then have "c = CHR 0xE2"
      by (auto dest!: of_char_eq_char simp: char_lits)
    then show ?thesis
      using True 2 by (auto simp: parse_string_unicode [OF sep(1)] parse_string_unicode [OF sep(2)] take2_split)
  next
    case False
    then show ?thesis
      using 2(3) by (auto simp: parse_string_escape_char)
  qed
qed

text \<open>What may follow a value inside an array or an object, or at the end of the text.\<close>

definition delim :: "string \<Rightarrow> bool" where
  "delim t \<longleftrightarrow> (t = [] \<or> hd t \<in> {CHR '','', CHR '']'', CHR ''}''})"

text \<open>The values the services print: integers only among the numbers.\<close>

primrec integral :: "json \<Rightarrow> bool" where
  "integral JNull = True"
| "integral (JBool b) = True"
| "integral (JNum i) = True"
| "integral (JFrac s) = False"
| "integral (JStr s) = True"
| "integral (JArr js) = list_all id (map integral js)"
| "integral (JObj kvs) = list_all snd (map (map_prod id integral) kvs)"

lemma skip_ws_id [simp]: "s = [] \<or> \<not> is_ws (hd s) \<Longrightarrow> skip_ws s = s"
  by (cases s) (auto simp: skip_ws_def)

lemma delim_skip_ws [simp]: "delim t \<Longrightarrow> skip_ws t = t"
  by (rule skip_ws_id) (auto simp: delim_def is_ws_def)

lemma delim_simps [simp]: "delim []" "delim (CHR '','' # t)" "delim (CHR '']'' # t)" "delim (CHR ''}'' # t)"
  by (simp_all add: delim_def)

lemma is_digit_iff: "is_digit c \<longleftrightarrow> 48 \<le> (of_char c :: nat) \<and> (of_char c :: nat) \<le> 57"
  by (simp add: is_digit_def digit_of_def Let_def)

lemma takeWhile_nat_dec:
  "delim t \<Longrightarrow> takeWhile is_digit (nat_dec n @ t) = nat_dec n \<and> dropWhile is_digit (nat_dec n @ t) = t"
  using nat_dec_digits [of n]
  by (cases t) (auto simp: list_all_iff delim_def is_digit_iff takeWhile_append dropWhile_append)

lemma nat_dec_zero: "nat_dec n = CHR ''0'' # cs \<Longrightarrow> cs = []"
proof (induction n arbitrary: cs rule: nat_dec.induct)
  case (1 n)
  show ?case
  proof (cases "n < 10")
    case True
    then show ?thesis using 1 by (simp add: nat_dec.simps [of n])
  next
    case False
    then obtain ds where "nat_dec (n div 10) = CHR ''0'' # ds"
      using 1(2) by (cases "nat_dec (n div 10)") (auto simp: nat_dec.simps [of n])
    moreover from this have "nat_dec (n div 10) = ''0''"
      using 1(1) False by blast
    moreover have "nat_dec 0 = ''0''"
      by (simp add: nat_dec.simps [of 0] digit_char_def char_of_eq_iff)
    ultimately show ?thesis
      using nat_dec_inj [of "n div 10" 0] False by simp
  qed
qed

lemma parse_number_fmt_d: "delim t \<Longrightarrow> parse_number (fmt_d i @ t) = Some (JNum i, t)"
proof -
  assume t: "delim t"
  have lead: "\<not> (hd (nat_dec n) = CHR ''0'' \<and> length (nat_dec n) \<noteq> 1)" for n
    using nat_dec_zero [of n] by (cases "nat_dec n") auto
  have tk: "take (Suc 0) t \<noteq> ''.''" "take (Suc 0) t \<noteq> ''e''" "take (Suc 0) t \<noteq> ''E''"
    using t by (cases t; auto simp: delim_def)+
  have sgn: "take (Suc 0) (nat_dec n @ t) \<noteq> ''-''" for n
    using nat_dec_sign [of n] by (cases "nat_dec n") auto
  show ?thesis
    using lead tk sgn takeWhile_nat_dec [OF t]
    by (cases "i < 0") (auto simp: parse_number_def Let_def fmt_d_def)
qed

text \<open>The parser reads a printed value back whenever the fuel exceeds the length of the text.\<close>

definition reads :: "json \<Rightarrow> bool" where
  "reads j \<longleftrightarrow> (\<forall>n t. length (json_print j) < n \<longrightarrow> delim t \<longrightarrow> parse_value n (json_print j @ t) = Some (j, t))"

lemma commas_Cons: "commas (x # xs) = x @ (if xs = [] then [] else '','' @ commas xs)"
  by (cases xs) auto

lemma fmt_d_hd:
  obtains c cs where "fmt_d i = c # cs" "is_digit c \<or> c = CHR ''-''"
  using nat_dec_hd by (cases "fmt_d i") (auto simp: fmt_d_def split: if_splits)

lemma json_print_hd:
  "integral j \<Longrightarrow> json_print j \<noteq> [] \<and> \<not> is_ws (hd (json_print j)) \<and> hd (json_print j) \<noteq> CHR '']''"
proof (cases j)
  case (JNum i)
  then show ?thesis
    by (cases rule: fmt_d_hd [of i]) (auto simp: is_ws_def is_digit_iff)
qed (auto simp: print_string_def quote_def is_ws_def)

lemma reads_number: "reads (JNum i)"
  unfolding reads_def
proof (intro allI impI)
  fix n t
  assume n: "length (json_print (JNum i)) < n" and t: "delim t"
  obtain c cs where c: "fmt_d i = c # cs" "is_digit c \<or> c = CHR ''-''"
    by (rule fmt_d_hd)
  from n obtain m where m: "n = Suc m"
    by (cases n) auto
  have "\<not> is_ws c" "c \<notin> {quote, CHR ''['', CHR ''{'', CHR ''n'', CHR ''t'', CHR ''f''}"
    using c(2) by (auto simp: is_ws_def is_digit_iff quote_def)
  then show "parse_value n (json_print (JNum i) @ t) = Some (JNum i, t)"
    using parse_number_fmt_d [OF t, of i] by (simp add: m c(1))
qed

lemma reads_elems:
  "list_all reads js \<Longrightarrow> list_all integral js \<Longrightarrow> js \<noteq> [] \<Longrightarrow> Suc (length (commas (map json_print js))) < n \<Longrightarrow>
   parse_elems n (commas (map json_print js) @ CHR '']'' # t) = Some (js, t)"
proof (induction js arbitrary: n)
  case (Cons j js)
  from Cons.prems(4) obtain m where n: "n = Suc m"
    by (cases n) auto
  define u where "u = (if js = [] then [] else '','' @ commas (map json_print js)) @ CHR '']'' # t"
  have "delim u"
    by (simp add: u_def)
  moreover have "length (json_print j) < m"
    using Cons.prems(4) by (simp add: n commas_Cons)
  ultimately have "parse_value m (json_print j @ u) = Some (j, u)"
    using Cons.prems(1) by (simp add: reads_def)
  moreover have "parse_elems m (commas (map json_print js) @ CHR '']'' # t) = Some (js, t)" if "js \<noteq> []"
    using Cons.prems that json_print_hd [of j]
    by (intro Cons.IH) (auto simp: n commas_Cons simp flip: length_greater_0_conv)
  ultimately show ?case
    by (simp add: n commas_Cons u_def)
qed simp

definition print_member :: "string \<times> json \<Rightarrow> string" where
  "print_member kp = print_string (fst kp) @ '':'' @ json_print (snd kp)"

lemma json_print_JObj: "json_print (JObj kvs) = ''{'' @ commas (map print_member kvs) @ ''}''"
  by (simp add: print_member_def [abs_def] comp_def)

declare json_print.simps(7) [simp del]

lemma reads_members:
  "list_all (reads \<circ> snd) kvs \<Longrightarrow> kvs \<noteq> [] \<Longrightarrow> Suc (length (commas (map print_member kvs))) < n \<Longrightarrow>
   parse_members n (commas (map print_member kvs) @ CHR ''}'' # t) = Some (kvs, t)"
proof (induction kvs arbitrary: n)
  case (Cons kp kvs)
  obtain k j where kp: "kp = (k, j)"
    by (cases kp)
  from Cons.prems(3) obtain m where n: "n = Suc m"
    by (cases n) auto
  define u where "u = (if kvs = [] then [] else '','' @ commas (map print_member kvs)) @ CHR ''}'' # t"
  have "delim u"
    by (simp add: u_def)
  moreover have "length (json_print j) < m"
    using Cons.prems(3) by (simp add: n commas_Cons kp print_member_def)
  ultimately have v: "parse_value m (json_print j @ u) = Some (j, u)"
    using Cons.prems(1) by (simp add: reads_def kp)
  have ms: "parse_members m (commas (map print_member kvs) @ CHR ''}'' # t) = Some (kvs, t)" if "kvs \<noteq> []"
    using Cons.prems that
    by (intro Cons.IH) (auto simp: n commas_Cons print_member_def)
  have k: "parse_string (escape k @ quote # CHR '':'' # json_print j @ u) = Some (k, CHR '':'' # json_print j @ u)"
    by (rule parse_string_escape)
  have ws: "\<not> is_ws quote" "\<not> is_ws (CHR '':'')"
    by (simp_all add: is_ws_def quote_def)
  have "commas (map print_member (kp # kvs)) @ CHR ''}'' # t = quote # escape k @ quote # CHR '':'' # json_print j @ u"
    by (simp add: commas_Cons kp print_member_def print_string_def u_def)
  then show ?case
    using k v ms ws by (simp add: n u_def split del: if_split) (simp add: kp)
qed simp

declare parse_elems.simps(2) [simp del] parse_members.simps(2) [simp del]

lemma reads_JArr:
  assumes ok: "list_all reads js" "list_all integral js"
  shows "reads (JArr js)"
proof (cases js)
  case Nil
  then show ?thesis
    by (auto simp: reads_def Suc_less_eq2 is_ws_def quote_def)
next
  case (Cons j js')
  have ws: "\<not> is_ws (CHR ''['')" "\<not> is_ws (CHR '']'')" "CHR ''['' \<noteq> quote"
    by (simp_all add: is_ws_def quote_def)
  have hd: "json_print j \<noteq> []" "\<not> is_ws (hd (json_print j))" "hd (json_print j) \<noteq> CHR '']''"
    using ok json_print_hd by (auto simp: Cons)
  have skip: "skip_ws (commas (map json_print js) @ u) = commas (map json_print js) @ u"
    "take (Suc 0) (commas (map json_print js) @ u) \<noteq> '']''" for u
    using hd by (cases "json_print j"; simp add: Cons commas_Cons)+
  show ?thesis
    unfolding reads_def
    using skip ws reads_elems [OF ok] Cons by (auto simp: Suc_less_eq2)
qed

lemma reads_JObj:
  assumes ok: "list_all (reads \<circ> snd) kvs"
  shows "reads (JObj kvs)"
proof (cases kvs)
  case Nil
  then show ?thesis
    by (auto simp: reads_def Suc_less_eq2 json_print_JObj is_ws_def quote_def)
next
  case (Cons kp kvs')
  have ws: "\<not> is_ws (CHR ''{'')" "\<not> is_ws (CHR ''}'')" "CHR ''{'' \<noteq> quote" "\<not> is_ws quote"
    by (simp_all add: is_ws_def quote_def)
  have skip: "skip_ws (commas (map print_member kvs) @ u) = commas (map print_member kvs) @ u"
    "take (Suc 0) (commas (map print_member kvs) @ u) \<noteq> ''}''" for u
    using ws by (simp_all add: Cons commas_Cons print_member_def print_string_def) (simp add: quote_def)
  show ?thesis
    unfolding reads_def
    using skip ws reads_members [OF ok] Cons by (auto simp: Suc_less_eq2 json_print_JObj)
qed

lemma reads_integral: "integral j \<Longrightarrow> reads j"
proof (induction j)
  case (JNum i)
  show ?case by (rule reads_number)
next
  case (JStr s)
  have "\<not> is_ws quote"
    by (simp add: is_ws_def quote_def)
  then show ?case
    by (auto simp: reads_def print_string_def parse_string_escape gr0_conv_Suc Suc_less_eq2)
next
  case (JArr js)
  then show ?case
    by (intro reads_JArr) (auto simp: list_all_iff)
next
  case (JObj kvs)
  then show ?case
    by (intro reads_JObj) (force simp: list_all_iff)
qed (auto simp: reads_def is_ws_def quote_def parse_literal_def gr0_conv_Suc Suc_less_eq2)

text \<open>
  A JSON text printed by \<^verbatim>\<open>json.Marshal\<close> parses back to the same value, whatever
  characters its strings hold; the fuel of the parser is never the reason for a failure.
\<close>

lemma json_parse_print [simp]: "integral j \<Longrightarrow> json_parse (json_print j) = Some j"
  using reads_integral [of j, unfolded reads_def, rule_format, of "Suc (length (json_print j))" "[]"]
  by (simp add: json_parse_def)

section \<open>Decoding into structs\<close>

text \<open>
  \<^verbatim>\<open>json.Unmarshal\<close> into a variable: a decoder maps a JSON value and the old contents to
  the new contents and to whether the types matched. A text that is not JSON leaves the
  variable alone; a member of the wrong type, or \<^verbatim>\<open>null\<close>, leaves its field alone and decoding
  goes on. (Go ends decoding at a time that does not parse, here too decoding goes on: the services only decode times that
  they have printed themselves.) Member names match field names up to ASCII case, and a later member overrides an
  earlier one.
\<close>

type_synonym 'a decoder = "json \<Rightarrow> 'a \<Rightarrow> 'a \<times> bool"

fun dec_string :: "string decoder" where
  "dec_string (JStr s) x = (s, True)"
| "dec_string JNull x = (x, True)"
| "dec_string j x = (x, False)"

definition int64_range :: "int \<Rightarrow> bool" where
  "int64_range i \<longleftrightarrow> - (2 ^ 63) \<le> i \<and> i < 2 ^ 63"

fun dec_int :: "int decoder" where
  "dec_int (JNum i) x = (if int64_range i then (i, True) else (x, False))"
| "dec_int JNull x = (x, True)"
| "dec_int j x = (x, False)"

fun dec_bool :: "bool decoder" where
  "dec_bool (JBool b) x = (b, True)"
| "dec_bool JNull x = (x, True)"
| "dec_bool j x = (x, False)"

definition lower :: "char \<Rightarrow> nat" where
  "lower c = (let n = of_char c in if 65 \<le> n \<and> n \<le> 90 then n + 32 else n)"

definition equalFold :: "string \<Rightarrow> string \<Rightarrow> bool" where
  "equalFold s t \<longleftrightarrow> map lower s = map lower t"

fun set_field :: "(string \<times> 'a decoder) list \<Rightarrow> string \<Rightarrow> 'a decoder" where
  "set_field [] k j x = (x, True)"
| "set_field ((f, d) # fs) k j x = (if equalFold f k then d j x else set_field fs k j x)"

fun set_fields :: "(string \<times> 'a decoder) list \<Rightarrow> (string \<times> json) list \<Rightarrow> 'a \<Rightarrow> 'a \<times> bool" where
  "set_fields fs [] x = (x, True)"
| "set_fields fs ((k, j) # kvs) x =
     (let (y, ok) = set_field fs k j x; (z, ok') = set_fields fs kvs y in (z, ok \<and> ok'))"

fun dec_struct :: "(string \<times> 'a decoder) list \<Rightarrow> 'a decoder" where
  "dec_struct fs (JObj kvs) x = set_fields fs kvs x"
| "dec_struct fs JNull x = (x, True)"
| "dec_struct fs j x = (x, False)"

text \<open>The decoder of one field, from its getter and its setter.\<close>

definition fld :: "string \<Rightarrow> 'b decoder \<Rightarrow> ('a \<Rightarrow> 'b) \<Rightarrow> ('b \<Rightarrow> 'a \<Rightarrow> 'a) \<Rightarrow> string \<times> 'a decoder" where
  "fld k d get upd = (k, \<lambda>j x. let (v, ok) = d j (get x) in (upd v x, ok))"

text \<open>Slices: every element is decoded into a zero value of the element type.\<close>

fun dec_slice :: "'a decoder \<Rightarrow> 'a \<Rightarrow> 'a list decoder" where
  "dec_slice d zero (JArr js) x = (map (\<lambda>j. fst (d j zero)) js, list_all (\<lambda>j. snd (d j zero)) js)"
| "dec_slice d zero JNull x = ([], True)"
| "dec_slice d zero j x = (x, False)"

definition Unmarshal :: "'a decoder \<Rightarrow> string \<Rightarrow> 'a \<Rightarrow> 'a \<times> bool" where
  "Unmarshal d s x = (case json_parse s of None \<Rightarrow> (x, False) | Some j \<Rightarrow> d j x)"

lemma Unmarshal_print [simp]: "integral j \<Longrightarrow> Unmarshal d (json_print j) x = d j x"
  by (simp add: Unmarshal_def)

lemma equalFold_refl [simp]: "equalFold s s"
  by (simp add: equalFold_def)

end
