(* ===== verification/Times.thy ===== *)
theory Times
  imports Json
begin

text \<open>
  \<^verbatim>\<open>time.Time\<close> as far as the server looks at it: the civil fields with the zone, their RFC 3339
  text and its parser. No instant is ever compared or computed with, so the fields are the value.
\<close>

record Time =
  t_year :: nat
  t_month :: nat
  t_day :: nat
  t_hour :: nat
  t_min :: nat
  t_sec :: nat
  t_nsec :: nat
  t_zone :: int \<comment> \<open>minutes east of UTC\<close>

definition zero_time :: Time where
  "zero_time = \<lparr>t_year = 1, t_month = 1, t_day = 1, t_hour = 0, t_min = 0, t_sec = 0, t_nsec = 0, t_zone = 0\<rparr>"

definition pad :: "nat \<Rightarrow> nat \<Rightarrow> string" where
  "pad w n = replicate (w - length (nat_dec n)) (CHR ''0'') @ nat_dec n"

definition fmt_zone :: "int \<Rightarrow> string" where
  "fmt_zone z =
     (if z = 0 then ''Z''
      else (if z < 0 then ''-'' else ''+'') @ pad 2 (nat \<bar>z\<bar> div 60) @ '':'' @ pad 2 (nat \<bar>z\<bar> mod 60))"

definition fmt_seconds :: "Time \<Rightarrow> string" where
  "fmt_seconds t =
     pad 4 (t_year t) @ ''-'' @ pad 2 (t_month t) @ ''-'' @ pad 2 (t_day t) @ ''T''
     @ pad 2 (t_hour t) @ '':'' @ pad 2 (t_min t) @ '':'' @ pad 2 (t_sec t)"

text \<open>\<^verbatim>\<open>t.Format(time.RFC3339)\<close>, and the text with the fraction of the second that JSON carries.\<close>

definition format_rfc3339 :: "Time \<Rightarrow> string" where
  "format_rfc3339 t = fmt_seconds t @ fmt_zone (t_zone t)"

definition fmt_fraction :: "nat \<Rightarrow> string" where
  "fmt_fraction ns =
     (if ns = 0 then [] else ''.'' @ rev (dropWhile (\<lambda>c. c = CHR ''0'') (rev (pad 9 ns))))"

definition format_rfc3339nano :: "Time \<Rightarrow> string" where
  "format_rfc3339nano t = fmt_seconds t @ fmt_fraction (t_nsec t) @ fmt_zone (t_zone t)"

definition enc_time :: "Time \<Rightarrow> json" where
  "enc_time t = JStr (format_rfc3339nano t)"

definition days_in :: "nat \<Rightarrow> nat \<Rightarrow> nat" where
  "days_in y m =
     (if m = 2 then (if y mod 4 = 0 \<and> (y mod 100 \<noteq> 0 \<or> y mod 400 = 0) then 29 else 28)
      else if m \<in> {4, 6, 9, 11} then 30 else 31)"

text \<open>A number of exactly \<open>w\<close> digits, and a given character.\<close>

definition read_num :: "nat \<Rightarrow> string \<Rightarrow> (nat \<times> string) option" where
  "read_num w s =
     (if length (take w s) = w then map_option (\<lambda>n. (n, drop w s)) (dec_val (take w s)) else None)"

fun read_char :: "char \<Rightarrow> string \<Rightarrow> string option" where
  "read_char c [] = None"
| "read_char c (x # xs) = (if x = c then Some xs else None)"

definition read_fraction :: "string \<Rightarrow> nat \<times> string" where
  "read_fraction s =
     (let ds = takeWhile is_digit (drop 1 s)
      in if take 1 s = ''.'' \<and> ds \<noteq> [] then
           (case dec_val (take 9 (ds @ replicate 9 (CHR ''0''))) of Some n \<Rightarrow> n | None \<Rightarrow> 0, dropWhile is_digit (drop 1 s))
         else (0, s))"

definition read_zone :: "string \<Rightarrow> int option" where
  "read_zone s =
     (if s = ''Z'' then Some 0
      else if take 1 s = ''+'' \<or> take 1 s = ''-'' then do {
        (h, r) \<leftarrow> read_num 2 (drop 1 s);
        r \<leftarrow> read_char (CHR '':'') r;
        (m, r) \<leftarrow> read_num 2 r;
        if r = [] \<and> m < 60 then Some ((if take 1 s = ''-'' then -1 else 1) * int (60 * h + m)) else None
      }
      else None)"

definition parse_time :: "string \<Rightarrow> Time option" where
  "parse_time s = do {
     (y, s) \<leftarrow> read_num 4 s; s \<leftarrow> read_char (CHR ''-'') s;
     (mo, s) \<leftarrow> read_num 2 s; s \<leftarrow> read_char (CHR ''-'') s;
     (d, s) \<leftarrow> read_num 2 s; s \<leftarrow> read_char (CHR ''T'') s;
     (h, s) \<leftarrow> read_num 2 s; s \<leftarrow> read_char (CHR '':'') s;
     (mi, s) \<leftarrow> read_num 2 s; s \<leftarrow> read_char (CHR '':'') s;
     (se, s) \<leftarrow> read_num 2 s;
     let (ns, s) = read_fraction s;
     z \<leftarrow> read_zone s;
     if 1 \<le> mo \<and> mo \<le> 12 \<and> 1 \<le> d \<and> d \<le> days_in y mo \<and> h < 24 \<and> mi < 60 \<and> se < 60
     then Some \<lparr>t_year = y, t_month = mo, t_day = d, t_hour = h, t_min = mi, t_sec = se, t_nsec = ns, t_zone = z\<rparr>
     else None
   }"

fun dec_time :: "Time decoder" where
  "dec_time (JStr s) x = (case parse_time s of Some t \<Rightarrow> (t, True) | None \<Rightarrow> (x, False))"
| "dec_time JNull x = (x, True)"
| "dec_time j x = (x, False)"
end
