(* ===== verification/Messages.thy ===== *)
theory Messages
  imports Times
begin

text \<open>
  The data the services exchange: the database rows of \<^verbatim>\<open>db/model.go\<close>, the payloads of
  \<^verbatim>\<open>common/param.go\<close> and \<^verbatim>\<open>common/kafka.go\<close>, and the protobuf messages of the connect layer, with
  the JSON encodings their struct tags prescribe. Identifiers are 64-bit integers on which no
  arithmetic is done. A slice that can be nil and not just empty is an option.
\<close>

section \<open>Encoding helpers\<close>

text \<open>Members of a struct tagged \<^verbatim>\<open>omitempty\<close> disappear when they hold a zero value.\<close>

definition opt_int :: "string \<Rightarrow> int \<Rightarrow> (string \<times> json) list" where
  "opt_int k i = (if i = 0 then [] else [(k, JNum i)])"

definition opt_str :: "string \<Rightarrow> string \<Rightarrow> (string \<times> json) list" where
  "opt_str k s = (if s = [] then [] else [(k, JStr s)])"

definition enc_ints :: "int list \<Rightarrow> json" where
  "enc_ints xs = JArr (map JNum xs)"

text \<open>A slice that is nil exactly when it is empty.\<close>

definition enc_nil_ints :: "int list \<Rightarrow> json" where
  "enc_nil_ints xs = (if xs = [] then JNull else enc_ints xs)"

text \<open>The conversion \<^verbatim>\<open>int32(x)\<close>, and decoding into a 32-bit field.\<close>

definition to_int32 :: "int \<Rightarrow> int" where
  "to_int32 i = signed_take_bit 31 i"

fun dec_int32 :: "int decoder" where
  "dec_int32 (JNum i) x = (if - (2 ^ 31) \<le> i \<and> i < 2 ^ 31 then (i, True) else (x, False))"
| "dec_int32 JNull x = (x, True)"
| "dec_int32 j x = (x, False)"

fun dec_json :: "json decoder" where
  "dec_json j x = (j, True)"

lemma dec_int_range [simp]: "int64_range i \<Longrightarrow> dec_int (JNum i) x = (i, True)"
  by simp

section \<open>Database rows (db/model.go)\<close>

record TUser =
  u_ID :: int
  u_Username :: string
  u_Password :: string
  u_Avatar :: string
  u_Role :: int
  u_Status :: int
  u_Tag :: string
  u_CreateAt :: Time
  u_UpdateAt :: Time
  u_DeleteAt :: json \<comment> \<open>gorm's soft-deletion mark, as the JSON value it marshals to\<close>

definition zero_user :: TUser where
  "zero_user = \<lparr>u_ID = 0, u_Username = [], u_Password = [], u_Avatar = [], u_Role = 0, u_Status = 0,
     u_Tag = [], u_CreateAt = zero_time, u_UpdateAt = zero_time, u_DeleteAt = JNull\<rparr>"

definition enc_user :: "TUser \<Rightarrow> json" where
  "enc_user u = JObj (opt_int ''id'' (u_ID u) @ opt_str ''username'' (u_Username u)
     @ opt_str ''password'' (u_Password u) @ opt_str ''avatar'' (u_Avatar u)
     @ opt_int ''role'' (u_Role u) @ opt_int ''status'' (u_Status u) @ opt_str ''tag'' (u_Tag u)
     @ [(''createAt'', enc_time (u_CreateAt u)), (''updateAt'', enc_time (u_UpdateAt u)),
        (''DeleteAt'', u_DeleteAt u)])"

definition dec_user :: "TUser decoder" where
  "dec_user = dec_struct
     [fld ''id'' dec_int u_ID (\<lambda>v u. u\<lparr>u_ID := v\<rparr>),
      fld ''username'' dec_string u_Username (\<lambda>v u. u\<lparr>u_Username := v\<rparr>),
      fld ''password'' dec_string u_Password (\<lambda>v u. u\<lparr>u_Password := v\<rparr>),
      fld ''avatar'' dec_string u_Avatar (\<lambda>v u. u\<lparr>u_Avatar := v\<rparr>),
      fld ''role'' dec_int u_Role (\<lambda>v u. u\<lparr>u_Role := v\<rparr>),
      fld ''status'' dec_int u_Status (\<lambda>v u. u\<lparr>u_Status := v\<rparr>),
      fld ''tag'' dec_string u_Tag (\<lambda>v u. u\<lparr>u_Tag := v\<rparr>),
      fld ''createAt'' dec_time u_CreateAt (\<lambda>v u. u\<lparr>u_CreateAt := v\<rparr>),
      fld ''updateAt'' dec_time u_UpdateAt (\<lambda>v u. u\<lparr>u_UpdateAt := v\<rparr>),
      fld ''DeleteAt'' dec_json u_DeleteAt (\<lambda>v u. u\<lparr>u_DeleteAt := v\<rparr>)]"

record TGroup =
  g_ID :: int
  g_Userid :: int
  g_GroupName :: string
  g_Notice :: string
  g_CreateAt :: Time
  g_UpdateAt :: Time
  g_DeleteAt :: json

definition zero_group :: TGroup where
  "zero_group = \<lparr>g_ID = 0, g_Userid = 0, g_GroupName = [], g_Notice = [], g_CreateAt = zero_time,
     g_UpdateAt = zero_time, g_DeleteAt = JNull\<rparr>"

record TRelation =
  r_ID :: int
  r_Type :: string
  r_ObjectA :: int
  r_ObjectB :: int
  r_CreateAt :: Time
  r_UpdateAt :: Time
  r_DeleteAt :: json

definition zero_relation :: TRelation where
  "zero_relation = \<lparr>r_ID = 0, r_Type = [], r_ObjectA = 0, r_ObjectB = 0, r_CreateAt = zero_time,
     r_UpdateAt = zero_time, r_DeleteAt = JNull\<rparr>"

record TMessage =
  m_ID :: int
  m_Belong :: int
  m_SnowID :: string
  m_Type :: string
  m_Content :: string
  m_FromA :: int
  m_ToB :: int
  m_MessageType :: string
  m_CreateAt :: Time
  m_UpdateAt :: Time
  m_DeleteAt :: json

definition zero_message :: TMessage where
  "zero_message = \<lparr>m_ID = 0, m_Belong = 0, m_SnowID = [], m_Type = [], m_Content = [], m_FromA = 0,
     m_ToB = 0, m_MessageType = [], m_CreateAt = zero_time, m_UpdateAt = zero_time, m_DeleteAt = JNull\<rparr>"

definition enc_message :: "TMessage \<Rightarrow> json" where
  "enc_message m = JObj (opt_int ''id'' (m_ID m) @ [(''belong'', JNum (m_Belong m))]
     @ opt_str ''snowId'' (m_SnowID m) @ opt_str ''type'' (m_Type m) @ opt_str ''content'' (m_Content m)
     @ opt_int ''fromA'' (m_FromA m) @ opt_int ''toB'' (m_ToB m) @ opt_str ''messageType'' (m_MessageType m)
     @ [(''createAt'', enc_time (m_CreateAt m)), (''updateAt'', enc_time (m_UpdateAt m)),
        (''DeleteAt'', m_DeleteAt m)])"

definition dec_message :: "TMessage decoder" where
  "dec_message = dec_struct
     [fld ''id'' dec_int m_ID (\<lambda>v m. m\<lparr>m_ID := v\<rparr>),
      fld ''belong'' dec_int m_Belong (\<lambda>v m. m\<lparr>m_Belong := v\<rparr>),
      fld ''snowId'' dec_string m_SnowID (\<lambda>v m. m\<lparr>m_SnowID := v\<rparr>),
      fld ''type'' dec_string m_Type (\<lambda>v m. m\<lparr>m_Type := v\<rparr>),
      fld ''content'' dec_string m_Content (\<lambda>v m. m\<lparr>m_Content := v\<rparr>),
      fld ''fromA'' dec_int m_FromA (\<lambda>v m. m\<lparr>m_FromA := v\<rparr>),
      fld ''toB'' dec_int m_ToB (\<lambda>v m. m\<lparr>m_ToB := v\<rparr>),
      fld ''messageType'' dec_string m_MessageType (\<lambda>v m. m\<lparr>m_MessageType := v\<rparr>),
      fld ''createAt'' dec_time m_CreateAt (\<lambda>v m. m\<lparr>m_CreateAt := v\<rparr>),
      fld ''updateAt'' dec_time m_UpdateAt (\<lambda>v m. m\<lparr>m_UpdateAt := v\<rparr>),
      fld ''DeleteAt'' dec_json m_DeleteAt (\<lambda>v m. m\<lparr>m_DeleteAt := v\<rparr>)]"

record VGroupMessage =
  vg_ID :: int
  vg_Belong :: int
  vg_Userid :: int
  vg_GroupId :: int
  vg_Content :: string
  vg_MessageType :: string
  vg_GroupName :: string
  vg_FromUsername :: string
  vg_Avatar :: string
  vg_SnowId :: string
  vg_CreateAt :: Time

record VFriendMessage =
  vf_ID :: int
  vf_Belong :: int
  vf_Userid :: int
  vf_FriendId :: int
  vf_Content :: string
  vf_MessageType :: string
  vf_FriendName :: string
  vf_FromUsername :: string
  vf_Avatar :: string
  vf_SnowId :: string
  vf_CreateAt :: Time

section \<open>Payloads (common/param.go)\<close>

definition OpFriendMsgSend :: int where "OpFriendMsgSend = 0"
definition OpGroupMsgSend :: int where "OpGroupMsgSend = 1"
definition OpGroupOlineUserCountSend :: int where "OpGroupOlineUserCountSend = 3"
definition OpGroupInfoSend :: int where "OpGroupInfoSend = 4"
definition OpFriendOnlineSend :: int where "OpFriendOnlineSend = 5"
definition OPFriendOffOnlineSend :: int where "OPFriendOffOnlineSend = 6"

lemmas op_defs = OpFriendMsgSend_def OpGroupMsgSend_def OpGroupOlineUserCountSend_def
  OpGroupInfoSend_def OpFriendOnlineSend_def OPFriendOffOnlineSend_def

record GroupInfoMsg =
  gi_GroupId :: int
  gi_Count :: int
  gi_UserArr :: "TUser list option"
  gi_OnlineUserIds :: "int list"
  gi_Op :: int

record GroupCountMsg =
  gc_GroupId :: int
  gc_Count :: int
  gc_Op :: int

record FriendOnlineMsg =
  fo_FriendId :: int
  fo_FriendName :: string
  fo_Op :: int
  fo_Belong :: int

record FriendOfflineMsg =
  ff_FriendId :: int
  ff_Op :: int
  ff_Belong :: int

record GroupMsg =
  gm_Userid :: int
  gm_GroupId :: int
  gm_Content :: string
  gm_MessageType :: string
  gm_CreateAt :: string
  gm_GroupName :: string
  gm_FromUsername :: string
  gm_Avatar :: string
  gm_Op :: int
  gm_Watermark :: int

record FriendMsg =
  fm_Userid :: int
  fm_FriendId :: int
  fm_Content :: string
  fm_MessageType :: string
  fm_CreateAt :: string
  fm_FriendName :: string
  fm_FromUsername :: string
  fm_Avatar :: string
  fm_Op :: int
  fm_Belong :: int
  fm_Watermark :: int

definition enc_GroupInfoMsg :: "GroupInfoMsg \<Rightarrow> json" where
  "enc_GroupInfoMsg m = JObj
     [(''groupId'', JNum (gi_GroupId m)), (''count'', JNum (gi_Count m)),
      (''userArr'', case gi_UserArr m of None \<Rightarrow> JNull | Some us \<Rightarrow> JArr (map enc_user us)),
      (''onlineUserIds'', enc_nil_ints (gi_OnlineUserIds m)), (''op'', JNum (gi_Op m))]"

definition enc_GroupCountMsg :: "GroupCountMsg \<Rightarrow> json" where
  "enc_GroupCountMsg m = JObj
     [(''groupId'', JNum (gc_GroupId m)), (''count'', JNum (gc_Count m)), (''op'', JNum (gc_Op m))]"

definition enc_FriendOnlineMsg :: "FriendOnlineMsg \<Rightarrow> json" where
  "enc_FriendOnlineMsg m = JObj
     [(''friendId'', JNum (fo_FriendId m)), (''friendName'', JStr (fo_FriendName m)),
      (''op'', JNum (fo_Op m)), (''belong'', JNum (fo_Belong m))]"

definition enc_FriendOfflineMsg :: "FriendOfflineMsg \<Rightarrow> json" where
  "enc_FriendOfflineMsg m = JObj
     [(''friendId'', JNum (ff_FriendId m)), (''op'', JNum (ff_Op m)), (''belong'', JNum (ff_Belong m))]"

definition enc_GroupMsg :: "GroupMsg \<Rightarrow> json" where
  "enc_GroupMsg m = JObj
     [(''userid'', JNum (gm_Userid m)), (''groupId'', JNum (gm_GroupId m)),
      (''content'', JStr (gm_Content m)), (''messageType'', JStr (gm_MessageType m)),
      (''createAt'', JStr (gm_CreateAt m)), (''groupName'', JStr (gm_GroupName m)),
      (''fromUsername'', JStr (gm_FromUsername m)), (''avatar'', JStr (gm_Avatar m)),
      (''op'', JNum (gm_Op m)), (''watermark'', JNum (gm_Watermark m))]"

definition enc_FriendMsg :: "FriendMsg \<Rightarrow> json" where
  "enc_FriendMsg m = JObj
     [(''userid'', JNum (fm_Userid m)), (''friendId'', JNum (fm_FriendId m)),
      (''content'', JStr (fm_Content m)), (''messageType'', JStr (fm_MessageType m)),
      (''createAt'', JStr (fm_CreateAt m)), (''friendName'', JStr (fm_FriendName m)),
      (''fromUsername'', JStr (fm_FromUsername m)), (''avatar'', JStr (fm_Avatar m)),
      (''op'', JNum (fm_Op m)), (''belong'', JNum (fm_Belong m)), (''watermark'', JNum (fm_Watermark m))]"

text \<open>
  \<^verbatim>\<open>MsgSend\<close>: the payload behind an \<^verbatim>\<open>interface{}\<close> is kept as its JSON value when it is only
  encoded or decoded without a target. With a target the payload is decoded in place; the
  member \<^verbatim>\<open>"msg": null\<close> empties the interface, which is \<^term>\<open>None\<close>.
\<close>

record 'a MsgSend =
  ms_Op :: int
  ms_Msg :: 'a

definition enc_MsgSend :: "json MsgSend \<Rightarrow> json" where
  "enc_MsgSend m = JObj [(''op'', JNum (ms_Op m)), (''msg'', ms_Msg m)]"

definition dec_MsgSend :: "json MsgSend decoder" where
  "dec_MsgSend = dec_struct
     [fld ''op'' dec_int ms_Op (\<lambda>v m. m\<lparr>ms_Op := v\<rparr>), fld ''msg'' dec_json ms_Msg (\<lambda>v m. m\<lparr>ms_Msg := v\<rparr>)]"

fun dec_target :: "'a decoder \<Rightarrow> 'a option decoder" where
  "dec_target d JNull x = (None, True)"
| "dec_target d j (Some x) = (let (y, ok) = d j x in (Some y, ok))"
| "dec_target d j None = (None, True)"

definition dec_MsgSend_into :: "'a decoder \<Rightarrow> 'a option MsgSend decoder" where
  "dec_MsgSend_into d = dec_struct
     [fld ''op'' dec_int ms_Op (\<lambda>v m. m\<lparr>ms_Op := v\<rparr>),
      fld ''msg'' (dec_target d) ms_Msg (\<lambda>v m. m\<lparr>ms_Msg := v\<rparr>)]"

definition dec_ints :: "int list decoder" where
  "dec_ints = dec_slice dec_int 0"

fun dec_opt_slice :: "'a decoder \<Rightarrow> 'a \<Rightarrow> 'a list option decoder" where
  "dec_opt_slice d zero (JArr js) x = (let (ys, ok) = dec_slice d zero (JArr js) [] in (Some ys, ok))"
| "dec_opt_slice d zero JNull x = (None, True)"
| "dec_opt_slice d zero j x = (x, False)"

definition zero_GroupInfoMsg :: GroupInfoMsg where
  "zero_GroupInfoMsg = \<lparr>gi_GroupId = 0, gi_Count = 0, gi_UserArr = None, gi_OnlineUserIds = [], gi_Op = 0\<rparr>"

definition dec_GroupInfoMsg :: "GroupInfoMsg decoder" where
  "dec_GroupInfoMsg = dec_struct
     [fld ''groupId'' dec_int gi_GroupId (\<lambda>v m. m\<lparr>gi_GroupId := v\<rparr>),
      fld ''count'' dec_int gi_Count (\<lambda>v m. m\<lparr>gi_Count := v\<rparr>),
      fld ''userArr'' (dec_opt_slice dec_user zero_user) gi_UserArr (\<lambda>v m. m\<lparr>gi_UserArr := v\<rparr>),
      fld ''onlineUserIds'' dec_ints gi_OnlineUserIds (\<lambda>v m. m\<lparr>gi_OnlineUserIds := v\<rparr>),
      fld ''op'' dec_int gi_Op (\<lambda>v m. m\<lparr>gi_Op := v\<rparr>)]"

definition zero_GroupCountMsg :: GroupCountMsg where
  "zero_GroupCountMsg = \<lparr>gc_GroupId = 0, gc_Count = 0, gc_Op = 0\<rparr>"

definition dec_GroupCountMsg :: "GroupCountMsg decoder" where
  "dec_GroupCountMsg = dec_struct
     [fld ''groupId'' dec_int gc_GroupId (\<lambda>v m. m\<lparr>gc_GroupId := v\<rparr>),
      fld ''count'' dec_int gc_Count (\<lambda>v m. m\<lparr>gc_Count := v\<rparr>),
      fld ''op'' dec_int gc_Op (\<lambda>v m. m\<lparr>gc_Op := v\<rparr>)]"

definition zero_FriendOnlineMsg :: FriendOnlineMsg where
  "zero_FriendOnlineMsg = \<lparr>fo_FriendId = 0, fo_FriendName = [], fo_Op = 0, fo_Belong = 0\<rparr>"

definition dec_FriendOnlineMsg :: "FriendOnlineMsg decoder" where
  "dec_FriendOnlineMsg = dec_struct
     [fld ''friendId'' dec_int fo_FriendId (\<lambda>v m. m\<lparr>fo_FriendId := v\<rparr>),
      fld ''friendName'' dec_string fo_FriendName (\<lambda>v m. m\<lparr>fo_FriendName := v\<rparr>),
      fld ''op'' dec_int fo_Op (\<lambda>v m. m\<lparr>fo_Op := v\<rparr>),
      fld ''belong'' dec_int fo_Belong (\<lambda>v m. m\<lparr>fo_Belong := v\<rparr>)]"

definition zero_FriendOfflineMsg :: FriendOfflineMsg where
  "zero_FriendOfflineMsg = \<lparr>ff_FriendId = 0, ff_Op = 0, ff_Belong = 0\<rparr>"

definition dec_FriendOfflineMsg :: "FriendOfflineMsg decoder" where
  "dec_FriendOfflineMsg = dec_struct
     [fld ''friendId'' dec_int ff_FriendId (\<lambda>v m. m\<lparr>ff_FriendId := v\<rparr>),
      fld ''op'' dec_int ff_Op (\<lambda>v m. m\<lparr>ff_Op := v\<rparr>),
      fld ''belong'' dec_int ff_Belong (\<lambda>v m. m\<lparr>ff_Belong := v\<rparr>)]"

definition zero_GroupMsg :: GroupMsg where
  "zero_GroupMsg = \<lparr>gm_Userid = 0, gm_GroupId = 0, gm_Content = [], gm_MessageType = [], gm_CreateAt = [],
     gm_GroupName = [], gm_FromUsername = [], gm_Avatar = [], gm_Op = 0, gm_Watermark = 0\<rparr>"

definition dec_GroupMsg :: "GroupMsg decoder" where
  "dec_GroupMsg = dec_struct
     [fld ''userid'' dec_int gm_Userid (\<lambda>v m. m\<lparr>gm_Userid := v\<rparr>),
      fld ''groupId'' dec_int gm_GroupId (\<lambda>v m. m\<lparr>gm_GroupId := v\<rparr>),
      fld ''content'' dec_string gm_Content (\<lambda>v m. m\<lparr>gm_Content := v\<rparr>),
      fld ''messageType'' dec_string gm_MessageType (\<lambda>v m. m\<lparr>gm_MessageType := v\<rparr>),
      fld ''createAt'' dec_string gm_CreateAt (\<lambda>v m. m\<lparr>gm_CreateAt := v\<rparr>),
      fld ''groupName'' dec_string gm_GroupName (\<lambda>v m. m\<lparr>gm_GroupName := v\<rparr>),
      fld ''fromUsername'' dec_string gm_FromUsername (\<lambda>v m. m\<lparr>gm_FromUsername := v\<rparr>),
      fld ''avatar'' dec_string gm_Avatar (\<lambda>v m. m\<lparr>gm_Avatar := v\<rparr>),
      fld ''op'' dec_int gm_Op (\<lambda>v m. m\<lparr>gm_Op := v\<rparr>),
      fld ''watermark'' dec_int gm_Watermark (\<lambda>v m. m\<lparr>gm_Watermark := v\<rparr>)]"

section \<open>Kafka messages (common/kafka.go) and the requests of the connect layer\<close>

text \<open>\<^verbatim>\<open>kafka.Message\<close> of the client library: the fields the server sets and reads.\<close>

record KafkaMessage =
  km_Topic :: string
  km_Partition :: int
  km_Offset :: int
  km_HighWaterMark :: int
  km_Key :: string
  km_Value :: string
  km_Headers :: "(string \<times> string) list"
  km_Time :: Time

definition plain_msg :: "string \<Rightarrow> int \<Rightarrow> string \<Rightarrow> KafkaMessage" where
  "plain_msg topic offset value = \<lparr>km_Topic = topic, km_Partition = 0, km_Offset = offset, km_HighWaterMark = 0,
     km_Key = [], km_Value = value, km_Headers = [], km_Time = zero_time\<rparr>"

record KafkaMsgInfo =
  ki_Topic :: string
  ki_Partition :: int
  ki_Offset :: int

definition zero_KafkaMsgInfo :: KafkaMsgInfo where
  "zero_KafkaMsgInfo = \<lparr>ki_Topic = [], ki_Partition = 0, ki_Offset = 0\<rparr>"

definition enc_KafkaMsgInfo :: "KafkaMsgInfo \<Rightarrow> json" where
  "enc_KafkaMsgInfo k = JObj
     [(''topic'', JStr (ki_Topic k)), (''partition'', JNum (ki_Partition k)), (''offset'', JNum (ki_Offset k))]"

definition dec_KafkaMsgInfo :: "KafkaMsgInfo decoder" where
  "dec_KafkaMsgInfo = dec_struct
     [fld ''topic'' dec_string ki_Topic (\<lambda>v k. k\<lparr>ki_Topic := v\<rparr>),
      fld ''partition'' dec_int ki_Partition (\<lambda>v k. k\<lparr>ki_Partition := v\<rparr>),
      fld ''offset'' dec_int ki_Offset (\<lambda>v k. k\<lparr>ki_Offset := v\<rparr>)]"

record User =
  pu_Id :: int
  pu_Username :: string
  pu_Avatar :: string
  pu_Role :: int
  pu_Status :: int
  pu_Tag :: string
  pu_CreateAt :: string
  pu_UpdateAt :: string

definition enc_proto_User :: "User \<Rightarrow> json" where
  "enc_proto_User u = JObj
     [(''id'', JNum (pu_Id u)), (''username'', JStr (pu_Username u)), (''avatar'', JStr (pu_Avatar u)),
      (''role'', JNum (pu_Role u)), (''status'', JNum (pu_Status u)), (''tag'', JStr (pu_Tag u)),
      (''createAt'', JStr (pu_CreateAt u)), (''updateAt'', JStr (pu_UpdateAt u))]"

record PushGroupInfoMsgReq_Msg =
  pgi_GroupId :: int
  pgi_Count :: int
  pgi_UserArr :: "User list"
  pgi_Op :: int
  pgi_OnlineUserIds :: "int list"

definition enc_PushGroupInfoMsgReq_Msg :: "PushGroupInfoMsgReq_Msg \<Rightarrow> json" where
  "enc_PushGroupInfoMsgReq_Msg m = JObj
     (opt_int ''groupId'' (pgi_GroupId m) @ [(''count'', JNum (pgi_Count m))]
      @ (if pgi_UserArr m = [] then [] else [(''userArr'', JArr (map enc_proto_User (pgi_UserArr m)))])
      @ opt_int ''op'' (pgi_Op m) @ [(''onlineUserIds'', enc_nil_ints (pgi_OnlineUserIds m))])"

record PushGroupCountMsgReq_Msg =
  pgc_GroupId :: int
  pgc_Count :: int
  pgc_Op :: int

definition enc_PushGroupCountMsgReq_Msg :: "PushGroupCountMsgReq_Msg \<Rightarrow> json" where
  "enc_PushGroupCountMsgReq_Msg m = JObj
     (opt_int ''groupId'' (pgc_GroupId m) @ [(''count'', JNum (pgc_Count m))] @ opt_int ''op'' (pgc_Op m))"

record PushFriendOnlineMsgReq_Msg =
  pfo_FriendId :: int
  pfo_FriendName :: string
  pfo_Op :: int
  pfo_Belong :: int

definition enc_PushFriendOnlineMsgReq_Msg :: "PushFriendOnlineMsgReq_Msg \<Rightarrow> json" where
  "enc_PushFriendOnlineMsgReq_Msg m = JObj
     (opt_int ''friendId'' (pfo_FriendId m) @ opt_str ''friendName'' (pfo_FriendName m)
      @ opt_int ''op'' (pfo_Op m) @ opt_int ''belong'' (pfo_Belong m))"

record PushFriendOfflineMsgReq_Msg =
  pff_FriendId :: int
  pff_Op :: int
  pff_Belong :: int

definition enc_PushFriendOfflineMsgReq_Msg :: "PushFriendOfflineMsgReq_Msg \<Rightarrow> json" where
  "enc_PushFriendOfflineMsgReq_Msg m = JObj
     (opt_int ''friendId'' (pff_FriendId m) @ opt_int ''op'' (pff_Op m) @ opt_int ''belong'' (pff_Belong m))"

record PushGroupMsgReq_Msg =
  pgm_Userid :: int
  pgm_GroupId :: int
  pgm_Content :: string
  pgm_MessageType :: string
  pgm_GroupName :: string
  pgm_FromUsername :: string
  pgm_CreateAt :: string
  pgm_Op :: int
  pgm_SnowId :: string
  pgm_Avatar :: string
  pgm_Belong :: int
  pgm_Watermark :: int

definition zero_PushGroupMsgReq_Msg :: PushGroupMsgReq_Msg where
  "zero_PushGroupMsgReq_Msg = \<lparr>pgm_Userid = 0, pgm_GroupId = 0, pgm_Content = [], pgm_MessageType = [],
     pgm_GroupName = [], pgm_FromUsername = [], pgm_CreateAt = [], pgm_Op = 0, pgm_SnowId = [],
     pgm_Avatar = [], pgm_Belong = 0, pgm_Watermark = 0\<rparr>"

definition enc_PushGroupMsgReq_Msg :: "PushGroupMsgReq_Msg \<Rightarrow> json" where
  "enc_PushGroupMsgReq_Msg m = JObj
     (opt_int ''userid'' (pgm_Userid m) @ opt_int ''groupId'' (pgm_GroupId m)
      @ opt_str ''content'' (pgm_Content m) @ opt_str ''messageType'' (pgm_MessageType m)
      @ opt_str ''groupName'' (pgm_GroupName m) @ opt_str ''fromUsername'' (pgm_FromUsername m)
      @ opt_str ''createAt'' (pgm_CreateAt m) @ opt_int ''op'' (pgm_Op m)
      @ opt_str ''snowId'' (pgm_SnowId m) @ opt_str ''avatar'' (pgm_Avatar m)
      @ opt_int ''belong'' (pgm_Belong m) @ opt_int ''watermark'' (pgm_Watermark m))"

definition dec_PushGroupMsgReq_Msg :: "PushGroupMsgReq_Msg decoder" where
  "dec_PushGroupMsgReq_Msg = dec_struct
     [fld ''userid'' dec_int pgm_Userid (\<lambda>v m. m\<lparr>pgm_Userid := v\<rparr>),
      fld ''groupId'' dec_int pgm_GroupId (\<lambda>v m. m\<lparr>pgm_GroupId := v\<rparr>),
      fld ''content'' dec_string pgm_Content (\<lambda>v m. m\<lparr>pgm_Content := v\<rparr>),
      fld ''messageType'' dec_string pgm_MessageType (\<lambda>v m. m\<lparr>pgm_MessageType := v\<rparr>),
      fld ''groupName'' dec_string pgm_GroupName (\<lambda>v m. m\<lparr>pgm_GroupName := v\<rparr>),
      fld ''fromUsername'' dec_string pgm_FromUsername (\<lambda>v m. m\<lparr>pgm_FromUsername := v\<rparr>),
      fld ''createAt'' dec_string pgm_CreateAt (\<lambda>v m. m\<lparr>pgm_CreateAt := v\<rparr>),
      fld ''op'' dec_int32 pgm_Op (\<lambda>v m. m\<lparr>pgm_Op := v\<rparr>),
      fld ''snowId'' dec_string pgm_SnowId (\<lambda>v m. m\<lparr>pgm_SnowId := v\<rparr>),
      fld ''avatar'' dec_string pgm_Avatar (\<lambda>v m. m\<lparr>pgm_Avatar := v\<rparr>),
      fld ''belong'' dec_int pgm_Belong (\<lambda>v m. m\<lparr>pgm_Belong := v\<rparr>),
      fld ''watermark'' dec_int pgm_Watermark (\<lambda>v m. m\<lparr>pgm_Watermark := v\<rparr>)]"

record PushFriendMsgReq_Msg =
  pfm_Userid :: int
  pfm_FriendId :: int
  pfm_Content :: string
  pfm_MessageType :: string
  pfm_FriendName :: string
  pfm_FromUsername :: string
  pfm_CreateAt :: string
  pfm_Op :: int
  pfm_SnowId :: string
  pfm_Avatar :: string
  pfm_Belong :: int
  pfm_Watermark :: int

definition zero_PushFriendMsgReq_Msg :: PushFriendMsgReq_Msg where
  "zero_PushFriendMsgReq_Msg = \<lparr>pfm_Userid = 0, pfm_FriendId = 0, pfm_Content = [], pfm_MessageType = [],
     pfm_FriendName = [], pfm_FromUsername = [], pfm_CreateAt = [], pfm_Op = 0, pfm_SnowId = [],
     pfm_Avatar = [], pfm_Belong = 0, pfm_Watermark = 0\<rparr>"

definition enc_PushFriendMsgReq_Msg :: "PushFriendMsgReq_Msg \<Rightarrow> json" where
  "enc_PushFriendMsgReq_Msg m = JObj
     (opt_int ''userid'' (pfm_Userid m) @ opt_int ''friendId'' (pfm_FriendId m)
      @ opt_str ''content'' (pfm_Content m) @ opt_str ''messageType'' (pfm_MessageType m)
      @ opt_str ''friendName'' (pfm_FriendName m) @ opt_str ''fromUsername'' (pfm_FromUsername m)
      @ opt_str ''createAt'' (pfm_CreateAt m) @ opt_int ''op'' (pfm_Op m)
      @ opt_str ''snowId'' (pfm_SnowId m) @ opt_str ''avatar'' (pfm_Avatar m)
      @ opt_int ''belong'' (pfm_Belong m) @ opt_int ''watermark'' (pfm_Watermark m))"

definition dec_PushFriendMsgReq_Msg :: "PushFriendMsgReq_Msg decoder" where
  "dec_PushFriendMsgReq_Msg = dec_struct
     [fld ''userid'' dec_int pfm_Userid (\<lambda>v m. m\<lparr>pfm_Userid := v\<rparr>),
      fld ''friendId'' dec_int pfm_FriendId (\<lambda>v m. m\<lparr>pfm_FriendId := v\<rparr>),
      fld ''content'' dec_string pfm_Content (\<lambda>v m. m\<lparr>pfm_Content := v\<rparr>),
      fld ''messageType'' dec_string pfm_MessageType (\<lambda>v m. m\<lparr>pfm_MessageType := v\<rparr>),
      fld ''friendName'' dec_string pfm_FriendName (\<lambda>v m. m\<lparr>pfm_FriendName := v\<rparr>),
      fld ''fromUsername'' dec_string pfm_FromUsername (\<lambda>v m. m\<lparr>pfm_FromUsername := v\<rparr>),
      fld ''createAt'' dec_string pfm_CreateAt (\<lambda>v m. m\<lparr>pfm_CreateAt := v\<rparr>),
      fld ''op'' dec_int32 pfm_Op (\<lambda>v m. m\<lparr>pfm_Op := v\<rparr>),
      fld ''snowId'' dec_string pfm_SnowId (\<lambda>v m. m\<lparr>pfm_SnowId := v\<rparr>),
      fld ''avatar'' dec_string pfm_Avatar (\<lambda>v m. m\<lparr>pfm_Avatar := v\<rparr>),
      fld ''belong'' dec_int pfm_Belong (\<lambda>v m. m\<lparr>pfm_Belong := v\<rparr>),
      fld ''watermark'' dec_int pfm_Watermark (\<lambda>v m. m\<lparr>pfm_Watermark := v\<rparr>)]"

section \<open>Decoding what was encoded\<close>

text \<open>Member names are compared letter by letter; the collection evaluates decoders on literal names.\<close>

lemmas decode_defs = dec_user_def dec_message_def dec_MsgSend_def dec_MsgSend_into_def dec_GroupInfoMsg_def
  dec_GroupCountMsg_def dec_FriendOnlineMsg_def dec_FriendOfflineMsg_def dec_GroupMsg_def
  dec_KafkaMsgInfo_def dec_PushGroupMsgReq_Msg_def dec_PushFriendMsgReq_Msg_def fld_def

lemma equalFold_eval: "equalFold s t \<longleftrightarrow> map lower s = map lower t"
  by (rule equalFold_def)

lemma set_fields_append:
  "set_fields fs (xs @ ys) x = (let (y, ok) = set_fields fs xs x; (z, ok') = set_fields fs ys y in (z, ok \<and> ok'))"
  by (induction fs xs x rule: set_fields.induct) (auto split: prod.splits simp: Let_def)

lemma set_fields_opt_int:
  "set_fields fs (opt_int k i) x = (if i = 0 then (x, True) else set_field fs k (JNum i) x)"
  by (simp add: opt_int_def split: prod.splits)

lemma set_fields_opt_str:
  "set_fields fs (opt_str k s) x = (if s = [] then (x, True) else set_field fs k (JStr s) x)"
  by (simp add: opt_str_def split: prod.splits)

lemmas decode_simps = decode_defs equalFold_eval lower_def set_fields_append set_fields_opt_int set_fields_opt_str

lemma integral_JObj: "integral (JObj kvs) = list_all (\<lambda>kv. integral (snd kv)) kvs"
  by (simp add: list.pred_map comp_def)

lemma integral_opt [simp]:
  "list_all (\<lambda>kv. integral (snd kv)) (opt_int k i)" "list_all (\<lambda>kv. integral (snd kv)) (opt_str k s)"
  by (simp_all add: opt_int_def opt_str_def)

lemma KafkaMsgInfo_roundtrip:
  "int64_range (ki_Partition k) \<Longrightarrow> int64_range (ki_Offset k) \<Longrightarrow>
   Unmarshal dec_KafkaMsgInfo (json_print (enc_KafkaMsgInfo k)) x = (k, True)"
  by (simp add: enc_KafkaMsgInfo_def decode_simps)
text \<open>What one field holds after a struct was decoded depends on the members with its name only.\<close>

definition read_field :: "string \<Rightarrow> 'b decoder \<Rightarrow> (string \<times> json) list \<Rightarrow> 'b \<Rightarrow> 'b" where
  "read_field k d kvs v = fold (\<lambda>(k', j) v. if equalFold k k' then fst (d j v) else v) kvs v"

definition field_of :: "('a \<Rightarrow> 'b) \<Rightarrow> string \<Rightarrow> 'b decoder \<Rightarrow> (string \<times> 'a decoder) list \<Rightarrow> bool" where
  "field_of get k d fs \<longleftrightarrow> list_ex (\<lambda>(f, e). equalFold f k) fs \<and>
     list_all (\<lambda>(f, e). \<forall>j x. get (fst (e j x)) = (if equalFold f k then fst (d j (get x)) else get x)) fs"

lemma set_field_get:
  "list_all (\<lambda>(f, e). \<forall>j x. get (fst (e j x)) = (if equalFold f k then fst (d j (get x)) else get x)) fs \<Longrightarrow>
   get (fst (set_field fs k' j x)) =
     (if equalFold k k' \<and> list_ex (\<lambda>(f, e). equalFold f k) fs then fst (d j (get x)) else get x)"
  by (induction fs k' j x rule: set_field.induct) (auto simp: equalFold_def)

lemma set_fields_get:
  "field_of get k d fs \<Longrightarrow> get (fst (set_fields fs kvs x)) = read_field k d kvs (get x)"
proof (induction fs kvs x rule: set_fields.induct)
  case (2 fs k' j kvs x)
  obtain y ok where y: "set_field fs k' j x = (y, ok)"
    by (cases "set_field fs k' j x")
  have "get y = (if equalFold k k' then fst (d j (get x)) else get x)"
    using set_field_get [of get k d fs k' j x] 2(2) y by (simp add: field_of_def)
  then show ?case
    using 2(1) [OF y [symmetric] refl 2(2)] y
    by (cases "set_fields fs kvs y") (simp add: read_field_def)
qed (simp add: read_field_def)

lemma dec_struct_get:
  "field_of get k d fs \<Longrightarrow> get (fst (dec_struct fs (JObj kvs) x)) = read_field k d kvs (get x)"
  by (simp add: set_fields_get)

lemma read_field_simps [simp]:
  "read_field k d [] v = v"
  "read_field k d ((k', j) # kvs) v = read_field k d kvs (if equalFold k k' then fst (d j v) else v)"
  "read_field k d (xs @ ys) v = read_field k d ys (read_field k d xs v)"
  "read_field k d (opt_int k' i) v = (if equalFold k k' \<and> i \<noteq> 0 then fst (d (JNum i) v) else v)"
  "read_field k d (opt_str k' s) v = (if equalFold k k' \<and> s \<noteq> [] then fst (d (JStr s) v) else v)"
  by (simp_all add: read_field_def opt_int_def opt_str_def)

lemma fst_fld [simp]: "fst (case p of (v, ok) \<Rightarrow> (f v, ok)) = f (fst p)"
  by (simp split: prod.splits)

lemmas field_eval = field_of_def fld_def equalFold_eval lower_def

text \<open>The operation and the group of what the connect layer receives.\<close>

lemma integral_group_msg [simp]:
  "integral (enc_PushGroupMsgReq_Msg m)" "integral (enc_PushFriendMsgReq_Msg f)"
  "integral (enc_PushGroupCountMsgReq_Msg c)"
  by (simp_all add: enc_PushGroupMsgReq_Msg_def enc_PushFriendMsgReq_Msg_def enc_PushGroupCountMsgReq_Msg_def
      integral_JObj del: integral.simps(7))

lemma integral_ints [simp]: "integral (enc_ints xs)" "integral (enc_nil_ints xs)"
  by (simp_all add: enc_ints_def enc_nil_ints_def list.pred_map comp_def list.pred_True)

lemma integral_group_info [simp]: "integral (enc_PushGroupInfoMsgReq_Msg m)"
  by (simp add: enc_PushGroupInfoMsgReq_Msg_def enc_proto_User_def integral_JObj list.pred_map comp_def list.pred_True
      del: integral.simps(7))

lemma dec_MsgSend_op:
  "ms_Op (fst (dec_MsgSend (JObj kvs) x)) = read_field ''op'' dec_int kvs (ms_Op x)"
  unfolding dec_MsgSend_def by (rule dec_struct_get) (simp add: field_eval)

lemma dec_GroupMsg_gid:
  "gm_GroupId (fst (dec_GroupMsg (JObj kvs) x)) = read_field ''groupId'' dec_int kvs (gm_GroupId x)"
  unfolding dec_GroupMsg_def by (rule dec_struct_get) (simp add: field_eval)

lemma dec_GroupCountMsg_gid:
  "gc_GroupId (fst (dec_GroupCountMsg (JObj kvs) x)) = read_field ''groupId'' dec_int kvs (gc_GroupId x)"
  unfolding dec_GroupCountMsg_def by (rule dec_struct_get) (simp add: field_eval)

lemma dec_GroupInfoMsg_gid:
  "gi_GroupId (fst (dec_GroupInfoMsg (JObj kvs) x)) = read_field ''groupId'' dec_int kvs (gi_GroupId x)"
  unfolding dec_GroupInfoMsg_def by (rule dec_struct_get) (simp add: field_eval)

lemma group_msg_op:
  "int64_range (pgm_Op m) \<Longrightarrow> ms_Op x = 0 \<Longrightarrow>
   ms_Op (fst (Unmarshal dec_MsgSend (json_print (enc_PushGroupMsgReq_Msg m)) x)) = pgm_Op m"
  unfolding Unmarshal_print [OF integral_group_msg(1)]
  unfolding enc_PushGroupMsgReq_Msg_def dec_MsgSend_op by (simp add: equalFold_eval lower_def)

lemma friend_msg_op:
  "int64_range (pfm_Op m) \<Longrightarrow> ms_Op x = 0 \<Longrightarrow>
   ms_Op (fst (Unmarshal dec_MsgSend (json_print (enc_PushFriendMsgReq_Msg m)) x)) = pfm_Op m"
  unfolding Unmarshal_print [OF integral_group_msg(2)]
  unfolding enc_PushFriendMsgReq_Msg_def dec_MsgSend_op by (simp add: equalFold_eval lower_def)

lemma group_count_op:
  "int64_range (pgc_Op m) \<Longrightarrow> ms_Op x = 0 \<Longrightarrow>
   ms_Op (fst (Unmarshal dec_MsgSend (json_print (enc_PushGroupCountMsgReq_Msg m)) x)) = pgc_Op m"
  unfolding Unmarshal_print [OF integral_group_msg(3)]
  unfolding enc_PushGroupCountMsgReq_Msg_def dec_MsgSend_op by (simp add: equalFold_eval lower_def)

lemma group_info_op:
  "int64_range (pgi_Op m) \<Longrightarrow> ms_Op x = 0 \<Longrightarrow>
   ms_Op (fst (Unmarshal dec_MsgSend (json_print (enc_PushGroupInfoMsgReq_Msg m)) x)) = pgi_Op m"
  unfolding Unmarshal_print [OF integral_group_info]
  unfolding enc_PushGroupInfoMsgReq_Msg_def dec_MsgSend_op by (simp add: equalFold_eval lower_def)

lemma group_msg_gid:
  "int64_range (pgm_GroupId m) \<Longrightarrow> gm_GroupId x = 0 \<Longrightarrow>
   gm_GroupId (fst (Unmarshal dec_GroupMsg (json_print (enc_PushGroupMsgReq_Msg m)) x)) = pgm_GroupId m"
  unfolding Unmarshal_print [OF integral_group_msg(1)]
  unfolding enc_PushGroupMsgReq_Msg_def dec_GroupMsg_gid by (simp add: equalFold_eval lower_def)

lemma group_count_gid:
  "int64_range (pgc_GroupId m) \<Longrightarrow> gc_GroupId x = 0 \<Longrightarrow>
   gc_GroupId (fst (Unmarshal dec_GroupCountMsg (json_print (enc_PushGroupCountMsgReq_Msg m)) x)) = pgc_GroupId m"
  unfolding Unmarshal_print [OF integral_group_msg(3)]
  unfolding enc_PushGroupCountMsgReq_Msg_def dec_GroupCountMsg_gid by (simp add: equalFold_eval lower_def)

lemma group_info_gid:
  "int64_range (pgi_GroupId m) \<Longrightarrow> gi_GroupId x = 0 \<Longrightarrow>
   gi_GroupId (fst (Unmarshal dec_GroupInfoMsg (json_print (enc_PushGroupInfoMsgReq_Msg m)) x)) = pgi_GroupId m"
  unfolding Unmarshal_print [OF integral_group_info]
  unfolding enc_PushGroupInfoMsgReq_Msg_def dec_GroupInfoMsg_gid by (simp add: equalFold_eval lower_def)

end
