(* ===== verification/GroupNode.thy ===== *)
theory GroupNode
  imports Messages
begin

text \<open>
  The connections of the connect layer (\<^verbatim>\<open>connect/socket.go\<close>) and the doubly linked list of the
  connections of an online group (\<^verbatim>\<open>connect/group_node.go\<close>). Connections and group nodes live in
  a heap and are shared by reference: one \<^verbatim>\<open>Channel\<close> can be reached from several groups.
\<close>

section \<open>Connections and group nodes in the heap\<close>

type_synonym cref = nat
type_synonym gref = nat

record Channel =
  ch_BroadcastMsg :: "KafkaMessage list"
  ch_BroadcastStatus :: "string list"
  ch_size :: nat \<comment> \<open>the capacity of both buffered Go channels\<close>
  ch_Userid :: int
  ch_Next :: "cref option"
  ch_Prev :: "cref option"
  ch_GroupNodes :: "gref list"

record GroupNode =
  gn_groupId :: int
  gn_OnlineCount :: int
  gn_drop :: bool
  gn_socketHead :: "cref option"

record heap =
  h_ch :: "cref \<Rightarrow> Channel"
  h_gn :: "gref \<Rightarrow> GroupNode"
  h_nch :: nat
  h_ngn :: nat

definition upd_ch :: "cref \<Rightarrow> (Channel \<Rightarrow> Channel) \<Rightarrow> heap \<Rightarrow> heap" where
  "upd_ch c f h = h\<lparr>h_ch := (h_ch h)(c := f (h_ch h c))\<rparr>"

definition upd_gn :: "gref \<Rightarrow> (GroupNode \<Rightarrow> GroupNode) \<Rightarrow> heap \<Rightarrow> heap" where
  "upd_gn g f h = h\<lparr>h_gn := (h_gn h)(g := f (h_gn h g))\<rparr>"

text \<open>\<^verbatim>\<open>make(chan T, size)\<close> panics for a negative size.\<close>

definition NewChannel :: "int \<Rightarrow> heap \<Rightarrow> (cref \<times> heap) option" where
  "NewChannel sz h =
     (if sz < 0 then None
      else Some (h_nch h,
        h\<lparr>h_ch := (h_ch h)(h_nch h := \<lparr>ch_BroadcastMsg = [], ch_BroadcastStatus = [], ch_size = nat sz,
             ch_Userid = 0, ch_Next = None, ch_Prev = None, ch_GroupNodes = []\<rparr>),
          h_nch := Suc (h_nch h)\<rparr>))"

text \<open>\<^verbatim>\<open>Push\<close> and \<^verbatim>\<open>PushStatus\<close> send without blocking: a full buffer drops the message.\<close>

definition offer :: "nat \<Rightarrow> 'a \<Rightarrow> 'a list \<Rightarrow> 'a list" where
  "offer n x q = (if length q < n then q @ [x] else q)"

definition Push :: "cref \<Rightarrow> KafkaMessage \<Rightarrow> heap \<Rightarrow> heap" where
  "Push c msg = upd_ch c (\<lambda>ch. ch\<lparr>ch_BroadcastMsg := offer (ch_size ch) msg (ch_BroadcastMsg ch)\<rparr>)"

definition PushStatus :: "cref \<Rightarrow> string \<Rightarrow> heap \<Rightarrow> heap" where
  "PushStatus c msg = upd_ch c (\<lambda>ch. ch\<lparr>ch_BroadcastStatus := offer (ch_size ch) msg (ch_BroadcastStatus ch)\<rparr>)"

definition NewGroupNode :: "int \<Rightarrow> heap \<Rightarrow> gref \<times> heap" where
  "NewGroupNode groupId h =
     (h_ngn h,
      h\<lparr>h_gn := (h_gn h)(h_ngn h := \<lparr>gn_groupId = groupId, gn_OnlineCount = 0, gn_drop = False, gn_socketHead = None\<rparr>),
        h_ngn := Suc (h_ngn h)\<rparr>)"

section \<open>GroupNode.Put, DeleteChannel and the push loops\<close>

definition Put :: "gref \<Rightarrow> cref \<Rightarrow> heap \<Rightarrow> heap" where
  "Put g c h =
     (let h = (case gn_socketHead (h_gn h g) of
                 Some old \<Rightarrow> upd_ch old (\<lambda>ch. ch\<lparr>ch_Prev := Some c\<rparr>) h
               | None \<Rightarrow> h);
          h = upd_ch c (\<lambda>ch. ch\<lparr>ch_Next := gn_socketHead (h_gn h g)\<rparr>) h;
          h = upd_ch c (\<lambda>ch. ch\<lparr>ch_Prev := None\<rparr>) h;
          h = upd_gn g (\<lambda>n. n\<lparr>gn_socketHead := Some c\<rparr>) h;
          h = upd_gn g (\<lambda>n. n\<lparr>gn_OnlineCount := gn_OnlineCount n + 1\<rparr>) h
      in upd_gn g (\<lambda>n. n\<lparr>gn_drop := False\<rparr>) h)"

definition DeleteChannel :: "gref \<Rightarrow> cref \<Rightarrow> heap \<Rightarrow> bool \<times> heap" where
  "DeleteChannel g c h =
     (let h = (case ch_Next (h_ch h c) of
                 Some nx \<Rightarrow> upd_ch nx (\<lambda>ch. ch\<lparr>ch_Prev := ch_Prev (h_ch h c)\<rparr>) h
               | None \<Rightarrow> h);
          h = (case ch_Prev (h_ch h c) of
                 Some pv \<Rightarrow> upd_ch pv (\<lambda>ch. ch\<lparr>ch_Next := ch_Next (h_ch h c)\<rparr>) h
               | None \<Rightarrow> upd_gn g (\<lambda>n. n\<lparr>gn_socketHead := ch_Next (h_ch h c)\<rparr>) h);
          h = upd_gn g (\<lambda>n. n\<lparr>gn_OnlineCount := gn_OnlineCount n - 1\<rparr>) h;
          h = upd_gn g (\<lambda>n. n\<lparr>gn_drop := False\<rparr>) h;
          h = (if gn_OnlineCount (h_gn h g) \<le> 0 then upd_gn g (\<lambda>n. n\<lparr>gn_drop := True\<rparr>) h else h)
      in (gn_drop (h_gn h g), h))"

text \<open>
  The loop over the list follows \<^verbatim>\<open>Next\<close> until it meets nil. The list can be cyclic, so the loop
  is a partial function: \<^term>\<open>None\<close> means that it never returns.
\<close>

partial_function (option) push_loop :: "(cref \<Rightarrow> heap \<Rightarrow> heap) \<Rightarrow> cref option \<Rightarrow> heap \<Rightarrow> heap option" where
  "push_loop send p h =
     (case p of
        None \<Rightarrow> Some h
      | Some c \<Rightarrow> push_loop send (ch_Next (h_ch (send c h) c)) (send c h))"

definition PushGroupMsg :: "gref \<Rightarrow> KafkaMessage \<Rightarrow> heap \<Rightarrow> heap option" where
  "PushGroupMsg g msg h = push_loop (\<lambda>c. Push c msg) (gn_socketHead (h_gn h g)) h"

definition PushGroupStatusMsg :: "gref \<Rightarrow> string \<Rightarrow> heap \<Rightarrow> heap option" where
  "PushGroupStatusMsg g msg h = push_loop (\<lambda>c. PushStatus c msg) (gn_socketHead (h_gn h g)) h"

section \<open>The list of a group\<close>

fun dll :: "heap \<Rightarrow> cref option \<Rightarrow> cref option \<Rightarrow> cref list \<Rightarrow> bool" where
  "dll h pv p [] \<longleftrightarrow> p = None"
| "dll h pv p (c # cs) \<longleftrightarrow> p = Some c \<and> ch_Prev (h_ch h c) = pv \<and> dll h (Some c) (ch_Next (h_ch h c)) cs"

definition group_ok :: "gref \<Rightarrow> heap \<Rightarrow> cref list \<Rightarrow> bool" where
  "group_ok g h cs \<longleftrightarrow> dll h None (gn_socketHead (h_gn h g)) cs \<and> distinct cs
     \<and> gn_OnlineCount (h_gn h g) = int (length cs)"

lemma upd_ch_simps [simp]:
  "h_ch (upd_ch c f h) = (h_ch h)(c := f (h_ch h c))" "h_gn (upd_ch c f h) = h_gn h"
  "h_nch (upd_ch c f h) = h_nch h" "h_ngn (upd_ch c f h) = h_ngn h"
  by (simp_all add: upd_ch_def)

lemma upd_gn_simps [simp]:
  "h_gn (upd_gn g k h) = (h_gn h)(g := k (h_gn h g))" "h_ch (upd_gn g k h) = h_ch h"
  "h_nch (upd_gn g k h) = h_nch h" "h_ngn (upd_gn g k h) = h_ngn h"
  by (simp_all add: upd_gn_def)

text \<open>The predicate only looks at the links of the members.\<close>

lemma dll_cong:
  "(\<And>c. c \<in> set cs \<Longrightarrow> ch_Prev (h_ch h' c) = ch_Prev (h_ch h c) \<and> ch_Next (h_ch h' c) = ch_Next (h_ch h c)) \<Longrightarrow>
   dll h' pv p cs = dll h pv p cs"
  by (induction cs arbitrary: pv p) auto



lemma dll_entry: "dll h pv p cs \<Longrightarrow> p = (if cs = [] then None else Some (hd cs))"
  by (cases cs) auto

lemma dll_links:
  "dll h pv p (xs @ c # ys) \<Longrightarrow>
   ch_Prev (h_ch h c) = (if xs = [] then pv else Some (last xs)) \<and>
   ch_Next (h_ch h c) = (if ys = [] then None else Some (hd ys))"
  by (induction xs arbitrary: pv p) (auto dest: dll_entry split: if_splits)

text \<open>Bridging over a member gives the list without it.\<close>

lemma dll_bridge:
  assumes "dll h pv p (xs @ c # ys)" and "distinct (xs @ c # ys)"
    and "\<And>d. d \<in> set (xs @ ys) \<Longrightarrow>
           ch_Prev (h_ch h' d) = (if ys \<noteq> [] \<and> d = hd ys then ch_Prev (h_ch h c) else ch_Prev (h_ch h d))"
    and "\<And>d. d \<in> set (xs @ ys) \<Longrightarrow>
           ch_Next (h_ch h' d) = (if xs \<noteq> [] \<and> d = last xs then ch_Next (h_ch h c) else ch_Next (h_ch h d))"
  shows "dll h' pv (if xs = [] then ch_Next (h_ch h c) else p) (xs @ ys)"
  using assms
proof (induction xs arbitrary: pv p)
  case Nil
  show ?case
  proof (cases ys)
    case (Cons y zs)
    then have "dll h' (Some y) (ch_Next (h_ch h y)) zs = dll h (Some y) (ch_Next (h_ch h y)) zs"
      using Nil by (intro dll_cong) auto
    then show ?thesis
      using Nil Cons by simp
  qed (use Nil in simp)
next
  case (Cons x xs)
  have "dll h' (Some x) (if xs = [] then ch_Next (h_ch h c) else ch_Next (h_ch h x)) (xs @ ys)"
    using Cons.prems by (intro Cons.IH) (auto split: if_splits)
  moreover have "ch_Prev (h_ch h' x) = pv" "ch_Next (h_ch h' x) = (if xs = [] then ch_Next (h_ch h c) else ch_Next (h_ch h x))"
    using Cons.prems by (auto simp: Cons.prems(3) Cons.prems(4))
  ultimately show ?case
    using Cons.prems(1) by (simp split: if_splits)
qed

lemma Put_group_ok:
  assumes "group_ok g h cs" and "c \<notin> set cs"
  shows "group_ok g (Put g c h) (c # cs) \<and> \<not> gn_drop (h_gn (Put g c h) g)"
proof (cases cs)
  case Nil
  then show ?thesis
    using assms by (simp add: group_ok_def Put_def Let_def)
next
  case (Cons x xs)
  then have hd: "gn_socketHead (h_gn h g) = Some x" "x \<noteq> c"
    using assms by (auto simp: group_ok_def)
  have "dll (Put g c h) (Some x) (ch_Next (h_ch h x)) xs = dll h (Some x) (ch_Next (h_ch h x)) xs"
    using assms Cons hd by (intro dll_cong) (auto simp: Put_def Let_def group_ok_def)
  then show ?thesis
    using assms Cons hd by (auto simp: group_ok_def Put_def Let_def)
qed

lemma DeleteChannel_group_ok:
  assumes "group_ok g h cs" and "c \<in> set cs"
  shows "group_ok g (snd (DeleteChannel g c h)) (remove1 c cs)
     \<and> fst (DeleteChannel g c h) = (remove1 c cs = [])"
proof -
  obtain xs ys where cs: "cs = xs @ c # ys"
    using assms(2) split_list by fast
  have ok: "dll h None (gn_socketHead (h_gn h g)) (xs @ c # ys)" "distinct (xs @ c # ys)"
    using assms(1) by (simp_all add: group_ok_def cs)
  note ln = dll_links [OF ok(1)]
  let ?h = "snd (DeleteChannel g c h)"
  have "dll ?h None (if xs = [] then ch_Next (h_ch h c) else gn_socketHead (h_gn h g)) (xs @ ys)"
    using ok ln
    by (intro dll_bridge [OF ok]; cases xs rule: rev_cases; cases ys) (auto simp: DeleteChannel_def Let_def)
  moreover have "remove1 c cs = xs @ ys"
    using ok(2) by (simp add: cs remove1_append)
  ultimately show ?thesis
    using assms(1) ln ok(2)
    by (cases xs rule: rev_cases; cases ys) (auto simp: group_ok_def DeleteChannel_def Let_def cs)
qed

text \<open>Sending to a connection leaves every link alone.\<close>

definition sends :: "(cref \<Rightarrow> heap \<Rightarrow> heap) \<Rightarrow> (Channel \<Rightarrow> Channel) \<Rightarrow> bool" where
  "sends send f \<longleftrightarrow> send = (\<lambda>c. upd_ch c f) \<and>
     (\<forall>ch. ch_Next (f ch) = ch_Next ch \<and> ch_Prev (f ch) = ch_Prev ch \<and> ch_GroupNodes (f ch) = ch_GroupNodes ch
        \<and> ch_Userid (f ch) = ch_Userid ch)"

fun path :: "heap \<Rightarrow> cref option \<Rightarrow> cref list \<Rightarrow> bool" where
  "path h p [] \<longleftrightarrow> p = None"
| "path h p (c # cs) \<longleftrightarrow> p = Some c \<and> path h (ch_Next (h_ch h c)) cs"

lemma dll_path: "dll h pv p cs \<Longrightarrow> path h p cs"
  by (induction cs arbitrary: pv p) auto

lemma path_cong: "(\<And>c. c \<in> set cs \<Longrightarrow> ch_Next (h_ch h' c) = ch_Next (h_ch h c)) \<Longrightarrow> path h' p cs = path h p cs"
  by (induction cs arbitrary: p) auto

lemma path_append: "path h p (xs @ ys) \<Longrightarrow> xs \<noteq> [] \<Longrightarrow> path h (ch_Next (h_ch h (last xs))) ys"
  by (induction xs arbitrary: p) (auto split: if_splits)

definition sent :: "(Channel \<Rightarrow> Channel) \<Rightarrow> cref list \<Rightarrow> heap \<Rightarrow> heap" where
  "sent f cs h = h\<lparr>h_ch := (\<lambda>c. if c \<in> set cs then f (h_ch h c) else h_ch h c)\<rparr>"

lemma push_loop_path:
  "sends send f \<Longrightarrow> path h p cs \<Longrightarrow> distinct cs \<Longrightarrow> push_loop send p h = Some (sent f cs h)"
proof (induction cs arbitrary: h p)
  case Nil
  then show ?case
    by (simp add: push_loop.simps sent_def)
next
  case (Cons c cs)
  have s: "send c = upd_ch c f"
    using Cons.prems(1) by (simp add: sends_def)
  have "path (upd_ch c f h) (ch_Next (h_ch h c)) cs"
    using Cons.prems by (subst path_cong [where h = h]) (auto simp: sends_def)
  then have "push_loop send (ch_Next (h_ch h c)) (upd_ch c f h) = Some (sent f cs (upd_ch c f h))"
    using Cons.prems by (intro Cons.IH) auto
  moreover have "ch_Next (h_ch (upd_ch c f h) c) = ch_Next (h_ch h c)"
    using Cons.prems(1) by (simp add: sends_def)
  moreover have "p = Some c" "c \<notin> set cs"
    using Cons.prems by auto
  ultimately show ?case
    by (subst push_loop.simps) (auto simp: s upd_ch_def sent_def fun_eq_iff)
qed

lemma sends_Push [simp]:
  "sends (\<lambda>c. Push c msg) (\<lambda>ch. ch\<lparr>ch_BroadcastMsg := offer (ch_size ch) msg (ch_BroadcastMsg ch)\<rparr>)"
  "sends (\<lambda>c. PushStatus c st) (\<lambda>ch. ch\<lparr>ch_BroadcastStatus := offer (ch_size ch) st (ch_BroadcastStatus ch)\<rparr>)"
  by (auto simp: sends_def Push_def PushStatus_def)

lemma sent_simps [simp]:
  "h_ch (sent f cs h) c = (if c \<in> set cs then f (h_ch h c) else h_ch h c)" "h_gn (sent f cs h) = h_gn h"
  "h_nch (sent f cs h) = h_nch h" "h_ngn (sent f cs h) = h_ngn h"
  by (simp_all add: sent_def)

lemma push_loop_group:
  "sends send f \<Longrightarrow> group_ok g h cs \<Longrightarrow>
   push_loop send (gn_socketHead (h_gn h g)) h = Some (sent f cs h) \<and> group_ok g (sent f cs h) cs"
  using dll_cong [of cs "sent f cs h" h]
  by (auto simp: group_ok_def sends_def dll_path push_loop_path)

section \<open>A group as a roster of connections\<close>

text \<open>
  What the users of a group node rely on: joining and leaving keep the roster, the last member
  that leaves is reported, and a message sent to the roster reaches each member once and nobody
  else.
\<close>

datatype 'm roster_ev = Join 'm | Leave 'm

fun roster_after :: "'m roster_ev list \<Rightarrow> 'm list \<Rightarrow> 'm list option" where
  "roster_after [] ms = Some ms"
| "roster_after (Join m # es) ms = (if m \<in> set ms then None else roster_after es (m # ms))"
| "roster_after (Leave m # es) ms = (if m \<in> set ms then roster_after es (remove1 m ms) else None)"

fun roster_run :: "('m \<Rightarrow> 's \<Rightarrow> 's) \<Rightarrow> ('m \<Rightarrow> 's \<Rightarrow> bool \<times> 's) \<Rightarrow> 'm roster_ev list \<Rightarrow> 's \<Rightarrow> 's" where
  "roster_run put del [] s = s"
| "roster_run put del (Join m # es) s = roster_run put del es (put m s)"
| "roster_run put del (Leave m # es) s = roster_run put del es (snd (del m s))"

locale roster =
  fixes ok :: "'s \<Rightarrow> 'm list \<Rightarrow> bool"
    and put :: "'m \<Rightarrow> 's \<Rightarrow> 's"
    and del :: "'m \<Rightarrow> 's \<Rightarrow> bool \<times> 's"
    and push :: "'s \<Rightarrow> 's option"
    and box :: "'s \<Rightarrow> 'm \<Rightarrow> 'q"
    and accept :: "'q \<Rightarrow> 'q"
  assumes ok_put: "ok s ms \<Longrightarrow> m \<notin> set ms \<Longrightarrow> ok (put m s) (m # ms)"
    and ok_del: "ok s ms \<Longrightarrow> m \<in> set ms \<Longrightarrow> ok (snd (del m s)) (remove1 m ms)"
    and del_last: "ok s ms \<Longrightarrow> m \<in> set ms \<Longrightarrow> fst (del m s) \<longleftrightarrow> remove1 m ms = []"
    and box_put: "box (put m s) = box s"
    and box_del: "box (snd (del m s)) = box s"
    and push_all: "ok s ms \<Longrightarrow>
      \<exists>s'. push s = Some s' \<and> ok s' ms \<and> (\<forall>m. box s' m = (if m \<in> set ms then accept (box s m) else box s m))"
begin

lemma ok_run: "ok s ms \<Longrightarrow> roster_after es ms = Some ms' \<Longrightarrow> ok (roster_run put del es s) ms'"
  by (induction es ms arbitrary: s rule: roster_after.induct) (auto intro: ok_put ok_del split: if_splits)

lemma box_run: "box (roster_run put del es s) = box s"
proof (induction es arbitrary: s)
  case (Cons e es)
  then show ?case
    by (cases e) (simp_all add: box_put box_del)
qed simp

lemma push_after_run:
  assumes "ok s ms" and "roster_after es ms = Some ms'"
  shows "\<exists>s'. push (roster_run put del es s) = Some s' \<and> ok s' ms'
     \<and> (\<forall>m. box s' m = (if m \<in> set ms' then accept (box s m) else box s m))"
  using push_all [OF ok_run [OF assms]] unfolding box_run .

end

lemma Put_keeps:
  "ch_BroadcastMsg (h_ch (Put g c h) d) = ch_BroadcastMsg (h_ch h d)"
  "ch_BroadcastStatus (h_ch (Put g c h) d) = ch_BroadcastStatus (h_ch h d)"
  "ch_size (h_ch (Put g c h) d) = ch_size (h_ch h d)"
  "ch_Userid (h_ch (Put g c h) d) = ch_Userid (h_ch h d)"
  "ch_GroupNodes (h_ch (Put g c h) d) = ch_GroupNodes (h_ch h d)"
  "gn_groupId (h_gn (Put g c h) g') = gn_groupId (h_gn h g')"
  by (auto simp: Put_def Let_def split: option.splits)

lemma DeleteChannel_keeps:
  "ch_BroadcastMsg (h_ch (snd (DeleteChannel g c h)) d) = ch_BroadcastMsg (h_ch h d)"
  "ch_BroadcastStatus (h_ch (snd (DeleteChannel g c h)) d) = ch_BroadcastStatus (h_ch h d)"
  "ch_size (h_ch (snd (DeleteChannel g c h)) d) = ch_size (h_ch h d)"
  "ch_Userid (h_ch (snd (DeleteChannel g c h)) d) = ch_Userid (h_ch h d)"
  "ch_GroupNodes (h_ch (snd (DeleteChannel g c h)) d) = ch_GroupNodes (h_ch h d)"
  "gn_groupId (h_gn (snd (DeleteChannel g c h)) g') = gn_groupId (h_gn h g')"
  by (auto simp: DeleteChannel_def Let_def split: option.splits)

lemma alloc_keeps [simp]:
  "h_ngn (Put g c h) = h_ngn h" "h_nch (Put g c h) = h_nch h"
  "h_ngn (snd (DeleteChannel g c h)) = h_ngn h" "h_nch (snd (DeleteChannel g c h)) = h_nch h"
  by (auto simp: Put_def DeleteChannel_def Let_def split: option.splits)

text \<open>The messages waiting for a connection, with the room its buffer has.\<close>

definition msg_box :: "heap \<Rightarrow> cref \<Rightarrow> nat \<times> KafkaMessage list" where
  "msg_box h c = (ch_size (h_ch h c), ch_BroadcastMsg (h_ch h c))"

definition status_box :: "heap \<Rightarrow> cref \<Rightarrow> nat \<times> string list" where
  "status_box h c = (ch_size (h_ch h c), ch_BroadcastStatus (h_ch h c))"

definition accept :: "'a \<Rightarrow> nat \<times> 'a list \<Rightarrow> nat \<times> 'a list" where
  "accept x q = (fst q, offer (fst q) x (snd q))"

interpretation msgs: roster "group_ok g" "Put g" "DeleteChannel g" "PushGroupMsg g msg" msg_box "accept msg" for g msg
  using push_loop_group [OF sends_Push(1) [of msg]]
  by unfold_locales
     (auto simp: Put_group_ok DeleteChannel_group_ok msg_box_def Put_keeps DeleteChannel_keeps PushGroupMsg_def
        accept_def fun_eq_iff)

interpretation status: roster "group_ok g" "Put g" "DeleteChannel g" "PushGroupStatusMsg g st" status_box "accept st" for g st
  using push_loop_group [OF sends_Push(2) [of st]]
  by unfold_locales
     (auto simp: Put_group_ok DeleteChannel_group_ok status_box_def Put_keeps DeleteChannel_keeps PushGroupStatusMsg_def
        accept_def fun_eq_iff)

text \<open>
  C2: after any history of connections joining a group and leaving it, sending a message to
  the group returns, puts the message once into the buffer of every current member that has room
  for it, and touches no other buffer.
\<close>
theorem group_delivery:
  assumes "group_ok g h cs" and "roster_after es cs = Some ms"
  shows "\<exists>h'. PushGroupMsg g msg (roster_run (Put g) (DeleteChannel g) es h) = Some h' \<and> group_ok g h' ms
     \<and> (\<forall>c. ch_BroadcastMsg (h_ch h' c) =
           (if c \<in> set ms then offer (ch_size (h_ch h c)) msg (ch_BroadcastMsg (h_ch h c))
            else ch_BroadcastMsg (h_ch h c)))"
proof -
  obtain h' where "PushGroupMsg g msg (roster_run (Put g) (DeleteChannel g) es h) = Some h'" "group_ok g h' ms"
    and box: "\<forall>c. msg_box h' c = (if c \<in> set ms then accept msg (msg_box h c) else msg_box h c)"
    using msgs.push_after_run [OF assms] by blast
  moreover have "ch_BroadcastMsg (h_ch h' c) =
     (if c \<in> set ms then offer (ch_size (h_ch h c)) msg (ch_BroadcastMsg (h_ch h c)) else ch_BroadcastMsg (h_ch h c))" for c
    using spec [OF box, of c] by (simp add: msg_box_def accept_def split: if_splits)
  ultimately show ?thesis by blast
qed

text \<open>
  A member that leaves is taken out of the list and the rest keeps its order; the node is
  marked for removal exactly when the last member has left, and a join after that clears the mark.
\<close>
theorem group_leave:
  assumes "group_ok g h cs" and "c \<in> set cs"
  shows "group_ok g (snd (DeleteChannel g c h)) (remove1 c cs)
     \<and> (fst (DeleteChannel g c h) \<longleftrightarrow> cs = [c])
     \<and> group_ok g (Put g c (snd (DeleteChannel g c h))) (c # remove1 c cs)
     \<and> \<not> gn_drop (h_gn (Put g c (snd (DeleteChannel g c h))) g)"
proof -
  let ?h = "snd (DeleteChannel g c h)"
  have rem: "group_ok g ?h (remove1 c cs)" "fst (DeleteChannel g c h) \<longleftrightarrow> remove1 c cs = []"
    using DeleteChannel_group_ok [OF assms] by simp_all
  have "distinct cs"
    using assms(1) by (simp add: group_ok_def)
  then have "c \<notin> set (remove1 c cs)"
    by simp
  moreover have "remove1 c cs = [] \<longleftrightarrow> cs = [c]"
    using assms(2) by (cases cs) auto
  ultimately show ?thesis
    using rem Put_group_ok [OF rem(1)] by simp
qed

section \<open>One connection in several groups\<close>

lemma Put_other: "g' \<noteq> g \<Longrightarrow> h_gn (Put g c h) g' = h_gn h g'"
  by (auto simp: Put_def Let_def split: option.splits)

lemma DeleteChannel_other: "g' \<noteq> g \<Longrightarrow> h_gn (snd (DeleteChannel g c h)) g' = h_gn h g'"
  by (auto simp: DeleteChannel_def Let_def split: option.splits)

text \<open>A list that shares no connection with the change is not affected by it.\<close>

lemma Put_frame:
  "group_ok g' h ds \<Longrightarrow> group_ok g h cs \<Longrightarrow> g' \<noteq> g \<Longrightarrow> c \<notin> set ds \<Longrightarrow> set cs \<inter> set ds = {} \<Longrightarrow>
   group_ok g' (Put g c h) ds"
proof -
  assume a: "group_ok g' h ds" "group_ok g h cs" "g' \<noteq> g" "c \<notin> set ds" "set cs \<inter> set ds = {}"
  have "gn_socketHead (h_gn h g) \<noteq> Some d" if "d \<in> set ds" for d
  proof -
    have "hd cs \<noteq> d" if "cs \<noteq> []"
      using a(5) \<open>d \<in> set ds\<close> hd_in_set [OF that] by blast
    then show ?thesis
      using a(2) by (auto simp: group_ok_def dest!: dll_entry split: if_splits)
  qed
  then have "dll (Put g c h) pv p ds = dll h pv p ds" for pv p
    using a by (intro dll_cong) (auto simp: Put_def Let_def split: option.splits)
  then show ?thesis
    using a by (auto simp: group_ok_def Put_def Let_def split: option.splits)
qed

lemma DeleteChannel_frame:
  "group_ok g' h ds \<Longrightarrow> group_ok g h cs \<Longrightarrow> g' \<noteq> g \<Longrightarrow> c \<in> set cs \<Longrightarrow> set cs \<inter> set ds = {} \<Longrightarrow>
   group_ok g' (snd (DeleteChannel g c h)) ds"
proof -
  assume a: "group_ok g' h ds" "group_ok g h cs" "g' \<noteq> g" "c \<in> set cs" "set cs \<inter> set ds = {}"
  obtain xs ys where cs: "cs = xs @ c # ys"
    using a(4) split_list by fast
  have "dll h None (gn_socketHead (h_gn h g)) (xs @ c # ys)"
    using a(2) by (simp add: group_ok_def cs)
  note ln = dll_links [OF this]
  have nin: "d \<noteq> c" "xs \<noteq> [] \<Longrightarrow> d \<noteq> last xs" "ys \<noteq> [] \<Longrightarrow> d \<noteq> hd ys" if "d \<in> set ds" for d
  proof -
    have sub: "e \<in> set cs \<Longrightarrow> d \<noteq> e" for e
      using a(5) that by blast
    show "d \<noteq> c"
      by (rule sub) (simp add: cs)
    show "xs \<noteq> [] \<Longrightarrow> d \<noteq> last xs"
      by (rule sub) (simp add: cs)
    show "ys \<noteq> [] \<Longrightarrow> d \<noteq> hd ys"
      by (rule sub) (simp add: cs)
  qed
  have "ch_Prev (h_ch (snd (DeleteChannel g c h)) d) = ch_Prev (h_ch h d)
      \<and> ch_Next (h_ch (snd (DeleteChannel g c h)) d) = ch_Next (h_ch h d)" if "d \<in> set ds" for d
    using nin [OF that] ln by (cases "xs = []"; cases "ys = []") (simp_all add: DeleteChannel_def Let_def)
  then have "dll (snd (DeleteChannel g c h)) pv p ds = dll h pv p ds" for pv p
    by (intro dll_cong)
  then show ?thesis
    using a(1) DeleteChannel_other [OF a(3)] by (simp add: group_ok_def)
qed

text \<open>
  C38: a connection has one pair of links for all its groups. When it joins a second group that
  nobody has joined yet, the first group keeps the members in front of it and the connection
  itself, and a message to the first group no longer reaches the members behind it.
\<close>
theorem second_group_cuts_first:
  assumes "group_ok g h (xs @ c # ys)" and "gn_socketHead (h_gn h g') = None" and "g' \<noteq> g"
  shows "\<exists>h'. PushGroupMsg g msg (Put g' c h) = Some h'
     \<and> (\<forall>d \<in> set xs \<union> {c}. ch_BroadcastMsg (h_ch h' d) = offer (ch_size (h_ch h d)) msg (ch_BroadcastMsg (h_ch h d)))
     \<and> (\<forall>d \<in> set ys. ch_BroadcastMsg (h_ch h' d) = ch_BroadcastMsg (h_ch h d))"
proof -
  let ?h = "Put g' c h"
  have ok: "path h (gn_socketHead (h_gn h g)) (xs @ c # ys)" "distinct (xs @ c # ys)"
    using assms(1) by (auto simp: group_ok_def dll_path)
  have "path ?h p (xs @ [c])" if "path h p (xs @ c # ys)" "distinct (xs @ c # ys)" for p
    using that by (induction xs arbitrary: p) (auto simp: Put_def Let_def assms)
  then have "path ?h (gn_socketHead (h_gn ?h g)) (xs @ [c])"
    using ok assms(3) by (auto simp: Put_def Let_def assms(2))
  then have "PushGroupMsg g msg ?h =
      Some (sent (\<lambda>ch. ch\<lparr>ch_BroadcastMsg := offer (ch_size ch) msg (ch_BroadcastMsg ch)\<rparr>) (xs @ [c]) ?h)"
    unfolding PushGroupMsg_def using ok(2) by (intro push_loop_path [OF sends_Push(1)]) auto
  then show ?thesis
    using ok(2) by (auto simp: Put_keeps)
qed

text \<open>
  When the second group has members already, the links of the connection lead from the list
  of the first group into that of the second: a message to the first group is delivered to all
  members of the second, whether they belong to the first or not, and to none of the members of the
  first behind the connection.
\<close>
theorem second_group_leaks:
  assumes "group_ok g h (xs @ c # ys)" and "group_ok g' h zs" and "g' \<noteq> g" and "set zs \<inter> set (xs @ c # ys) = {}"
  shows "\<exists>h'. PushGroupMsg g msg (Put g' c h) = Some h'
     \<and> (\<forall>d \<in> set xs \<union> {c} \<union> set zs. ch_BroadcastMsg (h_ch h' d) = offer (ch_size (h_ch h d)) msg (ch_BroadcastMsg (h_ch h d)))
     \<and> (\<forall>d \<in> set ys. ch_BroadcastMsg (h_ch h' d) = ch_BroadcastMsg (h_ch h d))"
proof -
  let ?h = "Put g' c h"
  have ok: "path h (gn_socketHead (h_gn h g)) (xs @ c # ys)" "distinct (xs @ c # ys)" "path h (gn_socketHead (h_gn h g')) zs" "distinct zs"
    using assms(1,2) by (auto simp: group_ok_def dll_path)
  have links: "ch_Next (h_ch ?h d) = (if d = c then gn_socketHead (h_gn h g') else ch_Next (h_ch h d))" for d
    by (auto simp: Put_def Let_def split: option.splits)
  have tail: "path ?h p zs = path h p zs" for p
    using assms(4) by (intro path_cong) (auto simp: links)
  have "path ?h p (xs @ c # zs)" if "path h p (xs @ c # ys)" "distinct (xs @ c # ys)" for p
    using that ok(3) by (induction xs arbitrary: p) (auto simp: links tail)
  then have "path ?h (gn_socketHead (h_gn ?h g)) (xs @ c # zs)"
    using ok(1,2) assms(3) by (auto simp: Put_def Let_def split: option.splits)
  moreover have "distinct (xs @ c # zs)"
    using ok(2,4) assms(4) by auto
  ultimately have "PushGroupMsg g msg ?h =
      Some (sent (\<lambda>ch. ch\<lparr>ch_BroadcastMsg := offer (ch_size ch) msg (ch_BroadcastMsg ch)\<rparr>) (xs @ c # zs) ?h)"
    unfolding PushGroupMsg_def by (rule push_loop_path [OF sends_Push(1)])
  then show ?thesis
    using ok(2) assms(4) by (auto simp: Put_keeps)
qed

lemma push_loop_cycle:
  assumes "sends send f" and "ch_Next (h_ch h c) = Some c"
  shows "push_loop send (Some c) h = None"
proof -
  have "sends send f \<longrightarrow> p = Some c \<longrightarrow> ch_Next (h_ch h c) \<noteq> Some c" if "push_loop send p h = Some h'" for p h h'
    using that
  proof (rule push_loop.raw_induct [where P = "\<lambda>send p h h'. sends send f \<longrightarrow> p = Some c \<longrightarrow> ch_Next (h_ch h c) \<noteq> Some c", rotated])
    fix loop :: "(cref \<Rightarrow> heap \<Rightarrow> heap) \<Rightarrow> cref option \<Rightarrow> heap \<Rightarrow> heap option" and send p h y
    assume IH: "\<And>send p h y. loop send p h = Some y \<Longrightarrow> sends send f \<longrightarrow> p = Some c \<longrightarrow> ch_Next (h_ch h c) \<noteq> Some c"
      and "(case p of None \<Rightarrow> Some h | Some c \<Rightarrow> loop send (ch_Next (h_ch (send c h) c)) (send c h)) = Some y"
    then show "sends send f \<longrightarrow> p = Some c \<longrightarrow> ch_Next (h_ch h c) \<noteq> Some c"
      using IH [of send "Some c" "send c h" y] by (auto simp: sends_def)
  qed
  then show ?thesis
    using assms by (cases "push_loop send (Some c) h") auto
qed

text \<open>
  Putting the connection at the head of a group into the group again, which happens when a
  client sends its access token twice, ties the list into a cycle: the next message to the group
  is pushed forever, with the group's lock held.
\<close>
theorem second_put_diverges:
  assumes "gn_socketHead (h_gn h g) = Some c"
  shows "PushGroupMsg g msg (Put g c h) = None"
proof -
  have "ch_Next (h_ch (Put g c h) c) = Some c" "gn_socketHead (h_gn (Put g c h) g) = Some c"
    by (simp_all add: Put_def Let_def assms)
  then show ?thesis
    by (simp add: PushGroupMsg_def push_loop_cycle [OF sends_Push(1)])
qed

section \<open>Witnesses\<close>

text \<open>A heap with two connections and one group they have joined.\<close>

definition no_channel :: Channel where
  "no_channel = \<lparr>ch_BroadcastMsg = [], ch_BroadcastStatus = [], ch_size = 2, ch_Userid = 0, ch_Next = None,
     ch_Prev = None, ch_GroupNodes = []\<rparr>"

definition heap0 :: heap where
  "heap0 = \<lparr>h_ch = (\<lambda>_. no_channel), h_gn = (\<lambda>_. \<lparr>gn_groupId = 0, gn_OnlineCount = 0, gn_drop = False,
     gn_socketHead = None\<rparr>), h_nch = 2, h_ngn = 2\<rparr>"

lemma heap0_ok: "group_ok g heap0 []"
  by (simp add: group_ok_def heap0_def)

lemma heap01_ok: "group_ok 0 (Put 0 1 (Put 0 0 heap0)) [1, 0]"
  using Put_group_ok [OF conjunct1 [OF Put_group_ok [OF heap0_ok [of 0], of 0]], of 1] by simp

theorem group_delivery_witness:
  "group_ok 0 heap0 [] \<and> roster_after [Join 0, Join 1, Leave 0] [] = Some [1 :: nat]
   \<and> (\<exists>h'. PushGroupMsg 0 (plain_msg ''t'' 1 ''m'')
           (roster_run (Put 0) (DeleteChannel 0) [Join 0, Join 1, Leave 0] heap0) = Some h'
        \<and> length (ch_BroadcastMsg (h_ch h' 1)) = 1 \<and> ch_BroadcastMsg (h_ch h' 0) = [])"
proof -
  have 1: "group_ok 0 heap0 []" by (rule heap0_ok)
  have 2: "roster_after [Join 0, Join 1, Leave 0] [] = Some [1 :: nat]" by simp
  show ?thesis
    using group_delivery [OF 1 2, of "plain_msg ''t'' 1 ''m''"] 1 2
    by (force simp: offer_def heap0_def no_channel_def)
qed

theorem group_leave_witness:
  "group_ok 0 (Put 0 1 (Put 0 0 heap0)) [1, 0]
   \<and> group_ok 0 (snd (DeleteChannel 0 1 (Put 0 1 (Put 0 0 heap0)))) [0]
   \<and> \<not> fst (DeleteChannel 0 1 (Put 0 1 (Put 0 0 heap0)))"
  using heap01_ok group_leave [OF heap01_ok, of 1] by simp

theorem second_group_cuts_first_witness:
  "group_ok 0 (Put 0 1 (Put 0 0 heap0)) [1, 0]
   \<and> gn_socketHead (h_gn (Put 0 1 (Put 0 0 heap0)) 1) = None
   \<and> (\<exists>h'. PushGroupMsg 0 (plain_msg ''t'' 1 ''m'')
           (Put 1 1 (Put 0 1 (Put 0 0 heap0))) = Some h' \<and> ch_BroadcastMsg (h_ch h' 0) = [])"
proof -
  have e: "gn_socketHead (h_gn (Put 0 1 (Put 0 0 heap0)) 1) = None"
    by (simp add: Put_def Let_def heap0_def)
  show ?thesis
    using heap01_ok e second_group_cuts_first [of 0 "Put 0 1 (Put 0 0 heap0)" "[]" 1 "[0]" 1
        "plain_msg ''t'' 1 ''m''"]
    by (auto simp: Put_keeps heap0_def no_channel_def)
qed

theorem second_group_leaks_witness:
  "group_ok 0 (Put 1 1 (Put 0 0 heap0)) [0] \<and> group_ok 1 (Put 1 1 (Put 0 0 heap0)) [1] \<and>
   (\<exists>h'. PushGroupMsg 0 (plain_msg ''t'' 1 ''m'') (Put 1 0 (Put 1 1 (Put 0 0 heap0))) = Some h' \<and> ch_BroadcastMsg (h_ch h' 1) = [plain_msg ''t'' 1 ''m''])"
proof -
  have e: "group_ok 0 (Put 1 1 (Put 0 0 heap0)) ([] @ 0 # [])" "group_ok 1 (Put 1 1 (Put 0 0 heap0)) [1]"
    by (simp_all add: group_ok_def Put_def Let_def heap0_def)
  show ?thesis
    using e second_group_leaks [OF e, of "plain_msg ''t'' 1 ''m''"]
    by (auto simp: Put_keeps heap0_def no_channel_def offer_def)
qed

theorem second_put_diverges_witness:
  "gn_socketHead (h_gn (Put 0 0 heap0) 0) = Some 0
   \<and> PushGroupMsg 0 (plain_msg ''t'' 1 ''m'') (Put 0 0 (Put 0 0 heap0)) = None"
proof -
  have e: "gn_socketHead (h_gn (Put 0 0 heap0) 0) = Some 0"
    by (simp add: Put_def Let_def heap0_def)
  show ?thesis using e second_put_diverges [OF e] by simp
qed

end
