(* ===== verification/RoundRobin.thy ===== *)
theory RoundRobin
  imports Prelude
begin

text \<open>
  Both the buckets and the service discovery deal out indices in turn. What a user of such a
  counter relies on: the index is in range and the next one follows it cyclically.
\<close>

locale round_robin =
  fixes ok :: "nat \<Rightarrow> 's \<Rightarrow> bool"
    and turn :: "'s \<Rightarrow> nat"
    and step :: "'s \<Rightarrow> 's"
  assumes pos: "ok n s \<Longrightarrow> 0 < n"
    and turn_less: "ok n s \<Longrightarrow> turn s < n"
    and ok_step: "ok n s \<Longrightarrow> ok n (step s)"
    and turn_step: "ok n s \<Longrightarrow> turn (step s) = (turn s + 1) mod n"
begin

lemma ok_steps: "ok n s \<Longrightarrow> ok n ((step ^^ k) s)"
  by (induction k) (auto intro: ok_step)

lemma turn_steps: "ok n s \<Longrightarrow> turn ((step ^^ k) s) = (turn s + k) mod n"
proof (induction k)
  case 0
  then show ?case by (simp add: turn_less)
next
  case (Suc k)
  then show ?case
    using turn_step [OF ok_steps [OF Suc.prems, of k]] by (simp add: mod_Suc_eq)
qed

lemma turns_distinct:
  assumes "ok n s" and "j < n" "k < n" and "turn ((step ^^ j) s) = turn ((step ^^ k) s)"
  shows "j = k"
proof -
  have eq: "(turn s + j) mod n = (turn s + k) mod n"
    using assms by (simp add: turn_steps)
  have "j = k" if "j \<le> k" "(turn s + k) mod n = (turn s + j) mod n" "k < n" for j k
  proof -
    have "n dvd k - j"
      using that mod_eq_dvd_iff_nat [of "turn s + j" "turn s + k" n] by simp
    then show ?thesis
      using that(1,3) nat_dvd_not_less [of "k - j" n] by fastforce
  qed
  from this [of j k] this [of k j] show ?thesis
    using eq assms(2,3) by (metis nat_le_linear)
qed

lemma turns_all:
  assumes "ok n s" and "i < n"
  shows "\<exists>k<n. turn ((step ^^ k) s) = i"
proof -
  let ?k = "(i + n - turn s) mod n"
  have "turn s < n" using assms(1) by (rule turn_less)
  then have "(turn s + ?k) mod n = i"
    using assms(2) by (simp add: mod_add_right_eq)
  then show ?thesis
    using assms pos by (intro exI [of _ ?k]) (simp add: turn_steps)
qed

end

end
