(* ===== verification/Bucket.thy ===== *)
theory Bucket
  imports GroupNode RoundRobin
begin

text \<open>
  A bucket of the connect layer (\<^verbatim>\<open>connect/bucket.go\<close>): the connections of its users, the group
  nodes they belong to and the queues over which messages for groups are spread. The bodies
  between a lock and its unlock are atomic; \<^verbatim>\<open>PutChannel\<close> releases the bucket's lock before it
  enters the group node and is therefore split in two.
\<close>

section \<open>State and construction\<close>

record bucketOptions =
  SocketSize :: int
  RoutineAmount :: int
  RoutineSize :: int

record Bucket =
  b_socketMap :: "int \<rightharpoonup> cref"
  b_GroupNode :: "int \<rightharpoonup> gref"
  b_routineIdx :: uint64
  b_routineNum :: uint64
  b_routines :: "KafkaMessage list list"
  b_statusIdx :: uint64
  b_statusNum :: uint64
  b_statusRoutines :: "string list list"
  b_routineSize :: nat \<comment> \<open>the capacity of every queue\<close>

definition defaultSocketSize :: int where "defaultSocketSize = 1024"
definition defaultRoutineAmount :: int where "defaultRoutineAmount = 32"
definition defaultRoutineSize :: int where "defaultRoutineSize = 20"
definition NoGroup :: int where "NoGroup = -1"

definition BucketWithSocketSize :: "int \<Rightarrow> bucketOptions \<Rightarrow> bucketOptions" where
  "BucketWithSocketSize n o' = o'\<lparr>SocketSize := n\<rparr>"

definition BucketWithRoutineAmount :: "int \<Rightarrow> bucketOptions \<Rightarrow> bucketOptions" where
  "BucketWithRoutineAmount n o' = o'\<lparr>RoutineAmount := n\<rparr>"

definition BucketWithRoutineSize :: "int \<Rightarrow> bucketOptions \<Rightarrow> bucketOptions" where
  "BucketWithRoutineSize n o' = o'\<lparr>RoutineSize := n\<rparr>"

text \<open>
  A negative number of queues, or a negative capacity of a queue that is made, panics. The
  workers that the constructor starts are \<open>PushGroupMsg_step\<close> and \<open>PushGroupStatus_step\<close> below.
\<close>

definition NewBucket :: "(bucketOptions \<Rightarrow> bucketOptions) list \<Rightarrow> Bucket option" where
  "NewBucket opts =
     (let options = fold (\<lambda>f. f) opts
            \<lparr>SocketSize = defaultSocketSize, RoutineAmount = defaultRoutineAmount, RoutineSize = defaultRoutineSize\<rparr>;
          n = RoutineAmount options
      in if n < 0 \<or> (0 < n \<and> RoutineSize options < 0) then None
         else Some \<lparr>b_socketMap = Map.empty, b_GroupNode = Map.empty,
                b_routineIdx = 0, b_routineNum = of_int n, b_routines = replicate (nat n) [],
                b_statusIdx = 0, b_statusNum = of_int n, b_statusRoutines = replicate (nat n) [],
                b_routineSize = nat (RoutineSize options)\<rparr>)"

section \<open>Spreading messages over the queues\<close>

text \<open>
  The send on a queue blocks while the queue is full: the call has then taken its turn and waits
  at that queue. A bucket without queues divides by zero.
\<close>

datatype broadcast = Sent Bucket | Waiting nat Bucket | Panicked

definition BroadcastRoom :: "KafkaMessage \<Rightarrow> Bucket \<Rightarrow> broadcast" where
  "BroadcastRoom msg b =
     (if b_routineNum b = 0 then Panicked
      else let b = b\<lparr>b_routineIdx := b_routineIdx b + 1\<rparr>;
               idx = unat (b_routineIdx b mod b_routineNum b)
           in case index (b_routines b) idx of
                None \<Rightarrow> Panicked
              | Some q \<Rightarrow>
                  if length q < b_routineSize b then Sent (b\<lparr>b_routines := (b_routines b)[idx := q @ [msg]]\<rparr>)
                  else Waiting idx b)"

definition BroadcastStatusRoom :: "string \<Rightarrow> Bucket \<Rightarrow> broadcast" where
  "BroadcastStatusRoom msg b =
     (if b_statusNum b = 0 then Panicked
      else let b = b\<lparr>b_statusIdx := b_statusIdx b + 1\<rparr>;
               idx = unat (b_statusIdx b mod b_statusNum b)
           in case index (b_statusRoutines b) idx of
                None \<Rightarrow> Panicked
              | Some q \<Rightarrow>
                  if length q < b_routineSize b then Sent (b\<lparr>b_statusRoutines := (b_statusRoutines b)[idx := q @ [msg]]\<rparr>)
                  else Waiting idx b)"

section \<open>Group nodes and connections of a bucket\<close>

definition GetGroupNode :: "int \<Rightarrow> Bucket \<Rightarrow> gref option" where
  "GetGroupNode groupId b = b_GroupNode b groupId"

definition GetChannel :: "int \<Rightarrow> Bucket \<Rightarrow> cref option" where
  "GetChannel userid b = b_socketMap b userid"

text \<open>\<^verbatim>\<open>PutChannel\<close> up to the release of the bucket's lock: the node to enter, if any.\<close>

definition PutChannel_locked :: "int \<Rightarrow> int \<Rightarrow> cref \<Rightarrow> Bucket \<times> heap \<Rightarrow> gref option \<times> Bucket \<times> heap" where
  "PutChannel_locked userid groupId c s =
     (case s of (b, h) \<Rightarrow>
        let (node, b, h) =
              (if groupId \<noteq> NoGroup then
                 (let (g, b, h) =
                        (case b_GroupNode b groupId of
                           Some g \<Rightarrow> (g, b, h)
                         | None \<Rightarrow>
                             (let (g, h) = NewGroupNode groupId h
                              in (g, b\<lparr>b_GroupNode := (b_GroupNode b)(groupId \<mapsto> g)\<rparr>, h)))
                  in (Some g, b, upd_ch c (\<lambda>ch. ch\<lparr>ch_GroupNodes := ch_GroupNodes ch @ [g]\<rparr>) h))
               else (None, b, h));
            h = upd_ch c (\<lambda>ch. ch\<lparr>ch_Userid := userid\<rparr>) h
        in (node, b\<lparr>b_socketMap := (b_socketMap b)(userid \<mapsto> c)\<rparr>, h))"

definition PutChannel :: "int \<Rightarrow> int \<Rightarrow> cref \<Rightarrow> Bucket \<times> heap \<Rightarrow> Bucket \<times> heap" where
  "PutChannel userid groupId c s =
     (case PutChannel_locked userid groupId c s of
        (None, b, h) \<Rightarrow> (b, h)
      | (Some g, b, h) \<Rightarrow> (b, Put g c h))"

text \<open>The loop of \<^verbatim>\<open>DeleteChanel\<close> over the nodes of the connection.\<close>

fun delete_nodes :: "gref list \<Rightarrow> cref \<Rightarrow> Bucket \<times> heap \<Rightarrow> Bucket \<times> heap" where
  "delete_nodes [] c s = s"
| "delete_nodes (g # gs) c (b, h) =
     (let (dropped, h) = DeleteChannel g c h
      in delete_nodes gs c
           (if dropped \<and> gn_drop (h_gn h g)
            then (b\<lparr>b_GroupNode := (b_GroupNode b)(gn_groupId (h_gn h g) := None)\<rparr>, h)
            else (b, h)))"

definition DeleteChanel :: "cref \<Rightarrow> Bucket \<times> heap \<Rightarrow> Bucket \<times> heap" where
  "DeleteChanel c s =
     (case s of (b, h) \<Rightarrow>
        (case b_socketMap b (ch_Userid (h_ch h c)) of
           None \<Rightarrow> (b, h)
         | Some c' \<Rightarrow>
             delete_nodes (ch_GroupNodes (h_ch h c')) c'
               (b\<lparr>b_socketMap := (b_socketMap b)(ch_Userid (h_ch h c') := None)\<rparr>, h)))"

section \<open>The workers behind the queues\<close>

definition zero_MsgSend :: "json MsgSend" where
  "zero_MsgSend = \<lparr>ms_Op = 0, ms_Msg = JNull\<rparr>"

text \<open>
  One message taken off a queue. The second decoding goes straight into the struct the
  interface points to; a text with a non-zero operation is a JSON object, so it never empties
  the interface. A missing node is only logged. \<^term>\<open>None\<close> is a push that never returns.
\<close>

definition handle_group_msg :: "KafkaMessage \<Rightarrow> Bucket \<Rightarrow> heap \<Rightarrow> heap option" where
  "handle_group_msg msg b h =
     (let payload = fst (Unmarshal dec_MsgSend (km_Value msg) zero_MsgSend)
      in if ms_Op payload = OpGroupMsgSend then
           (let groupId = gm_GroupId (fst (Unmarshal dec_GroupMsg (km_Value msg) zero_GroupMsg))
            in case GetGroupNode groupId b of
                 Some g \<Rightarrow> PushGroupMsg g msg h
               | None \<Rightarrow> Some h)
         else Some h)"

definition handle_group_status :: "string \<Rightarrow> Bucket \<Rightarrow> heap \<Rightarrow> heap option" where
  "handle_group_status msg b h =
     (let payload = fst (Unmarshal dec_MsgSend msg zero_MsgSend)
      in if ms_Op payload = OpGroupOlineUserCountSend then
           (let groupId = gc_GroupId (fst (Unmarshal dec_GroupCountMsg msg zero_GroupCountMsg))
            in case GetGroupNode groupId b of
                 Some g \<Rightarrow> PushGroupStatusMsg g msg h
               | None \<Rightarrow> Some h)
         else if ms_Op payload = OpGroupInfoSend then
           (let groupId = gi_GroupId (fst (Unmarshal dec_GroupInfoMsg msg zero_GroupInfoMsg))
            in case GetGroupNode groupId b of
                 Some g \<Rightarrow> PushGroupStatusMsg g msg h
               | None \<Rightarrow> Some h)
         else Some h)"

text \<open>
  One turn of the worker of queue \<open>i\<close>: an empty queue leaves it waiting and the state unchanged.
\<close>

definition PushGroupMsg_step :: "nat \<Rightarrow> Bucket \<times> heap \<Rightarrow> (Bucket \<times> heap) option" where
  "PushGroupMsg_step i s =
     (case s of (b, h) \<Rightarrow>
        (case b_routines b ! i of
           [] \<Rightarrow> Some (b, h)
         | msg # q \<Rightarrow> map_option (Pair (b\<lparr>b_routines := (b_routines b)[i := q]\<rparr>)) (handle_group_msg msg b h)))"

definition PushGroupStatus_step :: "nat \<Rightarrow> Bucket \<times> heap \<Rightarrow> (Bucket \<times> heap) option" where
  "PushGroupStatus_step i s =
     (case s of (b, h) \<Rightarrow>
        (case b_statusRoutines b ! i of
           [] \<Rightarrow> Some (b, h)
         | msg # q \<Rightarrow> map_option (Pair (b\<lparr>b_statusRoutines := (b_statusRoutines b)[i := q]\<rparr>)) (handle_group_status msg b h)))"

section \<open>Invariant: every online user in one list\<close>

text \<open>
  The bucket against the rosters \<open>R\<close> of its groups: a group has a node exactly while it has
  members, the node's list is the roster, a connection is on one roster and knows the node, and
  the map from users leads to it.
\<close>

definition nodes_ok :: "Bucket \<Rightarrow> heap \<Rightarrow> (int \<Rightarrow> cref list) \<Rightarrow> bool" where
  "nodes_ok b h R \<longleftrightarrow> (\<forall>gid. case b_GroupNode b gid of
       None \<Rightarrow> R gid = []
     | Some g \<Rightarrow> g < h_ngn h \<and> gn_groupId (h_gn h g) = gid \<and> R gid \<noteq> [] \<and> group_ok g h (R gid))"

definition members_ok :: "Bucket \<Rightarrow> heap \<Rightarrow> (int \<Rightarrow> cref list) \<Rightarrow> bool" where
  "members_ok b h R \<longleftrightarrow>
     (\<forall>gid gid' c. c \<in> set (R gid) \<longrightarrow> c \<in> set (R gid') \<longrightarrow> gid = gid')
   \<and> (\<forall>gid c. c \<in> set (R gid) \<longrightarrow> c < h_nch h \<and> b_socketMap b (ch_Userid (h_ch h c)) = Some c
        \<and> (\<exists>g. b_GroupNode b gid = Some g \<and> ch_GroupNodes (h_ch h c) = [g]))
   \<and> (\<forall>u c. b_socketMap b u = Some c \<longrightarrow> c < h_nch h \<and> ch_Userid (h_ch h c) = u
        \<and> ((\<exists>gid. c \<in> set (R gid)) \<or> ch_GroupNodes (h_ch h c) = []))"

definition bucket_ok :: "Bucket \<Rightarrow> heap \<Rightarrow> (int \<Rightarrow> cref list) \<Rightarrow> bool" where
  "bucket_ok b h R \<longleftrightarrow> nodes_ok b h R \<and> members_ok b h R"

text \<open>A connection that no user and no group knows.\<close>

definition fresh_conn :: "Bucket \<Rightarrow> heap \<Rightarrow> (int \<Rightarrow> cref list) \<Rightarrow> cref \<Rightarrow> bool" where
  "fresh_conn b h R c \<longleftrightarrow> c < h_nch h \<and> ch_GroupNodes (h_ch h c) = [] \<and> c \<notin> ran (b_socketMap b)
     \<and> (\<forall>gid. c \<notin> set (R gid))"

lemma group_ok_cong:
  "h_gn h' g = h_gn h g \<Longrightarrow>
   (\<And>c. c \<in> set cs \<Longrightarrow> ch_Prev (h_ch h' c) = ch_Prev (h_ch h c) \<and> ch_Next (h_ch h' c) = ch_Next (h_ch h c)) \<Longrightarrow>
   group_ok g h' cs = group_ok g h cs"
  using dll_cong [of cs h' h] by (simp add: group_ok_def)

lemma nodes_okD:
  "nodes_ok b h R \<Longrightarrow> b_GroupNode b k = None \<Longrightarrow> R k = []"
  "nodes_ok b h R \<Longrightarrow> b_GroupNode b k = Some g \<Longrightarrow>
     g < h_ngn h \<and> gn_groupId (h_gn h g) = k \<and> R k \<noteq> [] \<and> group_ok g h (R k)"
  unfolding nodes_ok_def by (auto dest: spec [of _ k])

text \<open>The node that \<^verbatim>\<open>PutChannel\<close> enters: the group's node, or a new one.\<close>

definition node_for :: "int \<Rightarrow> Bucket \<Rightarrow> heap \<Rightarrow> gref \<times> heap" where
  "node_for gid b h = (case b_GroupNode b gid of Some g \<Rightarrow> (g, h) | None \<Rightarrow> NewGroupNode gid h)"

lemma PutChannel_node:
  "gid \<noteq> NoGroup \<Longrightarrow> node_for gid b h = (g, h1) \<Longrightarrow>
   PutChannel u gid c (b, h) =
     (b\<lparr>b_GroupNode := (b_GroupNode b)(gid \<mapsto> g), b_socketMap := (b_socketMap b)(u \<mapsto> c)\<rparr>,
      Put g c (upd_ch c (\<lambda>ch. ch\<lparr>ch_GroupNodes := ch_GroupNodes ch @ [g], ch_Userid := u\<rparr>) h1))"
  by (auto simp: PutChannel_def PutChannel_locked_def node_for_def upd_ch_def map_upd_triv
      split: option.splits prod.splits)

lemma node_for_ok:
  assumes "nodes_ok b h R" and "node_for gid b h = (g, h1)"
  shows "h_ch h1 = h_ch h \<and> h_nch h1 = h_nch h \<and> g < h_ngn h1 \<and> gn_groupId (h_gn h1 g) = gid \<and> group_ok g h1 (R gid)
     \<and> (\<forall>gid' g'. gid' \<noteq> gid \<longrightarrow> b_GroupNode b gid' = Some g' \<longrightarrow>
           g' \<noteq> g \<and> g' < h_ngn h1 \<and> gn_groupId (h_gn h1 g') = gid' \<and> R gid' \<noteq> [] \<and> group_ok g' h1 (R gid'))"
proof (cases "b_GroupNode b gid")
  case (Some g0)
  then have "g = g0" "h1 = h"
    using assms(2) by (auto simp: node_for_def)
  then show ?thesis
    using assms(1) Some unfolding nodes_ok_def by (auto split: option.splits)
next
  case None
  then have g: "g = h_ngn h" and h1: "h1 = snd (NewGroupNode gid h)"
    using assms(2) by (auto simp: node_for_def NewGroupNode_def)
  have old: "g' < h_ngn h \<and> gn_groupId (h_gn h g') = gid' \<and> R gid' \<noteq> [] \<and> group_ok g' h (R gid')"
    if "b_GroupNode b gid' = Some g'" for gid' g'
    using assms(1) that unfolding nodes_ok_def by (auto dest!: spec [of _ gid'])
  moreover have "R gid = []"
    using assms(1) None unfolding nodes_ok_def by (auto dest!: spec [of _ gid])
  moreover have "group_ok g' h1 cs = group_ok g' h cs" if "g' < h_ngn h" for g' cs
    using that by (intro group_ok_cong) (auto simp: h1 NewGroupNode_def)
  ultimately show ?thesis
    by (auto simp: g h1 NewGroupNode_def group_ok_def dest: old)
qed

lemma members_okD:
  assumes "members_ok b h R"
  shows "d \<in> set (R k) \<Longrightarrow> d \<in> set (R k') \<Longrightarrow> k = k'"
    and "d \<in> set (R k) \<Longrightarrow> d < h_nch h \<and> b_socketMap b (ch_Userid (h_ch h d)) = Some d
        \<and> (\<exists>g. b_GroupNode b k = Some g \<and> ch_GroupNodes (h_ch h d) = [g])"
    and "b_socketMap b v = Some d \<Longrightarrow> d < h_nch h \<and> ch_Userid (h_ch h d) = v \<and> ((\<exists>gid. d \<in> set (R gid)) \<or> ch_GroupNodes (h_ch h d) = [])"
  using assms unfolding members_ok_def by blast+

lemma members_okI:
  assumes "\<And>d k k'. d \<in> set (R k) \<Longrightarrow> d \<in> set (R k') \<Longrightarrow> k = k'"
    and "\<And>d k. d \<in> set (R k) \<Longrightarrow> d < h_nch h \<and> b_socketMap b (ch_Userid (h_ch h d)) = Some d
        \<and> (\<exists>g. b_GroupNode b k = Some g \<and> ch_GroupNodes (h_ch h d) = [g])"
    and "\<And>v d. b_socketMap b v = Some d \<Longrightarrow> d < h_nch h \<and> ch_Userid (h_ch h d) = v
        \<and> ((\<exists>gid. d \<in> set (R gid)) \<or> ch_GroupNodes (h_ch h d) = [])"
  shows "members_ok b h R"
  unfolding members_ok_def using assms by blast

text \<open>An operation on one group leaves the others as they are.\<close>

lemma nodes_ok_change:
  assumes "nodes_ok b h R" and "\<And>k. k \<noteq> gid \<Longrightarrow> b_GroupNode b' k = b_GroupNode b k" "\<And>k. k \<noteq> gid \<Longrightarrow> R' k = R k"
    and "\<And>k g'. k \<noteq> gid \<Longrightarrow> b_GroupNode b k = Some g' \<Longrightarrow> g' < h_ngn h' \<and> gn_groupId (h_gn h' g') = k \<and> group_ok g' h' (R k)"
    and "case b_GroupNode b' gid of None \<Rightarrow> R' gid = []
      | Some g' \<Rightarrow> g' < h_ngn h' \<and> gn_groupId (h_gn h' g') = gid \<and> R' gid \<noteq> [] \<and> group_ok g' h' (R' gid)"
  shows "nodes_ok b' h' R'"
  unfolding nodes_ok_def
proof (intro allI)
  fix k
  show "case b_GroupNode b' k of None \<Rightarrow> R' k = []
    | Some g' \<Rightarrow> g' < h_ngn h' \<and> gn_groupId (h_gn h' g') = k \<and> R' k \<noteq> [] \<and> group_ok g' h' (R' k)"
  proof (cases "k = gid")
    case False
    then show ?thesis
      using assms(2-4) nodes_okD [OF assms(1)] by (auto split: option.splits)
  qed (use assms(5) in \<open>simp split: option.splits\<close>)
qed

lemma members_ok_put:
  assumes "members_ok b h R" and "fresh_conn b h R c" "b_socketMap b u = None"
    and "b_GroupNode b gid = None \<or> b_GroupNode b gid = Some g"
    and h': "\<And>d. ch_Userid (h_ch h' d) = (if d = c then u else ch_Userid (h_ch h d))"
      "\<And>d. ch_GroupNodes (h_ch h' d) = (if d = c then [g] else ch_GroupNodes (h_ch h d))" "h_nch h' = h_nch h"
  shows "members_ok (b\<lparr>b_GroupNode := (b_GroupNode b)(gid \<mapsto> g), b_socketMap := (b_socketMap b)(u \<mapsto> c)\<rparr>) h'
           (R(gid := c # R gid))"
proof -
  have c: "c < h_nch h" "\<And>k. c \<notin> set (R k)" "\<And>v. b_socketMap b v \<noteq> Some c"
    using assms(2) by (auto simp: fresh_conn_def ran_def)
  let ?R = "R(gid := c # R gid)"
  let ?b = "b\<lparr>b_GroupNode := (b_GroupNode b)(gid \<mapsto> g), b_socketMap := (b_socketMap b)(u \<mapsto> c)\<rparr>"
  note m = members_okD [OF assms(1)]
  show ?thesis
  proof (rule members_okI)
    fix d k k' assume "d \<in> set (?R k)" "d \<in> set (?R k')"
    then show "k = k'"
      using m(1) c(2) by (auto split: if_splits)
  next
    fix d k assume d: "d \<in> set (?R k)"
    show "d < h_nch h' \<and> b_socketMap ?b (ch_Userid (h_ch h' d)) = Some d \<and> (\<exists>g'. b_GroupNode ?b k = Some g' \<and> ch_GroupNodes (h_ch h' d) = [g'])"
    proof (cases "d = c")
      case True
      then show ?thesis
        using d c by (auto simp: h' split: if_splits)
    next
      case False
      then have dk: "d \<in> set (R k)"
        using d by (auto split: if_splits)
      then have "ch_Userid (h_ch h d) \<noteq> u"
        using m(2) assms(3) by fastforce
      then show ?thesis
        using m(2) [OF dk] False assms(4) by (auto simp: h')
    qed
  next
    fix v d assume d: "b_socketMap ?b v = Some d"
    have "d \<in> set (?R gid)" if "d = c"
      using that by simp
    moreover have "d \<in> set (?R k)" if "d \<in> set (R k)" for k
      using that by auto
    moreover have "d \<in> set (R k) \<or> d = c" if "d \<in> set (?R k)" for k
      using that by (auto split: if_splits)
    ultimately have ex: "(\<exists>k. d \<in> set (?R k)) \<longleftrightarrow> d = c \<or> (\<exists>k. d \<in> set (R k))"
      by blast
    show "d < h_nch h' \<and> ch_Userid (h_ch h' d) = v \<and> ((\<exists>k. d \<in> set (?R k)) \<or> ch_GroupNodes (h_ch h' d) = [])"
      using d m(3) [of v d] c(1,3) unfolding ex h' by (cases "v = u") auto
  qed
qed

lemma PutChannel_ok:
  assumes ok: "bucket_ok b h R" and new: "fresh_conn b h R c" "b_socketMap b u = None" and gid: "gid \<noteq> NoGroup"
    and put: "PutChannel u gid c (b, h) = (b', h')"
  shows "bucket_ok b' h' (R(gid := c # R gid))"
proof -
  obtain g h1 where nf: "node_for gid b h = (g, h1)"
    by (cases "node_for gid b h")
  note n1 = node_for_ok [OF _ nf, of R]
  define h2 where "h2 = upd_ch c (\<lambda>ch. ch\<lparr>ch_GroupNodes := ch_GroupNodes ch @ [g], ch_Userid := u\<rparr>) h1"
  have b': "b' = b\<lparr>b_GroupNode := (b_GroupNode b)(gid \<mapsto> g), b_socketMap := (b_socketMap b)(u \<mapsto> c)\<rparr>"
    and h': "h' = Put g c h2"
    using put by (simp_all add: PutChannel_node [OF gid nf] h2_def)
  have nok: "nodes_ok b h R" and mok: "members_ok b h R"
    using ok by (simp_all add: bucket_ok_def)
  have cong: "group_ok g' h2 cs = group_ok g' h1 cs" for g' cs
    by (rule group_ok_cong) (auto simp: h2_def)
  have c: "c \<notin> set (R gid')" for gid'
    using new(1) by (simp add: fresh_conn_def)
  have ok2: "group_ok g h2 (R gid)"
    using n1 [OF nok] by (simp add: cong)
  have "nodes_ok b' h' (R(gid := c # R gid))"
  proof (rule nodes_ok_change [OF nok, of gid])
    fix k g' assume k: "k \<noteq> gid" "b_GroupNode b k = Some g'"
    then have g': "g' \<noteq> g" "g' < h_ngn h2" "gn_groupId (h_gn h2 g') = k" "group_ok g' h2 (R k)"
      using n1 [OF nok] unfolding cong by (simp_all add: h2_def)
    moreover have "set (R gid) \<inter> set (R k) = {}"
      using members_okD(1) [OF mok] k(1) by blast
    ultimately show "g' < h_ngn h' \<and> gn_groupId (h_gn h' g') = k \<and> group_ok g' h' (R k)"
      using c Put_frame [OF _ ok2] by (auto simp: h' Put_keeps)
  next
    have "g < h_ngn h2" "gn_groupId (h_gn h2 g) = gid"
      using n1 [OF nok] by (simp_all add: h2_def)
    then show "case b_GroupNode b' gid of None \<Rightarrow> (R(gid := c # R gid)) gid = []
      | Some g' \<Rightarrow> g' < h_ngn h' \<and> gn_groupId (h_gn h' g') = gid \<and> (R(gid := c # R gid)) gid \<noteq> [] \<and> group_ok g' h' ((R(gid := c # R gid)) gid)"
      using Put_group_ok [OF ok2 c] by (simp add: b' h' Put_keeps)
  qed (simp_all add: b')
  moreover have "members_ok b' h' (R(gid := c # R gid))"
    unfolding b'
  proof (rule members_ok_put [OF mok new])
    show "b_GroupNode b gid = None \<or> b_GroupNode b gid = Some g"
      using nf by (auto simp: node_for_def split: option.splits)
    have "h_ch h1 = h_ch h" "h_nch h1 = h_nch h" "ch_GroupNodes (h_ch h c) = []"
      using n1 [OF nok] new(1) by (simp_all add: fresh_conn_def)
    then show "ch_Userid (h_ch h' d) = (if d = c then u else ch_Userid (h_ch h d))"
      "ch_GroupNodes (h_ch h' d) = (if d = c then [g] else ch_GroupNodes (h_ch h d))" "h_nch h' = h_nch h" for d
      by (simp_all add: h' Put_keeps h2_def)
  qed
  ultimately show ?thesis
    by (simp add: bucket_ok_def)
qed
lemma DeleteChanel_node:
  assumes "b_socketMap b (ch_Userid (h_ch h c)) = Some c" and "ch_GroupNodes (h_ch h c) = [g]"
  shows "DeleteChanel c (b, h) =
     (b\<lparr>b_socketMap := (b_socketMap b)(ch_Userid (h_ch h c) := None),
        b_GroupNode := (if fst (DeleteChannel g c h) then (b_GroupNode b)(gn_groupId (h_gn h g) := None)
                        else b_GroupNode b)\<rparr>,
      snd (DeleteChannel g c h))"
proof -
  obtain dr h' where d: "DeleteChannel g c h = (dr, h')"
    by (cases "DeleteChannel g c h")
  have "gn_drop (h_gn h' g) = dr" "gn_groupId (h_gn h' g) = gn_groupId (h_gn h g)"
    using d DeleteChannel_keeps(6) [of g c h g] by (auto simp: DeleteChannel_def Let_def)
  then show ?thesis
    using assms d by (simp add: DeleteChanel_def)
qed

lemma members_ok_delete:
  assumes "members_ok b h R" and c: "c \<in> set (R gid)" and "distinct (R gid)" and g: "b_GroupNode b gid = Some g"
    and h': "\<And>d. ch_Userid (h_ch h' d) = ch_Userid (h_ch h d)" "\<And>d. ch_GroupNodes (h_ch h' d) = ch_GroupNodes (h_ch h d)"
      "h_nch h' = h_nch h"
    and b': "b_socketMap b' = (b_socketMap b)(ch_Userid (h_ch h c) := None)"
      "b_GroupNode b' = (if R gid = [c] then (b_GroupNode b)(gid := None) else b_GroupNode b)"
  shows "members_ok b' h' (R(gid := remove1 c (R gid)))"
proof -
  note m = members_okD [OF assms(1)]
  have mem: "d \<in> set ((R(gid := remove1 c (R gid))) k) \<longleftrightarrow> d \<in> set (R k) \<and> d \<noteq> c" for d k
    using m(1) [OF c, of k] \<open>distinct (R gid)\<close> by auto
  show ?thesis
  proof (rule members_okI)
    fix d k assume "d \<in> set ((R(gid := remove1 c (R gid))) k)"
    then have d: "d \<in> set (R k)" "d \<noteq> c"
      unfolding mem by simp_all
    then have "R k \<noteq> [c]" "ch_Userid (h_ch h d) \<noteq> ch_Userid (h_ch h c)"
      using m(2) [OF d(1)] m(2) [OF c] by auto
    then show "d < h_nch h' \<and> b_socketMap b' (ch_Userid (h_ch h' d)) = Some d
        \<and> (\<exists>g'. b_GroupNode b' k = Some g' \<and> ch_GroupNodes (h_ch h' d) = [g'])"
      using m(2) [OF d(1)] unfolding b' h' by auto
  next
    fix v d assume "b_socketMap b' v = Some d"
    then have v: "b_socketMap b v = Some d" "v \<noteq> ch_Userid (h_ch h c)"
      by (auto simp: b' split: if_splits)
    then have "d \<noteq> c"
      using m(3) [OF v(1)] by auto
    then show "d < h_nch h' \<and> ch_Userid (h_ch h' d) = v
        \<and> ((\<exists>k. d \<in> set ((R(gid := remove1 c (R gid))) k)) \<or> ch_GroupNodes (h_ch h' d) = [])"
      using m(3) [OF v(1)] unfolding mem h' by blast
  qed (use m(1) mem in blast)
qed

lemma DeleteChanel_ok:
  assumes ok: "bucket_ok b h R" and c: "c \<in> set (R gid)" and del: "DeleteChanel c (b, h) = (b', h')"
  shows "bucket_ok b' h' (R(gid := remove1 c (R gid)))"
proof -
  have nok: "nodes_ok b h R" and mok: "members_ok b h R"
    using ok by (simp_all add: bucket_ok_def)
  obtain g where g: "b_GroupNode b gid = Some g" "ch_GroupNodes (h_ch h c) = [g]"
    and u: "b_socketMap b (ch_Userid (h_ch h c)) = Some c"
    using mok c unfolding members_ok_def by blast
  have gok: "group_ok g h (R gid)" "gn_groupId (h_gn h g) = gid"
    using nodes_okD(2) [OF nok g(1)] by simp_all
  note rem = DeleteChannel_group_ok [OF gok(1) c]
  have last: "remove1 c (R gid) = [] \<longleftrightarrow> R gid = [c]"
    using c by (cases "R gid") auto
  have h': "h' = snd (DeleteChannel g c h)"
    and b': "b_socketMap b' = (b_socketMap b)(ch_Userid (h_ch h c) := None)"
      "b_GroupNode b' = (if R gid = [c] then (b_GroupNode b)(gid := None) else b_GroupNode b)"
    using del rem gok(2) by (auto simp: DeleteChanel_node [OF u g(2)] last)
  have "nodes_ok b' h' (R(gid := remove1 c (R gid)))"
  proof (rule nodes_ok_change [OF nok, of gid])
    fix k g' assume k: "k \<noteq> gid" "b_GroupNode b k = Some g'"
    note g' = nodes_okD(2) [OF nok k(2)]
    have "set (R gid) \<inter> set (R k) = {}"
      using members_okD(1) [OF mok] k(1) by blast
    moreover have "g' \<noteq> g"
      using g' gok(2) k(1) by auto
    ultimately have "group_ok g' h' (R k)"
      unfolding h' using g' gok(1) c by (intro DeleteChannel_frame [of g' h "R k" g "R gid"]) auto
    then show "g' < h_ngn h' \<and> gn_groupId (h_gn h' g') = k \<and> group_ok g' h' (R k)"
      using g' by (simp add: h' DeleteChannel_keeps)
  next
    show "case b_GroupNode b' gid of None \<Rightarrow> (R(gid := remove1 c (R gid))) gid = []
      | Some g' \<Rightarrow> g' < h_ngn h' \<and> gn_groupId (h_gn h' g') = gid \<and> (R(gid := remove1 c (R gid))) gid \<noteq> []
          \<and> group_ok g' h' ((R(gid := remove1 c (R gid))) gid)"
      using nodes_okD(2) [OF nok g(1)] rem g(1) by (simp add: b' last h' DeleteChannel_keeps)
  qed (simp_all add: b')
  moreover have "distinct (R gid)"
    using gok(1) by (simp add: group_ok_def)
  then have "members_ok b' h' (R(gid := remove1 c (R gid)))"
    by (rule members_ok_delete [OF mok c _ g(1)]) (simp_all add: h' DeleteChannel_keeps b')
  ultimately show ?thesis
    by (simp add: bucket_ok_def)
qed

section \<open>Delivery\<close>

text \<open>Messages in buffers and connections that nobody uses yet do not matter.\<close>

lemma bucket_ok_frame:
  assumes "bucket_ok b h R" and h': "h_gn h' = h_gn h" "h_ngn h' = h_ngn h" "h_nch h \<le> h_nch h'"
    and c: "\<And>d. d < h_nch h \<Longrightarrow> ch_Prev (h_ch h' d) = ch_Prev (h_ch h d) \<and> ch_Next (h_ch h' d) = ch_Next (h_ch h d)
        \<and> ch_Userid (h_ch h' d) = ch_Userid (h_ch h d) \<and> ch_GroupNodes (h_ch h' d) = ch_GroupNodes (h_ch h d)"
  shows "bucket_ok b h' R"
proof -
  have nok: "nodes_ok b h R" and mok: "members_ok b h R"
    using assms(1) by (simp_all add: bucket_ok_def)
  have lt: "d < h_nch h" if "d \<in> set (R k)" for d k
    using mok that unfolding members_ok_def by blast
  have "group_ok g h' (R k) = group_ok g h (R k)" for g k
    using c lt h'(1) by (intro group_ok_cong) auto
  then have "nodes_ok b h' R"
    using nok unfolding nodes_ok_def h' by presburger
  moreover have "members_ok b h' R"
    unfolding members_ok_def
  proof (intro conjI allI impI)
    fix k d
    assume "d \<in> set (R k)"
    then have "d < h_nch h \<and> b_socketMap b (ch_Userid (h_ch h d)) = Some d
        \<and> (\<exists>g. b_GroupNode b k = Some g \<and> ch_GroupNodes (h_ch h d) = [g])"
      using mok unfolding members_ok_def by blast
    then show "d < h_nch h'" "b_socketMap b (ch_Userid (h_ch h' d)) = Some d"
      "\<exists>g. b_GroupNode b k = Some g \<and> ch_GroupNodes (h_ch h' d) = [g]"
      using h'(3) c by auto
  next
    fix u d
    assume "b_socketMap b u = Some d"
    then have "d < h_nch h \<and> ch_Userid (h_ch h d) = u \<and> ((\<exists>gid. d \<in> set (R gid)) \<or> ch_GroupNodes (h_ch h d) = [])"
      using mok unfolding members_ok_def by blast
    then show "d < h_nch h'" "ch_Userid (h_ch h' d) = u"
      "(\<exists>gid. d \<in> set (R gid)) \<or> ch_GroupNodes (h_ch h' d) = []"
      using h'(3) c by auto
  next
    fix k k' d
    assume "d \<in> set (R k)" "d \<in> set (R k')"
    then show "k = k'"
      using mok unfolding members_ok_def by blast
  qed
  ultimately show ?thesis
    by (simp add: bucket_ok_def)
qed

lemma bucket_ok_sent: "sends send f \<Longrightarrow> bucket_ok b h R \<Longrightarrow> bucket_ok b (sent f cs h) R"
  by (erule bucket_ok_frame) (auto simp: sends_def)

lemma bucket_okD:
  "bucket_ok b h R \<Longrightarrow> b_GroupNode b k = None \<Longrightarrow> R k = []"
  "bucket_ok b h R \<Longrightarrow> b_GroupNode b k = Some g \<Longrightarrow> group_ok g h (R k)"
  by (auto simp: bucket_ok_def dest: nodes_okD)

lemma node_push:
  assumes "bucket_ok b h R"
  shows "\<exists>h'. (case GetGroupNode gid b of Some g \<Rightarrow> PushGroupMsg g msg h | None \<Rightarrow> Some h) = Some h'
     \<and> bucket_ok b h' R
     \<and> (\<forall>c. msg_box h' c = (if c \<in> set (R gid) then accept msg (msg_box h c) else msg_box h c))"
proof (cases "b_GroupNode b gid")
  case None
  then have "R gid = []"
    using assms bucket_okD(1) by blast
  then show ?thesis
    using assms None by (simp add: GetGroupNode_def)
next
  case (Some g)
  let ?f = "\<lambda>ch. ch\<lparr>ch_BroadcastMsg := offer (ch_size ch) msg (ch_BroadcastMsg ch)\<rparr>"
  have "group_ok g h (R gid)"
    using assms Some by (rule bucket_okD(2))
  then have "PushGroupMsg g msg h = Some (sent ?f (R gid) h)"
    using push_loop_group [OF sends_Push(1)] by (simp add: PushGroupMsg_def)
  moreover have "bucket_ok b (sent ?f (R gid) h) R"
    by (rule bucket_ok_sent [OF sends_Push(1) assms])
  ultimately show ?thesis
    using Some by (auto simp: GetGroupNode_def msg_box_def accept_def)
qed

text \<open>
  C6: a group message as the connect layer puts it on a queue is decoded, finds the group it
  is addressed to, and is put into the buffers of exactly the members of that group that are
  connected to the bucket; the worker always comes back.
\<close>
theorem bucket_delivery:
  assumes "bucket_ok b h R" and "pgm_Op m = OpGroupMsgSend" and "int64_range (pgm_GroupId m)"
    and "km_Value msg = json_print (enc_PushGroupMsgReq_Msg m)"
  shows "\<exists>h'. handle_group_msg msg b h = Some h' \<and> bucket_ok b h' R
     \<and> (\<forall>c. ch_BroadcastMsg (h_ch h' c) =
           (if c \<in> set (R (pgm_GroupId m)) then offer (ch_size (h_ch h c)) msg (ch_BroadcastMsg (h_ch h c))
            else ch_BroadcastMsg (h_ch h c)))"
proof -
  have "ms_Op (fst (Unmarshal dec_MsgSend (km_Value msg) zero_MsgSend)) = OpGroupMsgSend"
    "gm_GroupId (fst (Unmarshal dec_GroupMsg (km_Value msg) zero_GroupMsg)) = pgm_GroupId m"
    unfolding assms(4) using assms(2,3)
    by (simp_all add: group_msg_op group_msg_gid op_defs zero_MsgSend_def zero_GroupMsg_def int64_range_def del: Unmarshal_print)
  then have *: "handle_group_msg msg b h =
      (case GetGroupNode (pgm_GroupId m) b of Some g \<Rightarrow> PushGroupMsg g msg h | None \<Rightarrow> Some h)"
    by (simp add: handle_group_msg_def)
  obtain h' where "handle_group_msg msg b h = Some h'" "bucket_ok b h' R"
    and box: "\<forall>c. msg_box h' c = (if c \<in> set (R (pgm_GroupId m)) then accept msg (msg_box h c) else msg_box h c)"
    using node_push [OF assms(1)] unfolding * by blast
  moreover have "ch_BroadcastMsg (h_ch h' c) =
     (if c \<in> set (R (pgm_GroupId m)) then offer (ch_size (h_ch h c)) msg (ch_BroadcastMsg (h_ch h c))
      else ch_BroadcastMsg (h_ch h c))" for c
    using spec [OF box, of c] by (simp add: msg_box_def accept_def split: if_splits)
  ultimately show ?thesis by blast
qed

lemma node_push_status:
  assumes "bucket_ok b h R"
  shows "\<exists>h'. (case GetGroupNode gid b of Some g \<Rightarrow> PushGroupStatusMsg g msg h | None \<Rightarrow> Some h) = Some h'
     \<and> bucket_ok b h' R"
proof (cases "b_GroupNode b gid")
  case (Some g)
  let ?f = "\<lambda>ch. ch\<lparr>ch_BroadcastStatus := offer (ch_size ch) msg (ch_BroadcastStatus ch)\<rparr>"
  have "group_ok g h (R gid)"
    using assms Some by (rule bucket_okD(2))
  then have "PushGroupStatusMsg g msg h = Some (sent ?f (R gid) h)"
    using push_loop_group [OF sends_Push(2)] by (simp add: PushGroupStatusMsg_def)
  moreover have "bucket_ok b (sent ?f (R gid) h) R"
    by (rule bucket_ok_sent [OF sends_Push(2) assms])
  ultimately show ?thesis
    using Some by (auto simp: GetGroupNode_def)
qed (use assms in \<open>simp add: GetGroupNode_def\<close>)

lemma handle_group_msg_ok: "bucket_ok b h R \<Longrightarrow> \<exists>h'. handle_group_msg msg b h = Some h' \<and> bucket_ok b h' R"
  using node_push [of b h R] unfolding handle_group_msg_def Let_def by (metis (mono_tags))

lemma handle_group_status_ok: "bucket_ok b h R \<Longrightarrow> \<exists>h'. handle_group_status msg b h = Some h' \<and> bucket_ok b h' R"
  using node_push_status [of b h R] unfolding handle_group_status_def Let_def by (metis (mono_tags))

section \<open>Histories in which the rosters hold\<close>

text \<open>
  The histories in which the bucket and the rosters of its groups agree: a client connects with a
  connection of its own, once, as a member of one group, and disconnects; messages arrive on
  the queues and the workers take them off, in any order. The code allows more: \<^verbatim>\<open>readPump\<close> enters a
  connection in all groups of the user, and a join is not atomic. What holds in every history is shown in the theory
  \<open>ConnectRun\<close>, and where the rosters are lost in \<open>second_group_cuts_first\<close>, \<open>second_group_leaks\<close>
  and \<open>put_delete_race\<close>.
\<close>

inductive one_group_run :: "Bucket \<Rightarrow> heap \<Rightarrow> (int \<Rightarrow> cref list) \<Rightarrow> bool" where
  start: "NewBucket opts = Some b \<Longrightarrow> one_group_run b h (\<lambda>_. [])"
| accept_conn: "one_group_run b h R \<Longrightarrow> NewChannel n h = Some (c, h') \<Longrightarrow> one_group_run b h' R"
| connect: "one_group_run b h R \<Longrightarrow> fresh_conn b h R c \<Longrightarrow> b_socketMap b u = None \<Longrightarrow> gid \<noteq> NoGroup \<Longrightarrow>
    PutChannel u gid c (b, h) = (b', h') \<Longrightarrow> one_group_run b' h' (R(gid := c # R gid))"
| disconnect: "one_group_run b h R \<Longrightarrow> c \<in> set (R gid) \<Longrightarrow> DeleteChanel c (b, h) = (b', h') \<Longrightarrow>
    one_group_run b' h' (R(gid := remove1 c (R gid)))"
| broadcast: "one_group_run b h R \<Longrightarrow> BroadcastRoom msg b = Sent b' \<Longrightarrow> one_group_run b' h R"
| broadcast_status: "one_group_run b h R \<Longrightarrow> BroadcastStatusRoom st b = Sent b' \<Longrightarrow> one_group_run b' h R"
| worker: "one_group_run b h R \<Longrightarrow> PushGroupMsg_step i (b, h) = Some (b', h') \<Longrightarrow> one_group_run b' h' R"
| status_worker: "one_group_run b h R \<Longrightarrow> PushGroupStatus_step i (b, h) = Some (b', h') \<Longrightarrow> one_group_run b' h' R"

lemma bucket_ok_maps:
  "b_socketMap b' = b_socketMap b \<Longrightarrow> b_GroupNode b' = b_GroupNode b \<Longrightarrow> bucket_ok b' h R = bucket_ok b h R"
  by (simp add: bucket_ok_def nodes_ok_def members_ok_def)

lemma BroadcastRoom_maps:
  "BroadcastRoom msg b = Sent b' \<Longrightarrow> b_socketMap b' = b_socketMap b \<and> b_GroupNode b' = b_GroupNode b"
  "BroadcastStatusRoom st b = Sent b' \<Longrightarrow> b_socketMap b' = b_socketMap b \<and> b_GroupNode b' = b_GroupNode b"
  by (auto simp: BroadcastRoom_def BroadcastStatusRoom_def Let_def split: if_splits option.splits)

lemma NewChannel_bucket_ok: "bucket_ok b h R \<Longrightarrow> NewChannel n h = Some (c, h') \<Longrightarrow> bucket_ok b h' R"
  by (erule bucket_ok_frame) (auto simp: NewChannel_def split: if_splits)

lemma worker_ok:
  assumes "bucket_ok b h R"
  shows "\<exists>b' h'. PushGroupMsg_step i (b, h) = Some (b', h') \<and> bucket_ok b' h' R"
    and "\<exists>b' h'. PushGroupStatus_step i (b, h) = Some (b', h') \<and> bucket_ok b' h' R"
proof -
  show "\<exists>b' h'. PushGroupMsg_step i (b, h) = Some (b', h') \<and> bucket_ok b' h' R"
  proof (cases "b_routines b ! i")
    case (Cons msg q)
    then show ?thesis
      using handle_group_msg_ok [OF assms, of msg] bucket_ok_maps [of "b\<lparr>b_routines := (b_routines b)[i := q]\<rparr>" b]
      by (auto simp: PushGroupMsg_step_def)
  qed (use assms in \<open>simp add: PushGroupMsg_step_def\<close>)
  show "\<exists>b' h'. PushGroupStatus_step i (b, h) = Some (b', h') \<and> bucket_ok b' h' R"
  proof (cases "b_statusRoutines b ! i")
    case (Cons msg q)
    then show ?thesis
      using handle_group_status_ok [OF assms, of msg]
        bucket_ok_maps [of "b\<lparr>b_statusRoutines := (b_statusRoutines b)[i := q]\<rparr>" b]
      by (auto simp: PushGroupStatus_step_def)
  qed (use assms in \<open>simp add: PushGroupStatus_step_def\<close>)
qed

lemma one_group_run_ok: "one_group_run b h R \<Longrightarrow> bucket_ok b h R"
proof (induction rule: one_group_run.induct)
  case (start opts b h)
  then show ?case
    by (auto simp: NewBucket_def bucket_ok_def nodes_ok_def members_ok_def Let_def split: if_splits)
next
  case (broadcast b h R msg b')
  then show ?case
    using BroadcastRoom_maps(1) bucket_ok_maps by blast
next
  case (broadcast_status b h R st b')
  then show ?case
    using BroadcastRoom_maps(2) bucket_ok_maps by blast
next
  case (worker b h R i b' h')
  then show ?case
    using worker_ok(1) [of b h R i] by auto
next
  case (status_worker b h R i b' h')
  then show ?case
    using worker_ok(2) [of b h R i] by auto
qed (rule NewChannel_bucket_ok PutChannel_ok DeleteChanel_ok; assumption)+

section \<open>Fair use of the queues\<close>

text \<open>
  The counter is a 64-bit word; the number of queues divides \<open>2 ^ 64\<close>, so the turn goes round
  without a gap when the counter overflows.
\<close>

definition queue_turn :: "Bucket \<Rightarrow> nat" where
  "queue_turn b = unat ((b_routineIdx b + 1) mod b_routineNum b)"

definition queue_step :: "Bucket \<Rightarrow> Bucket" where
  "queue_step b = b\<lparr>b_routineIdx := b_routineIdx b + 1\<rparr>"

definition queues_ok :: "nat \<Rightarrow> Bucket \<Rightarrow> bool" where
  "queues_ok n b \<longleftrightarrow> 0 < n \<and> n < 2 ^ 64 \<and> n dvd 2 ^ 64 \<and> b_routineNum b = of_nat n \<and> length (b_routines b) = n"

lemma queue_turn_nat: "queues_ok n b \<Longrightarrow> queue_turn b = unat (b_routineIdx b + 1) mod n"
  by (simp add: queue_turn_def queues_ok_def unat_mod unat_less_word_imp_of_nat)

interpretation queues: round_robin queues_ok queue_turn queue_step
proof
  fix n b
  assume ok: "queues_ok n b"
  then show "0 < n" "queues_ok n (queue_step b)"
    by (simp_all add: queues_ok_def queue_step_def)
  then show "queue_turn b < n"
    using ok by (simp add: queue_turn_nat)
  have d: "n dvd 2 ^ 64"
    using ok by (simp add: queues_ok_def)
  have "unat (w + 1) mod n = (unat w mod n + 1) mod n" for w :: uint64
    using d by (simp add: unat_word_ariths mod_mod_cancel mod_Suc_eq)
  then show "queue_turn (queue_step b) = (queue_turn b + 1) mod n"
    using ok \<open>queues_ok n (queue_step b)\<close> by (simp only: queue_turn_nat) (simp add: queue_step_def)
qed

lemma BroadcastRoom_turn:
  "queues_ok n b \<Longrightarrow> BroadcastRoom msg b =
     (let q = b_routines b ! queue_turn b
      in if length q < b_routineSize b
         then Sent ((queue_step b)\<lparr>b_routines := (b_routines b)[queue_turn b := q @ [msg]]\<rparr>)
         else Waiting (queue_turn b) (queue_step b))"
proof -
  assume ok: "queues_ok n b"
  then have "b_routineNum b \<noteq> 0"
    by (auto simp: queues_ok_def word_unat_eq_iff unat_less_word_imp_of_nat)
  then show ?thesis
    using queues.turn_less [OF ok] ok
    by (simp add: BroadcastRoom_def Let_def queue_turn_def queue_step_def queues_ok_def)
qed

text \<open>A run of broadcasts none of which has to wait.\<close>

fun broadcast_all :: "KafkaMessage list \<Rightarrow> Bucket \<Rightarrow> Bucket option" where
  "broadcast_all [] b = Some b"
| "broadcast_all (m # ms) b = (case BroadcastRoom m b of Sent b' \<Rightarrow> broadcast_all ms b' | _ \<Rightarrow> None)"

lemma BroadcastRoom_room:
  assumes ok: "queues_ok n b" and room: "length (b_routines b ! queue_turn b) < b_routineSize b"
  obtains b1 where "BroadcastRoom m b = Sent b1" "queues_ok n b1" "b_routineSize b1 = b_routineSize b" "queue_turn b1 = (queue_turn b + 1) mod n"
    "\<And>i. i < n \<Longrightarrow> b_routines b1 ! i = (if i = queue_turn b then b_routines b ! queue_turn b @ [m] else b_routines b ! i)"
proof -
  define b1 where "b1 = (queue_step b)\<lparr>b_routines := (b_routines b)[queue_turn b := b_routines b ! queue_turn b @ [m]]\<rparr>"
  have "BroadcastRoom m b = Sent b1"
    using room by (simp add: BroadcastRoom_turn [OF ok] b1_def)
  moreover have "queues_ok n b1" "b_routineSize b1 = b_routineSize b" "length (b_routines b) = n"
    using ok by (simp_all add: queues_ok_def b1_def queue_step_def)
  moreover have "queue_turn b1 = queue_turn (queue_step b)"
    by (simp add: queue_turn_def b1_def)
  ultimately show ?thesis
    using that [of b1] queues.turn_step [OF ok] by (simp add: b1_def nth_list_update)
qed

lemma turn_ahead:
  assumes "queues_ok n b" and "Suc j < n"
  shows "(queue_turn b + Suc j) mod n \<noteq> queue_turn b"
proof -
  have "queue_turn ((queue_step ^^ Suc j) b) \<noteq> queue_turn ((queue_step ^^ 0) b)"
    using queues.turns_distinct [OF assms(1), of "Suc j" 0] assms(2) by fastforce
  then show ?thesis
    unfolding queues.turn_steps [OF assms(1)] using queues.turn_less [OF assms(1)] by simp
qed

lemma broadcast_all_queues:
  "queues_ok n b \<Longrightarrow> length ms \<le> n \<Longrightarrow>
   (\<And>j. j < length ms \<Longrightarrow> length (b_routines b ! ((queue_turn b + j) mod n)) < b_routineSize b) \<Longrightarrow>
   \<exists>b'. broadcast_all ms b = Some b' \<and> queues_ok n b' \<and>
     (\<forall>j<length ms. b_routines b' ! ((queue_turn b + j) mod n) = b_routines b ! ((queue_turn b + j) mod n) @ [ms ! j]) \<and>
     (\<forall>i<n. (\<forall>j<length ms. (queue_turn b + j) mod n \<noteq> i) \<longrightarrow> b_routines b' ! i = b_routines b ! i)"
proof (induction ms arbitrary: b)
  case (Cons m ms)
  let ?t = "queue_turn b"
  note ok = Cons.prems(1)
  have t: "?t < n" using queues.turn_less [OF ok] .
  obtain b1 where sent: "BroadcastRoom m b = Sent b1" and ok1: "queues_ok n b1" and len: "b_routineSize b1 = b_routineSize b"
    and t1: "queue_turn b1 = (?t + 1) mod n"
    and r1: "\<And>i. i < n \<Longrightarrow> b_routines b1 ! i = (if i = ?t then b_routines b ! ?t @ [m] else b_routines b ! i)"
    using BroadcastRoom_room [OF ok, of m] Cons.prems(3) [of 0] t by (metis add.right_neutral length_greater_0_conv list.distinct(1) mod_less)
  have nxt: "(queue_turn b1 + j) mod n = (?t + Suc j) mod n" for j
    unfolding t1 by (simp add: mod_Suc_eq mod_add_left_eq)
  have ne: "(?t + Suc j) mod n \<noteq> ?t" if "j < length ms" for j
    using turn_ahead [OF ok, of j] that Cons.prems(2) by simp
  have r1': "b_routines b1 ! ((?t + Suc j) mod n) = b_routines b ! ((?t + Suc j) mod n)" if "j < length ms" for j
    using r1 [of "(?t + Suc j) mod n"] ne [OF that] t by simp
  have room: "length (b_routines b1 ! ((queue_turn b1 + j) mod n)) < b_routineSize b1" if "j < length ms" for j
    unfolding nxt r1' [OF that] len using that by (intro Cons.prems(3)) simp
  have "length ms \<le> n"
    using Cons.prems(2) by simp
  from Cons.IH [OF ok1 this room] obtain b' where b': "broadcast_all ms b1 = Some b'" "queues_ok n b'"
    and eq1: "\<forall>j<length ms. b_routines b' ! ((?t + Suc j) mod n) = b_routines b1 ! ((?t + Suc j) mod n) @ [ms ! j]"
    and rest: "\<forall>i<n. (\<forall>j<length ms. (?t + Suc j) mod n \<noteq> i) \<longrightarrow> b_routines b' ! i = b_routines b1 ! i"
    unfolding nxt by blast
  have eq: "b_routines b' ! ((?t + Suc j) mod n) = b_routines b ! ((?t + Suc j) mod n) @ [ms ! j]" if "j < length ms" for j
    using eq1 that by (simp only: r1')
  have hd: "b_routines b' ! ?t = b_routines b ! ?t @ [m]"
    using rest t ne r1 [OF t] by simp
  have "b_routines b' ! ((?t + j) mod n) = b_routines b ! ((?t + j) mod n) @ [(m # ms) ! j]"
    if "j < length (m # ms)" for j
    using that eq hd t by (cases j) auto
  moreover have "b_routines b' ! i = b_routines b ! i" if "i < n" "\<forall>j<length (m # ms). (?t + j) mod n \<noteq> i" for i
  proof -
    have "i \<noteq> ?t" "\<forall>j<length ms. (?t + Suc j) mod n \<noteq> i"
      using spec [OF that(2), of 0] that(2) t by auto
    then show ?thesis using rest that(1) r1 [OF that(1)] by simp
  qed
  ultimately show ?case
    using b' sent by auto
qed simp

text \<open>
  As many consecutive messages as the bucket has queues go to that many different queues,
  one message each, wherever the counter stands and also when it overflows in between.
\<close>
theorem broadcast_fair:
  assumes "queues_ok n b" and "length ms = n" and "\<forall>q \<in> set (b_routines b). length q < b_routineSize b"
  shows "\<exists>b'. broadcast_all ms b = Some b' \<and>
     (\<forall>i<n. \<exists>j<n. b_routines b' ! i = b_routines b ! i @ [ms ! j])"
proof -
  have "length (b_routines b ! ((queue_turn b + j) mod n)) < b_routineSize b" for j
    using assms by (auto simp: queues_ok_def)
  then obtain b' where b': "broadcast_all ms b = Some b'"
    and eq: "\<forall>j<n. b_routines b' ! ((queue_turn b + j) mod n) = b_routines b ! ((queue_turn b + j) mod n) @ [ms ! j]"
    using broadcast_all_queues [OF assms(1), of ms] assms(2) by auto
  have "\<exists>j<n. b_routines b' ! i = b_routines b ! i @ [ms ! j]" if "i < n" for i
    using queues.turns_all [OF assms(1) that] eq by (auto simp: queues.turn_steps [OF assms(1)])
  then show ?thesis
    using b' by blast
qed

section \<open>A join that races with the last leave\<close>

text \<open>
  Between the release of the bucket's lock and the entry into the group node, the last
  member of the group can disconnect. The node is then removed from the bucket although the new
  member enters it: the member is online and no message of its group reaches it.
\<close>
theorem put_delete_race:
  assumes "bucket_ok b h R" and "R gid = [c]" and "fresh_conn b h R d" and "b_socketMap b u = None"
    and "gid \<noteq> NoGroup"
    and "PutChannel_locked u gid d (b, h) = (node, b1, h1)" and "DeleteChanel c (b1, h1) = (b2, h2)"
  shows "\<exists>g. node = Some g \<and> gn_OnlineCount (h_gn (Put g d h2) g) = 1 \<and> b_socketMap b2 u = Some d
     \<and> b_GroupNode b2 gid = None"
proof -
  have nok: "nodes_ok b h R" and mok: "members_ok b h R"
    using assms(1) by (simp_all add: bucket_ok_def)
  obtain g where g: "b_GroupNode b gid = Some g" "ch_GroupNodes (h_ch h c) = [g]"
    and s: "b_socketMap b (ch_Userid (h_ch h c)) = Some c"
    using mok assms(2) unfolding members_ok_def by (metis list.set_intros(1))
  have gok: "group_ok g h [c]" "gn_groupId (h_gn h g) = gid"
    using nodes_okD(2) [OF nok g(1)] assms(2) by simp_all
  have ne: "ch_Userid (h_ch h c) \<noteq> u" "c \<noteq> d"
    using s assms(3,4) by (auto simp: fresh_conn_def ran_def)
  have h1: "h1 = upd_ch d (\<lambda>ch. ch\<lparr>ch_Userid := u\<rparr>) (upd_ch d (\<lambda>ch. ch\<lparr>ch_GroupNodes := ch_GroupNodes ch @ [g]\<rparr>) h)"
    and b1: "b1 = b\<lparr>b_socketMap := (b_socketMap b)(u \<mapsto> d)\<rparr>" "node = Some g"
    using assms(5,6) g(1) by (auto simp: PutChannel_locked_def)
  have ok1: "group_ok g h1 [c]"
    using gok(1) by (subst group_ok_cong [of h1 g h]) (auto simp: h1)
  have c1: "h_ch h1 c = h_ch h c" "b_socketMap b1 (ch_Userid (h_ch h1 c)) = Some c" "ch_GroupNodes (h_ch h1 c) = [g]"
    using ne s g(2) by (simp_all add: h1 b1)
  have gok1: "gn_groupId (h_gn h1 g) = gid"
    using gok(2) by (simp add: h1)
  have "fst (DeleteChannel g c h1)"
    using DeleteChannel_group_ok [OF ok1, of c] by simp
  then have "h2 = snd (DeleteChannel g c h1)" "b_GroupNode b2 gid = None" "b_socketMap b2 u = Some d"
    using assms(7) gok1 ne c1(1) unfolding DeleteChanel_node [OF c1(2,3)] by (auto simp: b1(1))
  moreover have "group_ok g (Put g d (snd (DeleteChannel g c h1))) [d]"
    using DeleteChannel_group_ok [OF ok1, of c] by (intro conjunct1 [OF Put_group_ok]) auto
  ultimately show ?thesis
    using b1(2) by (simp add: group_ok_def)
qed

section \<open>Instances\<close>

text \<open>A default bucket in which one connection has joined group 7.\<close>

definition bucket0 :: Bucket where
  "bucket0 = the (NewBucket [])"

definition heap1 :: heap where
  "heap1 = snd (the (NewChannel 2 (snd (the (NewChannel 2 (heap0\<lparr>h_nch := 0\<rparr>))))))"

lemma bucket0_eq: "NewBucket [] = Some bucket0"
  by (simp add: bucket0_def NewBucket_def defaultSocketSize_def defaultRoutineAmount_def defaultRoutineSize_def)

lemma bucket0_run: "one_group_run bucket0 heap1 (\<lambda>_. [])"
proof -
  have "one_group_run bucket0 (heap0\<lparr>h_nch := 0\<rparr>) (\<lambda>_. [])"
    using bucket0_eq by (rule one_group_run.start)
  then have "one_group_run bucket0 (snd (the (NewChannel 2 (heap0\<lparr>h_nch := 0\<rparr>)))) (\<lambda>_. [])"
    by (rule one_group_run.accept_conn [of _ _ _ 2 0]) (simp add: NewChannel_def heap0_def)
  then show ?thesis
    unfolding heap1_def by (rule one_group_run.accept_conn [of _ _ _ 2 1]) (simp add: NewChannel_def heap0_def)
qed

lemma conn0_fresh: "fresh_conn bucket0 heap1 (\<lambda>_. []) 0" "b_socketMap bucket0 u = None" "b_GroupNode bucket0 gid = None"
  by (simp_all add: fresh_conn_def bucket0_def NewBucket_def heap1_def heap0_def NewChannel_def
      defaultSocketSize_def defaultRoutineAmount_def defaultRoutineSize_def)

definition joined :: "Bucket \<times> heap" where
  "joined = PutChannel 5 7 0 (bucket0, heap1)"

lemma joined_run: "one_group_run (fst joined) (snd joined) ((\<lambda>_. [])(7 := [0]))"
  using one_group_run.connect [OF bucket0_run conn0_fresh(1), of 5 7 "fst joined" "snd joined"] conn0_fresh(2)
  by (simp add: joined_def NoGroup_def)

lemma joined_ok: "bucket_ok (fst joined) (snd joined) ((\<lambda>_. [])(7 := [0]))"
  using joined_run by (rule one_group_run_ok)

definition hello :: PushGroupMsgReq_Msg where
  "hello = zero_PushGroupMsgReq_Msg\<lparr>pgm_Op := OpGroupMsgSend, pgm_GroupId := 7, pgm_Content := ''hi''\<rparr>"

definition hello_msg :: KafkaMessage where
  "hello_msg = plain_msg ''group_chat_7'' 1 (json_print (enc_PushGroupMsgReq_Msg hello))"

lemma joined_conn: "ch_size (h_ch (snd joined) 0) = 2" "ch_BroadcastMsg (h_ch (snd joined) 0) = []"
  using conn0_fresh(3) by (simp_all add: joined_def PutChannel_def PutChannel_locked_def NewGroupNode_def NoGroup_def
      Put_keeps heap1_def heap0_def NewChannel_def split: option.splits)

theorem bucket_delivery_witness:
  "bucket_ok (fst joined) (snd joined) ((\<lambda>_. [])(7 := [0])) \<and> pgm_Op hello = OpGroupMsgSend
   \<and> (\<exists>h'. handle_group_msg hello_msg (fst joined) (snd joined) = Some h' \<and> ch_BroadcastMsg (h_ch h' 0) = [hello_msg])"
proof -
  have 1: "pgm_Op hello = OpGroupMsgSend" "int64_range (pgm_GroupId hello)"
    "km_Value hello_msg = json_print (enc_PushGroupMsgReq_Msg hello)"
    by (simp_all add: hello_def int64_range_def hello_msg_def plain_msg_def)
  show ?thesis
    using bucket_delivery [OF joined_ok 1] joined_ok 1(1) joined_conn by (auto simp: hello_def offer_def)
qed

theorem broadcast_fair_witness:
  "queues_ok 32 bucket0 \<and> (\<exists>b'. broadcast_all (replicate 32 hello_msg) bucket0 = Some b'
      \<and> (\<forall>i<32. b_routines b' ! i = [hello_msg]))"
proof -
  have 1: "queues_ok 32 bucket0" "\<forall>q \<in> set (b_routines bucket0). length q < b_routineSize bucket0"
    by (simp_all add: queues_ok_def bucket0_def NewBucket_def
        defaultSocketSize_def defaultRoutineAmount_def defaultRoutineSize_def)
  have "b_routines bucket0 = replicate 32 []"
    by (simp add: bucket0_def NewBucket_def defaultSocketSize_def defaultRoutineAmount_def defaultRoutineSize_def)
  then show ?thesis
    using broadcast_fair [OF 1(1) _ 1(2), of "replicate 32 hello_msg"] 1(1) by (metis length_replicate nth_replicate append_Nil)
qed

theorem put_delete_race_witness:
  "\<exists>node b1 h1 b2 h2. PutChannel_locked 6 7 1 joined = (node, b1, h1) \<and> DeleteChanel 0 (b1, h1) = (b2, h2)
     \<and> b_socketMap b2 6 = Some 1 \<and> b_GroupNode b2 7 = None"
proof -
  obtain node b1 h1 where l: "PutChannel_locked 6 7 1 (fst joined, snd joined) = (node, b1, h1)"
    by (metis prod_cases3)
  obtain b2 h2 where d: "DeleteChanel 0 (b1, h1) = (b2, h2)"
    by (cases "DeleteChanel 0 (b1, h1)")
  have f: "fresh_conn (fst joined) (snd joined) ((\<lambda>_. [])(7 := [0])) 1" "b_socketMap (fst joined) 6 = None"
    using conn0_fresh by (auto simp: fresh_conn_def joined_def PutChannel_def PutChannel_locked_def NewGroupNode_def
        NoGroup_def Put_keeps heap1_def heap0_def NewChannel_def ran_def)
  show ?thesis
    using put_delete_race [OF joined_ok _ f _ l d] l d by (auto simp: NoGroup_def)
qed

end
