(* ===== verification/CityHash.thy ===== *)
theory CityHash
  imports Prelude
begin

text \<open>
  The Go port of Google's CityHash (\<^verbatim>\<open>src/utils/cityhash.go\<close>). All arithmetic is on
  32- and 64-bit words and wraps as in Go.
\<close>

section \<open>Loads\<close>

definition le_word :: "byte list \<Rightarrow> 'a::len word" where
  "le_word bs = foldr (\<lambda>b acc. ucast b OR push_bit 8 acc) bs 0"

definition fetch64 :: "byte list \<Rightarrow> uint64 option" where
  "fetch64 p = (if 8 \<le> length p then Some (le_word (take 8 p)) else None)"

definition fetch32 :: "byte list \<Rightarrow> uint32 option" where
  "fetch32 p = (if 4 \<le> length p then Some (le_word (take 4 p)) else None)"

definition bswap64 :: "uint64 \<Rightarrow> uint64" where
  "bswap64 x =
     (push_bit 56 x AND 0xff00000000000000) OR
     (push_bit 40 x AND 0x00ff000000000000) OR
     (push_bit 24 x AND 0x0000ff0000000000) OR
     (push_bit 8 x AND 0x000000ff00000000) OR
     (drop_bit 8 x AND 0x00000000ff000000) OR
     (drop_bit 24 x AND 0x0000000000ff0000) OR
     (drop_bit 40 x AND 0x000000000000ff00) OR
     (drop_bit 56 x AND 0x00000000000000ff)"

definition bswap32 :: "uint32 \<Rightarrow> uint32" where
  "bswap32 x =
     (push_bit 24 x AND 0xff000000) OR
     (push_bit 8 x AND 0x00ff0000) OR
     (drop_bit 8 x AND 0x0000ff00) OR
     (drop_bit 24 x AND 0x000000ff)"

definition k0 :: uint64 where "k0 = 0xc3a5c85c97cb3127"
definition k1 :: uint64 where "k1 = 0xb492b66fbe98f273"
definition k2 :: uint64 where "k2 = 0x9ae16a3b2f90404f"
definition c1 :: uint32 where "c1 = 0xcc9e2d51"
definition c2 :: uint32 where "c2 = 0x1b873593"

section \<open>32-bit hash\<close>

definition fmix :: "uint32 \<Rightarrow> uint32" where
  "fmix h0 =
     (let h1 = h0 XOR drop_bit 16 h0;
          h2 = h1 * 0x85ebca6b;
          h3 = h2 XOR drop_bit 13 h2;
          h4 = h3 * 0xc2b2ae35
      in h4 XOR drop_bit 16 h4)"

definition rotate64 :: "uint64 \<Rightarrow> uint32 \<Rightarrow> uint64" where
  "rotate64 val shift =
     (if shift \<noteq> 0 then drop_bit (unat shift) val OR push_bit (unat (64 - shift)) val else val)"

definition rotate32 :: "uint32 \<Rightarrow> uint32 \<Rightarrow> uint32" where
  "rotate32 val shift =
     (if shift \<noteq> 0 then drop_bit (unat shift) val OR push_bit (unat (32 - shift)) val else val)"

definition permute3 :: "'a \<times> 'a \<times> 'a \<Rightarrow> 'a \<times> 'a \<times> 'a" where
  "permute3 abc =
     (case abc of (a, b, c) \<Rightarrow>
       let (a, b) = (b, a); (a, c) = (c, a) in (a, b, c))"

definition mur :: "uint32 \<Rightarrow> uint32 \<Rightarrow> uint32" where
  "mur a h =
     (let a = a * c1; a = rotate32 a 17; a = a * c2;
          h = h XOR a; h = rotate32 h 19
      in h * 5 + 0xe6546b64)"

definition hash32Len13to24 :: "byte list \<Rightarrow> uint32 \<Rightarrow> uint32 option" where
  "hash32Len13to24 s len = do {
     a \<leftarrow> slice_from s (unat (drop_bit 1 len - 4)) \<bind> fetch32;
     b \<leftarrow> slice_from s 4 \<bind> fetch32;
     c \<leftarrow> slice_from s (unat (len - 8)) \<bind> fetch32;
     d \<leftarrow> slice_from s (unat (drop_bit 1 len)) \<bind> fetch32;
     e \<leftarrow> fetch32 s;
     f \<leftarrow> slice_from s (unat (len - 4)) \<bind> fetch32;
     Some (fmix (mur f (mur e (mur d (mur c (mur b (mur a len)))))))
   }"

definition hash32Len0to4_step :: "byte \<Rightarrow> uint32 \<times> uint32 \<Rightarrow> uint32 \<times> uint32" where
  "hash32Len0to4_step v bc =
     (case bc of (b, c) \<Rightarrow>
       let b = ucast ((ucast b :: uint64) * ucast c1 + scast v) in (b, c XOR b))"

definition hash32Len0to4 :: "byte list \<Rightarrow> uint32 \<Rightarrow> uint32 option" where
  "hash32Len0to4 s len = do {
     tmp \<leftarrow> slice_to s (unat len);
     let (b, c) = fold hash32Len0to4_step tmp (0, 9);
     Some (fmix (mur b (mur len c)))
   }"

definition hash32Len5to12 :: "byte list \<Rightarrow> uint32 \<Rightarrow> uint32 option" where
  "hash32Len5to12 s len = do {
     x \<leftarrow> fetch32 s;
     y \<leftarrow> slice_from s (unat (len - 4)) \<bind> fetch32;
     z \<leftarrow> slice_from s (unat (drop_bit 1 len AND 4)) \<bind> fetch32;
     let a = len + x;
     let b = len * 5 + y;
     let c = 9 + z;
     let d = len * 5;
     Some (fmix (mur c (mur b (mur a d))))
   }"

definition mix32 :: "uint32 \<Rightarrow> uint32" where
  "mix32 x = rotate32 (x * c1) 17 * c2"

definition magic5 :: "uint32 \<Rightarrow> uint32" where
  "magic5 h = h * 5 + 0xe6546b64"

function CityHash32_loop ::
  "byte list \<Rightarrow> uint32 \<Rightarrow> uint32 \<Rightarrow> uint32 \<Rightarrow> uint32 \<Rightarrow> (uint32 \<times> uint32 \<times> uint32) option" where
  "CityHash32_loop s h g f items = do {
     a0 \<leftarrow> map_option mix32 (fetch32 s);
     a1 \<leftarrow> slice_from s 4 \<bind> fetch32;
     a2 \<leftarrow> map_option mix32 (slice_from s 8 \<bind> fetch32);
     a3 \<leftarrow> map_option mix32 (slice_from s 12 \<bind> fetch32);
     a4 \<leftarrow> slice_from s 16 \<bind> fetch32;
     let h = magic5 (rotate32 (h XOR a0) 18);
     let f = rotate32 (f + a1) 19 * c1;
     let g = magic5 (rotate32 (g + a2) 18);
     let h = magic5 (rotate32 (h XOR (a3 + a1)) 19);
     let g = bswap32 (g XOR a4) * 5;
     let h = bswap32 (h + a4 * 5);
     let f = f + a0;
     let (f, h, g) = permute3 (f, h, g);
     s \<leftarrow> slice_from s 20;
     if items - 1 = 0 then Some (h, g, f) else CityHash32_loop s h g f (items - 1)
   }"
  by pat_completeness auto
termination
  by (relation "measure (\<lambda>(s, h, g, f, items). unat (items - 1))")
     (auto dest: unat_minus_two_less)

definition CityHash32 :: "byte list \<Rightarrow> uint32 \<Rightarrow> uint32 option" where
  "CityHash32 s len =
     (if len \<le> 4 then hash32Len0to4 s len
      else if len \<le> 12 then hash32Len5to12 s len
      else if len \<le> 24 then hash32Len13to24 s len
      else do {
        a0 \<leftarrow> map_option mix32 (slice_from s (unat (len - 4)) \<bind> fetch32);
        a1 \<leftarrow> map_option mix32 (slice_from s (unat (len - 8)) \<bind> fetch32);
        a2 \<leftarrow> map_option mix32 (slice_from s (unat (len - 16)) \<bind> fetch32);
        a3 \<leftarrow> map_option mix32 (slice_from s (unat (len - 12)) \<bind> fetch32);
        a4 \<leftarrow> map_option mix32 (slice_from s (unat (len - 20)) \<bind> fetch32);
        let h = len;
        let g = c1 * len;
        let f = g;
        let h = magic5 (rotate32 (h XOR a0) 19);
        let h = magic5 (rotate32 (h XOR a2) 19);
        let g = magic5 (rotate32 (g XOR a1) 19);
        let g = magic5 (rotate32 (g XOR a3) 19);
        let f = magic5 (rotate32 (f + a4) 19);
        (h, g, f) \<leftarrow> CityHash32_loop s h g f ((len - 1) div 20);
        let g = rotate32 g 11 * c1;
        let g = rotate32 g 17 * c1;
        let f = rotate32 f 11 * c1;
        let f = rotate32 f 17 * c1;
        let h = magic5 (rotate32 (h + g) 19);
        let h = rotate32 h 17 * c1;
        let h = magic5 (rotate32 (h + f) 19);
        let h = rotate32 h 17 * c1;
        Some h
      })"

section \<open>64-bit hash\<close>

definition shiftMix :: "uint64 \<Rightarrow> uint64" where
  "shiftMix val = val XOR drop_bit 47 val"

record Uint128 =
  Lower64 :: uint64
  Higher64 :: uint64

definition setLower64 :: "uint64 \<Rightarrow> Uint128 \<Rightarrow> Uint128" where
  "setLower64 l u = u\<lparr>Lower64 := l\<rparr>"

definition setHigher64 :: "uint64 \<Rightarrow> Uint128 \<Rightarrow> Uint128" where
  "setHigher64 h u = u\<lparr>Higher64 := h\<rparr>"

definition mk128 :: "uint64 \<Rightarrow> uint64 \<Rightarrow> Uint128" where
  "mk128 l h = \<lparr>Lower64 = l, Higher64 = h\<rparr>"

definition put_uint64 :: "uint64 \<Rightarrow> byte list" where
  "put_uint64 w = map (\<lambda>i. ucast (drop_bit (8 * i) w)) [0..<8]"

definition Uint128_Bytes :: "Uint128 \<Rightarrow> byte list" where
  "Uint128_Bytes u = put_uint64 (Lower64 u) @ put_uint64 (Higher64 u)"

definition hash128to64 :: "Uint128 \<Rightarrow> uint64" where
  "hash128to64 x =
     (let kMul = 0x9ddfea08eb382d69;
          a = (Lower64 x XOR Higher64 x) * kMul;
          a = a XOR drop_bit 47 a;
          b = (Higher64 x XOR a) * kMul;
          b = b XOR drop_bit 47 b
      in b * kMul)"

definition hashLen16 :: "uint64 \<Rightarrow> uint64 \<Rightarrow> uint64" where
  "hashLen16 u v = hash128to64 (mk128 u v)"

definition hashLen16_3 :: "uint64 \<Rightarrow> uint64 \<Rightarrow> uint64 \<Rightarrow> uint64" where
  "hashLen16_3 u v mul =
     (let a = (u XOR v) * mul;
          a = a XOR drop_bit 47 a;
          b = (v XOR a) * mul;
          b = b XOR drop_bit 47 b
      in b * mul)"

definition hashLen0to16 :: "byte list \<Rightarrow> uint32 \<Rightarrow> uint64 option" where
  "hashLen0to16 s len =
     (if 8 \<le> len then do {
        let mul = k2 + ucast len * 2;
        a \<leftarrow> map_option (\<lambda>x. x + k2) (fetch64 s);
        b \<leftarrow> slice_from s (unat (len - 8)) \<bind> fetch64;
        let c = rotate64 b 37 * mul + a;
        let d = (rotate64 a 25 + b) * mul;
        Some (hashLen16_3 c d mul)
      }
      else if 4 \<le> len then do {
        let mul = k2 + ucast len * 2;
        a \<leftarrow> map_option (ucast :: uint32 \<Rightarrow> uint64) (fetch32 s);
        b \<leftarrow> map_option (ucast :: uint32 \<Rightarrow> uint64) (slice_from s (unat (len - 4)) \<bind> fetch32);
        Some (hashLen16_3 (ucast len + push_bit 3 a) b mul)
      }
      else if 0 < len then do {
        a \<leftarrow> index s 0;
        b \<leftarrow> index s (unat (drop_bit 1 len));
        c \<leftarrow> index s (unat (len - 1));
        let y = (ucast a :: uint32) + push_bit 8 (ucast b);
        let z = len + push_bit 2 (ucast c);
        Some (shiftMix ((ucast y * k2) XOR (ucast z * k0)) * k2)
      }
      else Some k2)"

definition hashLen17to32 :: "byte list \<Rightarrow> uint32 \<Rightarrow> uint64 option" where
  "hashLen17to32 s len = do {
     let mul = k2 + ucast len * 2;
     a \<leftarrow> map_option (\<lambda>x. x * k1) (fetch64 s);
     b \<leftarrow> slice_from s 8 \<bind> fetch64;
     c \<leftarrow> map_option (\<lambda>x. x * mul) (slice_from s (unat (len - 8)) \<bind> fetch64);
     d \<leftarrow> map_option (\<lambda>x. x * k2) (slice_from s (unat (len - 16)) \<bind> fetch64);
     Some (hashLen16_3 (rotate64 (a + b) 43 + rotate64 c 30 + d)
             (a + rotate64 (b + k2) 18 + c) mul)
   }"

definition weakHashLen32WithSeeds ::
  "uint64 \<Rightarrow> uint64 \<Rightarrow> uint64 \<Rightarrow> uint64 \<Rightarrow> uint64 \<Rightarrow> uint64 \<Rightarrow> Uint128" where
  "weakHashLen32WithSeeds w x y z a b =
     (let a = a + w;
          b = rotate64 (b + a + z) 21;
          c = a;
          a = a + x;
          a = a + y;
          b = b + rotate64 a 44
      in mk128 (a + z) (b + c))"

definition weakHashLen32WithSeeds_3 :: "byte list \<Rightarrow> uint64 \<Rightarrow> uint64 \<Rightarrow> Uint128 option" where
  "weakHashLen32WithSeeds_3 s a b = do {
     w \<leftarrow> fetch64 s;
     x \<leftarrow> slice_from s 8 \<bind> fetch64;
     y \<leftarrow> slice_from s 16 \<bind> fetch64;
     z \<leftarrow> slice_from s 24 \<bind> fetch64;
     Some (weakHashLen32WithSeeds w x y z a b)
   }"

definition hashLen33to64 :: "byte list \<Rightarrow> uint32 \<Rightarrow> uint64 option" where
  "hashLen33to64 s len = do {
     let mul = k2 + ucast len * 2;
     a \<leftarrow> map_option (\<lambda>x. x * k2) (fetch64 s);
     b \<leftarrow> slice_from s 8 \<bind> fetch64;
     c \<leftarrow> slice_from s (unat (len - 24)) \<bind> fetch64;
     d \<leftarrow> slice_from s (unat (len - 32)) \<bind> fetch64;
     e \<leftarrow> map_option (\<lambda>x. x * k2) (slice_from s 16 \<bind> fetch64);
     f \<leftarrow> map_option (\<lambda>x. x * 9) (slice_from s 24 \<bind> fetch64);
     g \<leftarrow> slice_from s (unat (len - 8)) \<bind> fetch64;
     h \<leftarrow> map_option (\<lambda>x. x * mul) (slice_from s (unat (len - 16)) \<bind> fetch64);
     let u = rotate64 (a + g) 43 + (rotate64 b 30 + c) * 9;
     let v = ((a + g) XOR d) + f + 1;
     let w = bswap64 ((u + v) * mul) + h;
     let x = rotate64 (e + f) 42 + c;
     let y = (bswap64 ((v + w) * mul) + g) * mul;
     let z = e + f + c;
     let a = bswap64 ((x + z) * mul + y) + b;
     let b = shiftMix ((z + a) * mul + d + h) * mul;
     Some (b + x)
   }"

text \<open>
  The 64-byte round that \<^verbatim>\<open>CityHash64\<close> and \<^verbatim>\<open>CityHash128WithSeed\<close> share (the
  latter unrolls it twice); it returns the slice \<^verbatim>\<open>s[64:]\<close> with the new state.
\<close>

record city_state =
  st_v :: Uint128
  st_w :: Uint128
  st_x :: uint64
  st_y :: uint64
  st_z :: uint64

definition city_round :: "byte list \<Rightarrow> city_state \<Rightarrow> (byte list \<times> city_state) option" where
  "city_round s st = do {
     let v = st_v st; let w = st_w st; let x = st_x st; let y = st_y st; let z = st_z st;
     f8 \<leftarrow> slice_from s 8 \<bind> fetch64;
     let x = rotate64 (x + y + Lower64 v + f8) 37 * k1;
     f48 \<leftarrow> slice_from s 48 \<bind> fetch64;
     let y = rotate64 (y + Higher64 v + f48) 42 * k1;
     let x = x XOR Higher64 w;
     f40 \<leftarrow> slice_from s 40 \<bind> fetch64;
     let y = y + (Lower64 v + f40);
     let z = rotate64 (z + Lower64 w) 33 * k1;
     v \<leftarrow> weakHashLen32WithSeeds_3 s (Higher64 v * k1) (x + Lower64 w);
     f16 \<leftarrow> slice_from s 16 \<bind> fetch64;
     w \<leftarrow> slice_from s 32 \<bind> (\<lambda>t. weakHashLen32WithSeeds_3 t (z + Higher64 w) (y + f16));
     s \<leftarrow> slice_from s 64;
     Some (s, \<lparr>st_v = v, st_w = w, st_x = z, st_y = y, st_z = x\<rparr>)
   }"

lemma city_round_shrinks: "city_round s st = Some (s', st') \<Longrightarrow> length s' < length s"
  by (auto simp: city_round_def slice_from_def fetch64_def Let_def split: bind_splits if_splits)

function CityHash64_loop :: "byte list \<Rightarrow> city_state \<Rightarrow> uint32 \<Rightarrow> city_state option" where
  "CityHash64_loop s st len = do {
     (s, st) \<leftarrow> city_round s st;
     if len - 64 = 0 then Some st else CityHash64_loop s st (len - 64)
   }"
  by pat_completeness auto
termination
  by (relation "measure (\<lambda>(s, st, len). length s)") (auto dest: city_round_shrinks)

definition CityHash64 :: "byte list \<Rightarrow> uint32 \<Rightarrow> uint64 option" where
  "CityHash64 s len =
     (if len \<le> 32 then
        (if len \<le> 16 then hashLen0to16 s len else hashLen17to32 s len)
      else if len \<le> 64 then hashLen33to64 s len
      else do {
        x \<leftarrow> slice_from s (unat (len - 40)) \<bind> fetch64;
        y1 \<leftarrow> slice_from s (unat (len - 16)) \<bind> fetch64;
        y2 \<leftarrow> slice_from s (unat (len - 56)) \<bind> fetch64;
        let y = y1 + y2;
        z1 \<leftarrow> slice_from s (unat (len - 48)) \<bind> fetch64;
        z2 \<leftarrow> slice_from s (unat (len - 24)) \<bind> fetch64;
        let z = hashLen16 (z1 + ucast len) z2;
        v \<leftarrow> slice_from s (unat (len - 64)) \<bind> (\<lambda>t. weakHashLen32WithSeeds_3 t (ucast len) z);
        w \<leftarrow> slice_from s (unat (len - 32)) \<bind> (\<lambda>t. weakHashLen32WithSeeds_3 t (y + k1) x);
        x0 \<leftarrow> fetch64 s;
        let x = x * k1 + x0;
        st \<leftarrow> CityHash64_loop s \<lparr>st_v = v, st_w = w, st_x = x, st_y = y, st_z = z\<rparr>
               ((len - 1) AND NOT 63);
        Some (hashLen16
          (hashLen16 (Lower64 (st_v st)) (Lower64 (st_w st)) + shiftMix (st_y st) * k1 + st_z st)
          (hashLen16 (Higher64 (st_v st)) (Higher64 (st_w st)) + st_x st))
      })"

definition CityHash64WithSeeds :: "byte list \<Rightarrow> uint32 \<Rightarrow> uint64 \<Rightarrow> uint64 \<Rightarrow> uint64 option" where
  "CityHash64WithSeeds s len seed0 seed1 =
     map_option (\<lambda>h. hashLen16 (h - seed0) seed1) (CityHash64 s len)"

definition CityHash64WithSeed :: "byte list \<Rightarrow> uint32 \<Rightarrow> uint64 \<Rightarrow> uint64 option" where
  "CityHash64WithSeed s len seed = CityHash64WithSeeds s len k2 seed"

section \<open>128-bit hash\<close>

function cityMurmur_loop ::
  "byte list \<Rightarrow> uint64 \<Rightarrow> uint64 \<Rightarrow> uint64 \<Rightarrow> uint64 \<Rightarrow> uint32 \<Rightarrow>
   (uint64 \<times> uint64 \<times> uint64 \<times> uint64) option" where
  "cityMurmur_loop s a b c d l = do {
     f0 \<leftarrow> fetch64 s;
     let a = (a XOR (shiftMix (f0 * k1) * k1)) * k1;
     let b = b XOR a;
     f8 \<leftarrow> slice_from s 8 \<bind> fetch64;
     let c = (c XOR (shiftMix (f8 * k1) * k1)) * k1;
     let d = d XOR c;
     s' \<leftarrow> slice_from s 16;
     if sint (l - 16) \<le> 0 then Some (a, b, c, d)
     else cityMurmur_loop s' a b c d (l - 16)
   }"
  by pat_completeness auto
termination
  by (relation "measure (\<lambda>(s, a, b, c, d, l). length s)")
     (auto simp: slice_from_def fetch64_def split: if_splits)

definition cityMurmur :: "byte list \<Rightarrow> uint32 \<Rightarrow> Uint128 \<Rightarrow> Uint128 option" where
  "cityMurmur s len seed = do {
     let a = Lower64 seed;
     let b = Higher64 seed;
     let l = len - 16;
     (a, b, c, d) \<leftarrow>
       (if sint l \<le> 0 then do {
          let a = shiftMix (a * k1) * k1;
          h \<leftarrow> hashLen0to16 s len;
          let c = b * k1 + h;
          d \<leftarrow> (if 8 \<le> len then map_option (\<lambda>f. shiftMix (a + f)) (fetch64 s)
                else Some (shiftMix (a + c)));
          Some (a, b, c, d)
        }
        else do {
          t \<leftarrow> slice_from s (unat (len - 8)) \<bind> fetch64;
          let c = hashLen16 (t + k1) a;
          t \<leftarrow> slice_from s (unat (len - 16)) \<bind> fetch64;
          let d = hashLen16 (b + ucast len) (c + t);
          let a = a + d;
          cityMurmur_loop s a b c d l
        });
     let a = hashLen16 a c;
     let b = hashLen16 d b;
     Some (mk128 (a XOR b) (hashLen16 b a))
   }"

text \<open>
  The two loops of \<^verbatim>\<open>CityHash128WithSeed\<close>. The tail loop starts with
  \<^verbatim>\<open>length < 128\<close>, so \<^verbatim>\<open>tail_done\<close> never exceeds 128 and is kept as a
  natural number.
\<close>

function CityHash128_loop ::
  "byte list \<Rightarrow> city_state \<Rightarrow> uint32 \<Rightarrow> (city_state \<times> uint32) option" where
  "CityHash128_loop s st len = do {
     (s, st) \<leftarrow> city_round s st;
     (s, st) \<leftarrow> city_round s st;
     if len - 128 < 128 then Some (st, len - 128) else CityHash128_loop s st (len - 128)
   }"
  by pat_completeness auto
termination
  by (relation "measure (\<lambda>(s, st, len). length s)") (auto dest!: city_round_shrinks)

function CityHash128_tail ::
  "byte list \<Rightarrow> uint32 \<Rightarrow> uint32 \<Rightarrow> nat \<Rightarrow> city_state \<Rightarrow> city_state option" where
  "CityHash128_tail t orig_length len tail_done st =
     (if tail_done < unat len then do {
        let tail_done = tail_done + 32;
        let off = orig_length - of_nat tail_done;
        let v = st_v st; let w = st_w st; let x = st_x st; let y = st_y st; let z = st_z st;
        let y = rotate64 (x + y) 42 * k0 + Higher64 v;
        f16 \<leftarrow> slice_from t (unat (off + 16)) \<bind> fetch64;
        let w = setLower64 (Lower64 w + f16) w;
        let x = x * k0 + Lower64 w;
        f0 \<leftarrow> slice_from t (unat off) \<bind> fetch64;
        let z = z + (Higher64 w + f0);
        let w = setHigher64 (Higher64 w + Lower64 v) w;
        v \<leftarrow> slice_from t (unat off)
              \<bind> (\<lambda>u. weakHashLen32WithSeeds_3 u (Lower64 v + z) (Higher64 v));
        let v = setLower64 (Lower64 v * k0) v;
        CityHash128_tail t orig_length len tail_done
          \<lparr>st_v = v, st_w = w, st_x = x, st_y = y, st_z = z\<rparr>
      }
      else Some st)"
  by pat_completeness auto
termination
  by (relation "measure (\<lambda>(t, orig_length, len, tail_done, st). unat len - tail_done)") auto

definition CityHash128WithSeed :: "byte list \<Rightarrow> uint32 \<Rightarrow> Uint128 \<Rightarrow> Uint128 option" where
  "CityHash128WithSeed s len seed =
     (if len < 128 then cityMurmur s len seed
      else do {
        let orig_length = len;
        let t = s;
        let x = Lower64 seed;
        let y = Higher64 seed;
        let z = ucast len * k1;
        f0 \<leftarrow> fetch64 s;
        let vl = rotate64 (y XOR k1) 49 * k1 + f0;
        f8 \<leftarrow> slice_from s 8 \<bind> fetch64;
        let v = mk128 vl (rotate64 vl 42 * k1 + f8);
        f88 \<leftarrow> slice_from s 88 \<bind> fetch64;
        let w = mk128 (rotate64 (y + z) 35 * k1 + x) (rotate64 (x + f88) 53 * k1);
        (st, len) \<leftarrow> CityHash128_loop s \<lparr>st_v = v, st_w = w, st_x = x, st_y = y, st_z = z\<rparr> len;
        let v = st_v st; let w = st_w st; let x = st_x st; let y = st_y st; let z = st_z st;
        let x = x + rotate64 (Lower64 v + z) 49 * k0;
        let y = y * k0 + rotate64 (Higher64 w) 37;
        let z = z * k0 + rotate64 (Lower64 w) 27;
        let w = setLower64 (Lower64 w * 9) w;
        let v = setLower64 (Lower64 v * k0) v;
        st \<leftarrow> CityHash128_tail t orig_length len 0
               \<lparr>st_v = v, st_w = w, st_x = x, st_y = y, st_z = z\<rparr>;
        let v = st_v st; let w = st_w st; let x = st_x st; let y = st_y st; let z = st_z st;
        let x = hashLen16 x (Lower64 v);
        let y = hashLen16 (y + z) (Lower64 w);
        Some (mk128 (hashLen16 (x + Higher64 v) (Higher64 w) + y)
                (hashLen16 (x + Higher64 w) (y + Higher64 v)))
      })"

definition CityHash128 :: "byte list \<Rightarrow> uint32 \<Rightarrow> Uint128 option" where
  "CityHash128 s len =
     (if 16 \<le> len then do {
        t \<leftarrow> slice_to s (unat len);
        l \<leftarrow> fetch64 s;
        h \<leftarrow> slice_from t 8 \<bind> fetch64;
        u \<leftarrow> slice_from t 16;
        CityHash128WithSeed u (len - 16) (mk128 l (h + k0))
      }
      else CityHash128WithSeed s len (mk128 k0 k1))"


section \<open>The bit operations\<close>

text \<open>The rotations are the rotations of the word library for every shift below the width.\<close>

lemma rotate32_rotr: "unat n < 32 \<Longrightarrow> rotate32 v n = word_rotr (unat n) v"
proof (rule bit_word_eqI)
  fix i
  assume n: "unat n < 32" and i: "i < LENGTH(32)"
  have sub: "n \<noteq> 0 \<Longrightarrow> unat (32 - n) = 32 - unat n"
    using n by (simp add: unat_sub word_le_nat_alt)
  have wrap: "32 \<le> i + unat n \<Longrightarrow> (i + unat n) mod 32 = i + unat n - 32"
    using n i by (subst le_mod_geq) simp_all
  show "bit (rotate32 v n) i \<longleftrightarrow> bit (word_rotr (unat n) v) i"
    using n i sub wrap
    by (cases "n = 0"; cases "i + unat n < 32")
      (auto simp: rotate32_def bit_simps add.commute not_less dest: bit_imp_le_length)
qed

lemma rotate64_rotr: "unat n < 64 \<Longrightarrow> rotate64 v n = word_rotr (unat n) v"
proof (rule bit_word_eqI)
  fix i
  assume n: "unat n < 64" and i: "i < LENGTH(64)"
  have sub: "n \<noteq> 0 \<Longrightarrow> unat (64 - n) = 64 - unat n"
    using n by (simp add: unat_sub word_le_nat_alt)
  have wrap: "64 \<le> i + unat n \<Longrightarrow> (i + unat n) mod 64 = i + unat n - 64"
    using n i by (subst le_mod_geq) simp_all
  show "bit (rotate64 v n) i \<longleftrightarrow> bit (word_rotr (unat n) v) i"
    using n i sub wrap
    by (cases "n = 0"; cases "i + unat n < 64")
      (auto simp: rotate64_def bit_simps add.commute not_less dest: bit_imp_le_length)
qed

lemma bit_bswap32 [bits]: "bit (bswap32 x) n \<longleftrightarrow> n < 32 \<and> bit x (8 * (3 - n div 8) + n mod 8)"
proof -
  have m: "(0xff000000::uint32) = push_bit 24 (mask 8)" "(0x00ff0000::uint32) = push_bit 16 (mask 8)"
     "(0x0000ff00::uint32) = push_bit 8 (mask 8)" "(0x000000ff::uint32) = mask 8"
    by (simp_all add: mask_eq_exp_minus_1)
  consider "n < 8" | "8 \<le> n" "n < 16" | "16 \<le> n" "n < 24" | "24 \<le> n" "n < 32" | "32 \<le> n"
    by linarith
  then show ?thesis
  proof cases
    case 1
    then have "n div 8 = 0" "n mod 8 = n" by simp_all
    with 1 show ?thesis by (auto simp: bswap32_def m bit_simps)
  next
    case 2
    then have "n div 8 = 1" "n mod 8 = n - 8" by presburger+
    with 2 show ?thesis by (auto simp: bswap32_def m bit_simps)
  next
    case 3
    then have "n div 8 = 2" "n mod 8 = n - 16" by presburger+
    with 3 show ?thesis by (auto simp: bswap32_def m bit_simps)
  next
    case 4
    then have "n div 8 = 3" "n mod 8 = n - 24" by presburger+
    with 4 show ?thesis by (auto simp: bswap32_def m bit_simps)
  next
    case 5
    then show ?thesis by (auto dest: bit_imp_le_length)
  qed
qed

lemma bswap32_involution: "bswap32 (bswap32 x) = x"
proof (rule bit_word_eqI)
  fix n
  assume "n < LENGTH(32)"
  then have "n div 8 \<le> 3" "8 * (3 - n div 8) + n mod 8 < 32" by simp presburger
  then show "bit (bswap32 (bswap32 x)) n = bit x n"
    using \<open>n < LENGTH(32)\<close> by (simp add: bits)
qed

section \<open>The finaliser is a permutation\<close>

lemma xorshift_inj: "0 < k \<Longrightarrow> inj (\<lambda>x :: 'a::len word. x XOR drop_bit k x)"
proof (rule injI)
  fix x y :: "'a word"
  assume k: "0 < k" and eq: "x XOR drop_bit k x = y XOR drop_bit k y"
  have step: "bit x n \<longleftrightarrow> bit y n" if "bit x (k + n) \<longleftrightarrow> bit y (k + n)" for n
    using arg_cong [OF eq, of "\<lambda>z. bit z n"] that
    by (auto simp: bit_simps)
  have "bit x n \<longleftrightarrow> bit y n" for n
  proof (induction "LENGTH('a) - n" arbitrary: n rule: less_induct)
    case less
    show ?case
    proof (cases "n < LENGTH('a)")
      case True
      with k have "LENGTH('a) - (k + n) < LENGTH('a) - n" by simp
      then show ?thesis by (rule step [OF less])
    next
      case False
      then show ?thesis by (auto dest: bit_imp_le_length)
    qed
  qed
  then show "x = y" by (intro bit_word_eqI) simp
qed

lemma mult_unit_inj: "c * d = 1 \<Longrightarrow> inj (\<lambda>x :: 'a::len word. x * c)"
  by (rule inj_on_inverseI [where g = "\<lambda>x. x * d"]) (simp add: mult.assoc)

lemma rotate32_inj: "unat n < 32 \<Longrightarrow> inj (\<lambda>v. rotate32 v n)"
  by (rule inj_on_inverseI [where g = "word_rotl (unat n)"]) (simp add: rotate32_rotr)

text \<open>
  C35: the finaliser \<^verbatim>\<open>fmix\<close> of the 32-bit hash is a bijection on 32-bit words, so it
  loses none of the state that the rounds before it have mixed.
\<close>
theorem fmix_bij: "bij fmix"
proof -
  have eq: "fmix = (\<lambda>h. h XOR drop_bit 16 h) \<circ> (\<lambda>h. h * 0xc2b2ae35) \<circ> (\<lambda>h. h XOR drop_bit 13 h)
     \<circ> (\<lambda>h. h * 0x85ebca6b) \<circ> (\<lambda>h. h XOR drop_bit 16 h)"
    by (auto simp: fmix_def Let_def)
  have m: "inj (\<lambda>h::uint32. h * 0x85ebca6b)" "inj (\<lambda>h::uint32. h * 0xc2b2ae35)"
    by (rule mult_unit_inj [where d = "0xa5cb9243"], simp)
       (rule mult_unit_inj [where d = "0x7ed1b41d"], simp)
  have "inj fmix"
    unfolding eq by (intro inj_compose m xorshift_inj) simp_all
  then show ?thesis by (simp add: bij_def finite_UNIV_inj_surj)
qed

section \<open>The loads and slices stay inside the argument\<close>

lemma ucast_down: "ucast (ucast b * ucast c + scast v :: uint64) = (b * c + scast v :: uint32)" for v :: byte
proof (transfer, simp add: take_bit_eq_mod mod_mod_cancel)
  fix b c v :: int
  show "(b mod 4294967296 * (c mod 4294967296) + signed_take_bit 7 v) mod 4294967296 =
     (b * c + signed_take_bit 7 v) mod 4294967296"
    by (metis mod_add_left_eq mod_mult_eq)
qed

text \<open>The 64-bit signed detour of the byte loop computes the 32-bit product and sum.\<close>

lemma hash32Len0to4_step_32:
  "hash32Len0to4_step v (b, c) = (let b = b * c1 + scast v in (b, c XOR b))"
  by (simp add: hash32Len0to4_step_def ucast_down)

lemma fetch32_Some [panic_free]: "4 \<le> length p \<Longrightarrow> fetch32 p = Some (le_word (take 4 p))"
  by (simp add: fetch32_def)

lemma fetch64_Some [panic_free]: "8 \<le> length p \<Longrightarrow> fetch64 p = Some (le_word (take 8 p))"
  by (simp add: fetch64_def)

lemma slice_fetch32 [panic_free]:
  "i + 4 \<le> length s \<Longrightarrow> slice_from s i \<bind> fetch32 = Some (le_word (take 4 (drop i s)))"
  by (simp add: fetch32_Some)

lemma slice_fetch64 [panic_free]:
  "i + 8 \<le> length s \<Longrightarrow> slice_from s i \<bind> fetch64 = Some (le_word (take 8 (drop i s)))"
  by (simp add: fetch64_Some)

lemma unat_len_minus: "unat len = n \<Longrightarrow> unat k \<le> n \<Longrightarrow> unat (len - k) = n - unat k" for len k :: "'a::len word"
  by (simp add: unat_sub word_le_nat_alt)

declare CityHash32_loop.simps [simp del] CityHash64_loop.simps [simp del]
  cityMurmur_loop.simps [simp del] CityHash128_loop.simps [simp del] CityHash128_tail.simps [simp del]

lemma CityHash32_loop_ok:
  assumes "unat items = Suc n" and "20 * Suc n \<le> length s"
  shows "\<exists>r. CityHash32_loop s h g f items = Some r"
  using assms
proof (induction n arbitrary: s h g f items)
  case 0
  then have "items = 1" by (simp add: word_unat_eq_iff)
  with 0 show ?case
    by (subst CityHash32_loop.simps) (simp add: panic_free Let_def split: prod.splits)
next
  case (Suc n)
  have it: "unat (items - 1) = Suc n" "items \<noteq> 1"
    using Suc.prems by (auto simp: unat_len_minus)
  have IH: "\<exists>r. CityHash32_loop (drop 20 s) h g f (items - 1) = Some r" for h g f
    using it Suc.prems by (intro Suc.IH) simp_all
  with it Suc.prems show ?case
    by (subst CityHash32_loop.simps) (simp add: panic_free Let_def split: prod.splits)
qed

lemma hash32Len0to4_ok: "unat len = length s \<Longrightarrow> \<exists>h. hash32Len0to4 s len = Some h"
  by (simp add: hash32Len0to4_def Let_def split: prod.splits)

lemma hash32Len5to12_ok: "unat len = length s \<Longrightarrow> 5 \<le> length s \<Longrightarrow> length s \<le> 12 \<Longrightarrow> \<exists>h. hash32Len5to12 s len = Some h"
proof -
  assume l: "unat len = length s" "5 \<le> length s" "length s \<le> 12"
  have "unat (drop_bit 1 len AND 4) + 4 \<le> length s"
  proof (cases "length s < 8")
    case True
    then have "len = 5 \<or> len = 6 \<or> len = 7" 
      using l by (auto simp: word_unat_eq_iff)
    then show ?thesis using l by auto
  next
    case False
    have "unat (drop_bit 1 len AND 4) \<le> unat (4 :: uint32)"
      by (rule word_and_le1 [THEN word_le_nat_alt [THEN iffD1]])
    with False show ?thesis by simp
  qed
  then show ?thesis
    using l by (simp add: hash32Len5to12_def panic_free unat_len_minus)
qed

lemma hash32Len13to24_ok: "unat len = length s \<Longrightarrow> 13 \<le> length s \<Longrightarrow> \<exists>h. hash32Len13to24 s len = Some h"
proof -
  assume l: "unat len = length s" "13 \<le> length s"
  have half: "unat (drop_bit 1 len) = length s div 2"
    by (simp add: drop_bit_eq_div unat_div l)
  then have "unat (drop_bit 1 len - 4) = length s div 2 - 4"
    using l by (simp add: unat_len_minus)
  then show ?thesis
    using l half by (simp add: hash32Len13to24_def panic_free unat_len_minus)
qed

lemma CityHash32_total:
  assumes "unat len = length s"
  shows "\<exists>h. CityHash32 s len = Some h"
proof -
  consider "length s \<le> 4" | "5 \<le> length s" "length s \<le> 12" | "13 \<le> length s" "length s \<le> 24" | "25 \<le> length s"
    by linarith
  then show ?thesis
  proof cases
    case 4
    have "unat ((len - 1) div 20) = (length s - 1) div 20"
      using 4 assms by (simp add: unat_div unat_len_minus)
    moreover have "20 * ((length s - 1) div 20) \<le> length s" "1 \<le> (length s - 1) div 20"
      using 4 by simp_all
    ultimately have "\<exists>r. CityHash32_loop s h g f ((len - 1) div 20) = Some r" for h g f
      by (intro CityHash32_loop_ok [where n = "(length s - 1) div 20 - 1"]) simp_all
    then obtain L where "CityHash32_loop s h g f ((len - 1) div 20) = Some (L h g f)" for h g f
      by metis
    then show ?thesis
      using 4 assms
      by (auto simp: CityHash32_def word_le_nat_alt panic_free unat_len_minus Let_def split: prod.splits)
  qed (use assms in \<open>simp_all add: CityHash32_def word_le_nat_alt hash32Len0to4_ok hash32Len5to12_ok hash32Len13to24_ok\<close>)
qed

lemma weakHash_ok [panic_free]:
  "32 \<le> length s \<Longrightarrow> \<exists>u. weakHashLen32WithSeeds_3 s a b = Some u"
  by (simp add: weakHashLen32WithSeeds_3_def panic_free)

lemma slice_weakHash_ok:
  "i + 32 \<le> length s \<Longrightarrow> \<exists>u. slice_from s i \<bind> (\<lambda>t. weakHashLen32WithSeeds_3 t a b) = Some u"
  by (simp add: weakHash_ok)

lemma city_round_ok: "64 \<le> length s \<Longrightarrow> \<exists>st'. city_round s st = Some (drop 64 s, st')"
proof -
  assume l: "64 \<le> length s"
  have "\<forall>a b. \<exists>u. weakHashLen32WithSeeds_3 s a b = Some u"
    "\<forall>a b. \<exists>u. weakHashLen32WithSeeds_3 (drop 32 s) a b = Some u"
    using l by (simp_all add: weakHash_ok)
  then obtain W X where "weakHashLen32WithSeeds_3 s a b = Some (W a b)"
    "weakHashLen32WithSeeds_3 (drop 32 s) a b = Some (X a b)" for a b
    by metis
  with l show ?thesis by (simp add: city_round_def panic_free Let_def)
qed

lemma CityHash64_loop_ok:
  assumes "unat len = 64 * Suc n" and "64 * Suc n \<le> length s"
  shows "\<exists>st'. CityHash64_loop s st len = Some st'"
  using assms
proof (induction n arbitrary: s st len)
  case 0
  then have "len = 64" by (simp add: word_unat_eq_iff)
  moreover obtain st' where "city_round s st = Some (drop 64 s, st')"
    using 0 city_round_ok by auto
  ultimately show ?case by (subst CityHash64_loop.simps) simp
next
  case (Suc n)
  have len: "unat (len - 64) = 64 * Suc n" "len \<noteq> 64"
    using Suc.prems by (auto simp: unat_len_minus)
  obtain st' where st': "city_round s st = Some (drop 64 s, st')"
    using Suc.prems city_round_ok by fastforce
  moreover have "\<exists>st''. CityHash64_loop (drop 64 s) st' (len - 64) = Some st''"
    using len Suc.prems by (intro Suc.IH) simp_all
  ultimately show ?case using len by (subst CityHash64_loop.simps) simp
qed

lemma and_not_63: "unat (x AND - 64) = 64 * (unat x div 64)" for x :: uint32
proof -
  have "x AND NOT (mask 6) = push_bit 6 (drop_bit 6 x)"
    by (intro bit_word_eqI) (auto simp: bit_simps)
  moreover have "unat x < 2 ^ LENGTH(32)" by (rule unsigned_less)
  then have "64 * (unat x div 64) < 2 ^ 32" by simp
  ultimately show ?thesis
    by (simp add: mask_eq_exp_minus_1 push_bit_eq_mult drop_bit_eq_div unat_word_ariths unat_div)
qed

lemma hashLen0to16_ok: "unat len = length s \<Longrightarrow> \<exists>h. hashLen0to16 s len = Some h"
proof -
  assume l: "unat len = length s"
  consider "8 \<le> length s" | "length s < 8" "4 \<le> length s" | "0 < length s" "length s < 4" | "s = []"
    by (cases s) (auto, linarith)
  then show ?thesis
    by cases (auto simp: hashLen0to16_def l panic_free unat_len_minus word_le_nat_alt
        word_less_nat_alt Let_def drop_bit_eq_div unat_div Suc_le_eq)
qed

lemma hashLen17to32_ok: "unat len = length s \<Longrightarrow> 17 \<le> length s \<Longrightarrow> \<exists>h. hashLen17to32 s len = Some h"
  by (simp add: hashLen17to32_def panic_free unat_len_minus Let_def)

lemma hashLen33to64_ok: "unat len = length s \<Longrightarrow> 33 \<le> length s \<Longrightarrow> \<exists>h. hashLen33to64 s len = Some h"
  by (simp add: hashLen33to64_def panic_free unat_len_minus Let_def)

lemma CityHash64_loop_len:
  assumes "unat len = length s" and "65 \<le> length s"
  shows "\<exists>st'. CityHash64_loop s st ((len - 1) AND NOT 63) = Some st'"
proof (rule CityHash64_loop_ok [where n = "(length s - 1) div 64 - 1"])
  have "1 \<le> (length s - 1) div 64" using assms by simp
  then show "unat ((len - 1) AND NOT 63) = 64 * Suc ((length s - 1) div 64 - 1)"
    "64 * Suc ((length s - 1) div 64 - 1) \<le> length s"
    using assms by (simp_all add: and_not_63 unat_len_minus)
qed

lemma CityHash64_total:
  assumes l: "unat len = length s"
  shows "\<exists>h. CityHash64 s len = Some h"
proof -
  consider "length s \<le> 16" | "17 \<le> length s" "length s \<le> 32"
    | "33 \<le> length s" "length s \<le> 64" | "65 \<le> length s"
    by linarith
  then show ?thesis
  proof cases
    case 4
    have w: "\<forall>a b. \<exists>u. weakHashLen32WithSeeds_3 (drop (length s - 64) s) a b = Some u"
      "\<forall>a b. \<exists>u. weakHashLen32WithSeeds_3 (drop (length s - 32) s) a b = Some u"
      using 4 by (simp_all add: weakHash_ok)
    then obtain W X where "weakHashLen32WithSeeds_3 (drop (length s - 64) s) a b = Some (W a b)"
      "weakHashLen32WithSeeds_3 (drop (length s - 32) s) a b = Some (X a b)" for a b
      by metis
    moreover have "\<forall>st. \<exists>st'. CityHash64_loop s st ((len - 1) AND NOT 63) = Some st'"
      using CityHash64_loop_len [OF l] 4 by blast
    then obtain L where "CityHash64_loop s st ((len - 1) AND NOT 63) = Some (L st)" for st
      by metis
    ultimately show ?thesis
      using 4 l by (simp add: CityHash64_def word_le_nat_alt panic_free unat_len_minus Let_def)
  qed (use l in \<open>simp_all add: CityHash64_def word_le_nat_alt hashLen0to16_ok hashLen17to32_ok
         hashLen33to64_ok\<close>)
qed

lemma cityMurmur_loop_ok:
  assumes "0 < sint l" and "sint l + 16 \<le> int (length s)"
  shows "\<exists>r. cityMurmur_loop s a b c d l = Some r"
  using assms
proof (induction "length s" arbitrary: s a b c d l rule: less_induct)
  case less
  have s: "16 \<le> length s" using less.prems by linarith
  have "sint l < 2 ^ 31" using sint_lt [of l] by simp
  then have l: "sint (l - 16) = sint l - 16"
    using less.prems by (simp add: sint_word_ariths signed_take_bit_int_eq_self)
  have "\<exists>r. cityMurmur_loop (drop 16 s) a b c d (l - 16) = Some r"
    if "\<not> sint (l - 16) \<le> 0" for a b c d
    using that s l less.prems by (intro less.hyps) auto
  then show ?case
    using s by (subst cityMurmur_loop.simps) (auto simp: panic_free Let_def)
qed

lemma sint_len_minus_16: "unat len < 128 \<Longrightarrow> sint (len - 16) = int (unat len) - 16" for len :: uint32
proof -
  assume "unat len < 128"
  then have "0 \<le> uint len" "uint len < 128"
    using of_nat_less_iff [of "unat len" 128, where ?'a = int] by simp_all
  moreover have "- 2147483648 \<le> uint len - 16" using \<open>0 \<le> uint len\<close> by linarith
  moreover have "- 2147483648 \<le> uint len" using \<open>0 \<le> uint len\<close> by linarith
  moreover from calculation have "sint len = uint len"
    by (simp add: sint_uint signed_take_bit_int_eq_self)
  ultimately show ?thesis
    by (simp add: sint_word_ariths signed_take_bit_int_eq_self)
qed

lemma cityMurmur_ok:
  assumes l: "unat len = length s" "length s < 128"
  shows "\<exists>u. cityMurmur s len seed = Some u"
proof (cases "length s \<le> 16")
  case True
  then show ?thesis
    using hashLen0to16_ok [OF l(1)] l sint_len_minus_16 [of len]
    by (auto simp: cityMurmur_def Let_def panic_free word_le_nat_alt)
next
  case False
  have sint: "sint (len - 16) = int (length s) - 16"
    using l sint_len_minus_16 [of len] by simp
  then have "\<forall>a b c d. \<exists>r. cityMurmur_loop s a b c d (len - 16) = Some r"
    using False by (intro allI cityMurmur_loop_ok) auto
  then obtain L where "cityMurmur_loop s a b c d (len - 16) = Some (L a b c d)" for a b c d
    by metis
  then show ?thesis
    using False l sint
    by (simp add: cityMurmur_def Let_def panic_free unat_len_minus split: prod.splits)
qed

lemma CityHash128_loop_ok:
  assumes "128 \<le> unat len" and "unat len \<le> length s"
  shows "\<exists>st' len'. CityHash128_loop s st len = Some (st', len') \<and> unat len' < 128"
  using assms
proof (induction "unat len" arbitrary: s st len rule: less_induct)
  case less
  obtain st1 where st1: "city_round s st = Some (drop 64 s, st1)"
    using less.prems city_round_ok [of s] by fastforce
  obtain st2 where st2: "city_round (drop 64 s) st1 = Some (drop 128 s, st2)"
    using less.prems city_round_ok [of "drop 64 s"] by fastforce
  have len: "unat (len - 128) = unat len - 128"
    using less.prems by (simp add: unat_len_minus)
  have "\<exists>st' len'. CityHash128_loop (drop 128 s) st2 (len - 128) = Some (st', len') \<and> unat len' < 128"
    if "\<not> len - 128 < 128"
    using that len less.prems by (intro less.hyps) (auto simp: word_less_nat_alt)
  then show ?case
    using st1 st2 by (subst CityHash128_loop.simps) (auto simp: word_less_nat_alt)
qed

lemma CityHash128_tail_ok:
  assumes "unat n = length t" "128 \<le> length t" "unat len < 128" "32 dvd k" 
  shows "\<exists>st'. CityHash128_tail t n len k st = Some st'"
  using assms(4)
proof (induction "unat len - k" arbitrary: k st rule: less_induct)
  case less
  show ?case
  proof (cases "k < unat len")
    case True
    have k: "k + 32 \<le> 128" using True less.prems assms(3) by presburger
    then have off: "unat (n - (word_of_nat k + 32)) = length t - (k + 32)"
      using assms unat_len_minus [of n "length t" "of_nat (k + 32)"]
        unat_less_word_imp_of_nat [of "k + 32", where ?'a = 32] by simp
    have lt: "length t - (k + 32) + 16 < 2 ^ LENGTH(32)"
      using k assms(1,2) unsigned_less [of n, where ?'a = nat] by simp
    then have off16: "unat (n - (word_of_nat k + 32) + 16) = length t - (k + 32) + 16"
      using off by (subst unat_add_lem [THEN iffD1]) simp_all
    have "\<forall>a b. \<exists>u. weakHashLen32WithSeeds_3 (drop (length t - (k + 32)) t) a b = Some u"
      using k assms by (simp add: weakHash_ok)
    then obtain W where "weakHashLen32WithSeeds_3 (drop (length t - (k + 32)) t) a b = Some (W a b)" for a b
      by metis
    moreover have "\<exists>st'. CityHash128_tail t n len (k + 32) st = Some st'" for st
      using True less.prems by (intro less.hyps) auto
    ultimately show ?thesis using True k off off16 assms
      by (subst CityHash128_tail.simps) (simp add: Let_def panic_free)
  next
    case False
    then show ?thesis by (subst CityHash128_tail.simps) simp
  qed
qed

lemma CityHash128WithSeed_ok:
  assumes l: "unat len = length s"
  shows "\<exists>u. CityHash128WithSeed s len seed = Some u"
proof (cases "length s < 128")
  case True
  with l show ?thesis by (simp add: CityHash128WithSeed_def word_less_nat_alt cityMurmur_ok)
next
  case False
  have "\<forall>st. \<exists>r. CityHash128_loop s st len = Some r \<and> unat (snd r) < 128"
    using CityHash128_loop_ok [of len s] False l by fastforce
  then obtain L where L: "CityHash128_loop s st len = Some (L st)" "unat (snd (L st)) < 128" for st
    by metis
  have "\<forall>st st'. \<exists>x. CityHash128_tail s len (snd (L st)) 0 st' = Some x"
    using CityHash128_tail_ok [OF l] L(2) False by simp
  then obtain T where "CityHash128_tail s len (snd (L st)) 0 st' = Some (T st st')" for st st'
    by metis
  then show ?thesis
    using False l L(1)
    by (simp add: CityHash128WithSeed_def word_less_nat_alt Let_def panic_free split_beta)
qed

lemma CityHash128_total:
  assumes l: "unat len = length s"
  shows "\<exists>u. CityHash128 s len = Some u"
proof (cases "16 \<le> length s")
  case True
  then show ?thesis
    using l by (simp add: CityHash128_def word_le_nat_alt panic_free CityHash128WithSeed_ok unat_len_minus)
next
  case False
  with l show ?thesis by (simp add: CityHash128_def word_le_nat_alt CityHash128WithSeed_ok)
qed


text \<open>
  C32: the hash functions never index outside their argument: called with the length of
  the byte slice, as \<^verbatim>\<open>WsServer.Bucket\<close> does, each returns a hash for every slice.
\<close>
theorem CityHash_no_panic:
  assumes "unat len = length s"
  shows "(\<exists>h. CityHash32 s len = Some h) \<and> (\<exists>h. CityHash64 s len = Some h)
     \<and> (\<exists>h. CityHash128 s len = Some h)"
  using assms by (simp add: CityHash32_total CityHash64_total CityHash128_total)

theorem CityHash_no_panic_witness:
  "unat (3 :: uint32) = length [0x31, 0x32, 0x33 :: byte] \<and> (\<exists>h. CityHash32 [0x31, 0x32, 0x33] 3 = Some h)
   \<and> (\<exists>h. CityHash64 [0x31, 0x32, 0x33] 3 = Some h)"
  using CityHash_no_panic [of 3 "[0x31, 0x32, 0x33]"] by simp

end
