(* ===== verification/WsServer.thy ===== *)
theory WsServer
  imports Bucket CityHash
begin

text \<open>
  The server of the connect layer (\<^verbatim>\<open>connect/server.go\<close>), the remote procedures that the task
  layer calls on it (\<^verbatim>\<open>connect/rpc.go\<close>) and the frames it writes to clients
  (\<^verbatim>\<open>connect/utils.go\<close>). All buckets share one heap of connections and group nodes.
\<close>

section \<open>Server and buckets\<close>

text \<open>Durations are in nanoseconds, as in package \<^verbatim>\<open>time\<close>.\<close>

record wsServerOptions =
  WriteWait :: int
  PongWait :: int
  PingPeriod :: int
  MaxMessageSize :: int
  ReadBufferSize :: int
  WriteBufferSize :: int
  BroadcastSize :: int

definition second :: int where "second = 1000000000"

definition default_options :: wsServerOptions where
  "default_options = \<lparr>WriteWait = 120 * second, PongWait = 120 * second, PingPeriod = 30 * second,
     MaxMessageSize = 512, ReadBufferSize = 1024, WriteBufferSize = 1024, BroadcastSize = 512\<rparr>"

definition WsWithMaxMessageSize :: "int \<Rightarrow> wsServerOptions \<Rightarrow> wsServerOptions" where
  "WsWithMaxMessageSize n o' = o'\<lparr>MaxMessageSize := n\<rparr>"

definition WsWithReadBufferSize :: "int \<Rightarrow> wsServerOptions \<Rightarrow> wsServerOptions" where
  "WsWithReadBufferSize n o' = o'\<lparr>ReadBufferSize := n\<rparr>"

definition WsWithWriteBufferSize :: "int \<Rightarrow> wsServerOptions \<Rightarrow> wsServerOptions" where
  "WsWithWriteBufferSize n o' = o'\<lparr>WriteBufferSize := n\<rparr>"

record WsServer =
  ws_Buckets :: "Bucket list"
  ws_bucketNum :: uint32
  ws_Options :: wsServerOptions

definition NewServer :: "Bucket list \<Rightarrow> (wsServerOptions \<Rightarrow> wsServerOptions) list \<Rightarrow> WsServer" where
  "NewServer buckets opts =
     \<lparr>ws_Buckets = buckets, ws_bucketNum = of_nat (length buckets), ws_Options = fold (\<lambda>f. f) opts default_options\<rparr>"

text \<open>\<^verbatim>\<open>WsServer.Bucket\<close>: the position of the user's bucket; a server without buckets panics.\<close>

definition bucket_of :: "WsServer \<Rightarrow> int \<Rightarrow> nat option" where
  "bucket_of ws userid = do {
     let useridStr = fmt_d userid;
     h \<leftarrow> CityHash32 (bytes_of useridStr) (of_nat (length useridStr));
     if ws_bucketNum ws = 0 then None
     else (let idx = unat (h mod ws_bucketNum ws)
           in if idx < length (ws_Buckets ws) then Some idx else None)
   }"

section \<open>Remote procedures\<close>

type_synonym conn_state = "WsServer \<times> heap"

text \<open>
  The outcome of a call: the error it returns, if any; waiting at a full queue of a bucket, after
  the earlier buckets have been served; or a panic.
\<close>

datatype rpc_error = NilRequest | NoConnection int

datatype rpc_result = Replied "rpc_error option" conn_state | WaitingAt nat nat conn_state | RpcPanic

fun broadcast_buckets :: "(Bucket \<Rightarrow> broadcast) \<Rightarrow> nat \<Rightarrow> conn_state \<Rightarrow> nat \<Rightarrow> rpc_result" where
  "broadcast_buckets send i (ws, h) 0 = Replied None (ws, h)"
| "broadcast_buckets send i (ws, h) (Suc n) =
     (case send (ws_Buckets ws ! i) of
        Sent b \<Rightarrow> broadcast_buckets send (Suc i) (ws\<lparr>ws_Buckets := (ws_Buckets ws)[i := b]\<rparr>, h) n
      | Waiting q b \<Rightarrow> WaitingAt i q (ws\<lparr>ws_Buckets := (ws_Buckets ws)[i := b]\<rparr>, h)
      | Panicked \<Rightarrow> RpcPanic)"

definition each_bucket :: "(Bucket \<Rightarrow> broadcast) \<Rightarrow> conn_state \<Rightarrow> rpc_result" where
  "each_bucket send s = broadcast_buckets send 0 s (length (ws_Buckets (fst s)))"

text \<open>
  A request is nil or carries a message that may itself be nil; \<^verbatim>\<open>json.Marshal\<close> of a nil message
  is \<^verbatim>\<open>null\<close>, reading a field of one panics.
\<close>

definition body_of :: "('a \<Rightarrow> json) \<Rightarrow> 'a option \<Rightarrow> string" where
  "body_of enc m = json_print (case m of None \<Rightarrow> JNull | Some x \<Rightarrow> enc x)"

definition rpc_PushGroupInfoMsg :: "PushGroupInfoMsgReq_Msg option option \<Rightarrow> conn_state \<Rightarrow> rpc_result" where
  "rpc_PushGroupInfoMsg req s =
     (case req of
        None \<Rightarrow> Replied (Some NilRequest) s
      | Some m \<Rightarrow> each_bucket (BroadcastStatusRoom (body_of enc_PushGroupInfoMsgReq_Msg m)) s)"

definition rpc_PushGroupCountMsg :: "PushGroupCountMsgReq_Msg option option \<Rightarrow> conn_state \<Rightarrow> rpc_result" where
  "rpc_PushGroupCountMsg req s =
     (case req of
        None \<Rightarrow> Replied (Some NilRequest) s
      | Some m \<Rightarrow> each_bucket (BroadcastStatusRoom (body_of enc_PushGroupCountMsgReq_Msg m)) s)"

text \<open>Sending to the connection of one user, or reporting that there is none.\<close>

definition to_user :: "int \<Rightarrow> int \<Rightarrow> (cref \<Rightarrow> heap \<Rightarrow> heap) \<Rightarrow> conn_state \<Rightarrow> rpc_result" where
  "to_user belong friendId send s =
     (case s of (ws, h) \<Rightarrow>
        (case bucket_of ws belong of
           None \<Rightarrow> RpcPanic
         | Some i \<Rightarrow>
             (case GetChannel belong (ws_Buckets ws ! i) of
                Some c \<Rightarrow> Replied None (ws, send c h)
              | None \<Rightarrow> Replied (Some (NoConnection friendId)) (ws, h))))"

definition rpc_PushFriendOnlineMsg :: "PushFriendOnlineMsgReq_Msg option option \<Rightarrow> conn_state \<Rightarrow> rpc_result" where
  "rpc_PushFriendOnlineMsg req s =
     (case req of
        None \<Rightarrow> Replied (Some NilRequest) s
      | Some None \<Rightarrow> RpcPanic
      | Some (Some m) \<Rightarrow>
          to_user (pfo_Belong m) (pfo_FriendId m) (\<lambda>c. PushStatus c (body_of enc_PushFriendOnlineMsgReq_Msg (Some m))) s)"

definition rpc_PushFriendOfflineMsg :: "PushFriendOfflineMsgReq_Msg option option \<Rightarrow> conn_state \<Rightarrow> rpc_result" where
  "rpc_PushFriendOfflineMsg req s =
     (case req of
        None \<Rightarrow> Replied (Some NilRequest) s
      | Some None \<Rightarrow> RpcPanic
      | Some (Some m) \<Rightarrow>
          to_user (pff_Belong m) (pff_FriendId m) (\<lambda>c. PushStatus c (body_of enc_PushFriendOfflineMsgReq_Msg (Some m))) s)"

text \<open>The position of a message in Kafka, as the task layer hands it over.\<close>

record kafkaMsgInfo =
  pk_Topic :: string
  pk_Partition :: int
  pk_Offset :: int
  pk_High_WaterMark :: int
  pk_Key :: string
  pk_Value :: string
  pk_Headers :: "(string \<times> string) list"
  pk_Time :: string

definition kafka_msg :: "kafkaMsgInfo \<Rightarrow> string \<Rightarrow> KafkaMessage" where
  "kafka_msg k msgBody =
     \<lparr>km_Topic = pk_Topic k, km_Partition = pk_Partition k, km_Offset = pk_Offset k,
      km_HighWaterMark = pk_High_WaterMark k, km_Key = pk_Key k, km_Value = msgBody, km_Headers = pk_Headers k,
      km_Time = (case parse_time (pk_Time k) of Some t \<Rightarrow> t | None \<Rightarrow> zero_time)\<rparr>"

definition rpc_PushGroupMsg ::
  "(PushGroupMsgReq_Msg option \<times> kafkaMsgInfo option) option \<Rightarrow> conn_state \<Rightarrow> rpc_result" where
  "rpc_PushGroupMsg req s =
     (case req of
        None \<Rightarrow> Replied (Some NilRequest) s
      | Some (m, None) \<Rightarrow> RpcPanic
      | Some (m, Some k) \<Rightarrow> each_bucket (BroadcastRoom (kafka_msg k (body_of enc_PushGroupMsgReq_Msg m))) s)"

text \<open>Unlike the other procedures, this one answers a nil request without an error.\<close>

definition rpc_PushFriendMsg ::
  "(PushFriendMsgReq_Msg option \<times> kafkaMsgInfo option) option \<Rightarrow> conn_state \<Rightarrow> rpc_result" where
  "rpc_PushFriendMsg req s =
     (case req of
        None \<Rightarrow> Replied None s
      | Some (m, None) \<Rightarrow> RpcPanic
      | Some (None, Some k) \<Rightarrow> RpcPanic
      | Some (Some m, Some k) \<Rightarrow>
          to_user (pfm_Belong m) (pfm_FriendId m)
            (\<lambda>c. Push c (kafka_msg k (body_of enc_PushFriendMsgReq_Msg (Some m)))) s)"

section \<open>Frames for clients\<close>

definition DealWebSocketResp :: "string \<Rightarrow> string" where
  "DealWebSocketResp msg =
     (let op = ms_Op (fst (Unmarshal dec_MsgSend msg zero_MsgSend));
          frame = (\<lambda>tag. json_print (JArr [JStr tag, JStr msg]))
      in if op = OpGroupMsgSend then frame ''groupMsg''
         else if op = OpGroupInfoSend then frame ''groupInfo''
         else if op = OpGroupOlineUserCountSend then frame ''groupCount''
         else if op = OPFriendOffOnlineSend then frame ''friendOff''
         else if op = OpFriendOnlineSend then frame ''friendOn''
         else if op = OpFriendMsgSend then frame ''friendMsg''
         else [])"

section \<open>Every user has a bucket\<close>

lemma nat_dec_length: "n < 10 ^ Suc k \<Longrightarrow> length (nat_dec n) \<le> Suc k"
proof (induction n arbitrary: k rule: nat_dec.induct)
  case (1 n)
  show ?case
  proof (cases "n < 10")
    case False
    then obtain l where k: "k = Suc l"
      using 1(2) by (cases k) auto
    have "n div 10 < 10 ^ Suc l"
      using 1(2) by (simp add: k less_mult_imp_div_less mult.commute)
    then show ?thesis
      using 1(1) [OF False] by (simp add: nat_dec.simps [of n] k False)
  qed (simp add: nat_dec.simps [of n])
qed

lemma fmt_d_length: "int64_range i \<Longrightarrow> length (fmt_d i) \<le> 20"
  using nat_dec_length [of "nat (- i)" 18] nat_dec_length [of "nat i" 18]
  by (auto simp: int64_range_def fmt_d_def nat_less_iff)

lemma bucket_of_some:
  assumes "int64_range userid" and "buckets \<noteq> []" and "length buckets < 2 ^ 32"
  shows "\<exists>i < length buckets. bucket_of (NewServer buckets opts) userid = Some i"
proof -
  let ?s = "fmt_d userid"
  have "unat (of_nat (length ?s) :: uint32) = length (bytes_of ?s)"
    using fmt_d_length [OF assms(1)] by (simp add: unat_less_word_imp_of_nat)
  then obtain h where "CityHash32 (bytes_of ?s) (of_nat (length ?s)) = Some h"
    using CityHash32_total by blast
  moreover have n: "unat (of_nat (length buckets) :: uint32) = length buckets"
    using assms(3) by (simp add: unat_less_word_imp_of_nat)
  moreover have "(of_nat (length buckets) :: uint32) \<noteq> 0"
    using n assms(2) by (metis length_0_conv unat_0)
  moreover have "unat (h mod of_nat (length buckets)) < length buckets"
    using assms(2) n by (simp add: unat_mod)
  ultimately show ?thesis
    by (simp add: bucket_of_def NewServer_def Let_def)
qed

text \<open>
  Every user id is assigned a bucket of the server, always the same one, as long as the
  server has a bucket; neither the hash nor the lookup can panic.
\<close>
theorem bucket_of_total:
  assumes "int64_range userid" and "buckets \<noteq> []" and "length buckets < 2 ^ 32"
  shows "\<exists>i < length buckets. bucket_of (NewServer buckets opts) userid = Some i"
  using assms by (rule bucket_of_some)

section \<open>What the client reads\<close>

text \<open>A private message whose numbers are those of Go.\<close>

definition friend_range :: "PushFriendMsgReq_Msg \<Rightarrow> bool" where
  "friend_range m \<longleftrightarrow> int64_range (pfm_Userid m) \<and> int64_range (pfm_FriendId m) \<and> int64_range (pfm_Belong m)
     \<and> int64_range (pfm_Watermark m) \<and> pfm_Op m = OpFriendMsgSend"

lemma dec_friend_get:
  "pfm_Userid (fst (dec_PushFriendMsgReq_Msg (JObj kvs) x)) = read_field ''userid'' dec_int kvs (pfm_Userid x)"
  "pfm_FriendId (fst (dec_PushFriendMsgReq_Msg (JObj kvs) x)) = read_field ''friendId'' dec_int kvs (pfm_FriendId x)"
  "pfm_Content (fst (dec_PushFriendMsgReq_Msg (JObj kvs) x)) = read_field ''content'' dec_string kvs (pfm_Content x)"
  "pfm_MessageType (fst (dec_PushFriendMsgReq_Msg (JObj kvs) x)) = read_field ''messageType'' dec_string kvs (pfm_MessageType x)"
  "pfm_FriendName (fst (dec_PushFriendMsgReq_Msg (JObj kvs) x)) = read_field ''friendName'' dec_string kvs (pfm_FriendName x)"
  "pfm_FromUsername (fst (dec_PushFriendMsgReq_Msg (JObj kvs) x)) = read_field ''fromUsername'' dec_string kvs (pfm_FromUsername x)"
  "pfm_CreateAt (fst (dec_PushFriendMsgReq_Msg (JObj kvs) x)) = read_field ''createAt'' dec_string kvs (pfm_CreateAt x)"
  "pfm_Op (fst (dec_PushFriendMsgReq_Msg (JObj kvs) x)) = read_field ''op'' dec_int32 kvs (pfm_Op x)"
  "pfm_SnowId (fst (dec_PushFriendMsgReq_Msg (JObj kvs) x)) = read_field ''snowId'' dec_string kvs (pfm_SnowId x)"
  "pfm_Avatar (fst (dec_PushFriendMsgReq_Msg (JObj kvs) x)) = read_field ''avatar'' dec_string kvs (pfm_Avatar x)"
  "pfm_Belong (fst (dec_PushFriendMsgReq_Msg (JObj kvs) x)) = read_field ''belong'' dec_int kvs (pfm_Belong x)"
  "pfm_Watermark (fst (dec_PushFriendMsgReq_Msg (JObj kvs) x)) = read_field ''watermark'' dec_int kvs (pfm_Watermark x)"
  unfolding dec_PushFriendMsgReq_Msg_def by (rule dec_struct_get, simp add: field_eval)+

lemma friend_msg_read:
  assumes "friend_range m"
  shows "fst (Unmarshal dec_PushFriendMsgReq_Msg (json_print (enc_PushFriendMsgReq_Msg m)) zero_PushFriendMsgReq_Msg) = m"
  unfolding Unmarshal_print [OF integral_group_msg(2)]
  by (rule PushFriendMsgReq_Msg.equality, unfold enc_PushFriendMsgReq_Msg_def dec_friend_get)
     (use assms in \<open>simp_all add: friend_range_def equalFold_eval lower_def zero_PushFriendMsgReq_Msg_def op_defs\<close>)

lemma frame_parse: "json_parse (json_print (JArr [JStr tag, JStr msg])) = Some (JArr [JStr tag, JStr msg])"
  by (rule json_parse_print) simp

text \<open>
  The requests that the task layer sends for clients, with the text that the connect layer writes
  for them, the operation they must name and the tag of their frame.
\<close>

datatype push =
    GroupMsgPush PushGroupMsgReq_Msg | GroupInfoPush PushGroupInfoMsgReq_Msg | GroupCountPush PushGroupCountMsgReq_Msg
  | FriendOfflinePush PushFriendOfflineMsgReq_Msg | FriendOnlinePush PushFriendOnlineMsgReq_Msg | FriendMsgPush PushFriendMsgReq_Msg

fun push_text :: "push \<Rightarrow> string" where
  "push_text (GroupMsgPush m) = body_of enc_PushGroupMsgReq_Msg (Some m)"
| "push_text (GroupInfoPush m) = body_of enc_PushGroupInfoMsgReq_Msg (Some m)"
| "push_text (GroupCountPush m) = body_of enc_PushGroupCountMsgReq_Msg (Some m)"
| "push_text (FriendOfflinePush m) = body_of enc_PushFriendOfflineMsgReq_Msg (Some m)"
| "push_text (FriendOnlinePush m) = body_of enc_PushFriendOnlineMsgReq_Msg (Some m)"
| "push_text (FriendMsgPush m) = body_of enc_PushFriendMsgReq_Msg (Some m)"

fun push_names_op :: "push \<Rightarrow> bool" where
  "push_names_op (GroupMsgPush m) \<longleftrightarrow> pgm_Op m = OpGroupMsgSend"
| "push_names_op (GroupInfoPush m) \<longleftrightarrow> pgi_Op m = OpGroupInfoSend"
| "push_names_op (GroupCountPush m) \<longleftrightarrow> pgc_Op m = OpGroupOlineUserCountSend"
| "push_names_op (FriendOfflinePush m) \<longleftrightarrow> pff_Op m = OPFriendOffOnlineSend"
| "push_names_op (FriendOnlinePush m) \<longleftrightarrow> pfo_Op m = OpFriendOnlineSend"
| "push_names_op (FriendMsgPush m) \<longleftrightarrow> pfm_Op m = OpFriendMsgSend"

fun push_tag :: "push \<Rightarrow> string" where
  "push_tag (GroupMsgPush m) = ''groupMsg''"
| "push_tag (GroupInfoPush m) = ''groupInfo''"
| "push_tag (GroupCountPush m) = ''groupCount''"
| "push_tag (FriendOfflinePush m) = ''friendOff''"
| "push_tag (FriendOnlinePush m) = ''friendOn''"
| "push_tag (FriendMsgPush m) = ''friendMsg''"

lemma friend_status_op:
  "int64_range (pff_Op m) \<Longrightarrow> ms_Op x = 0 \<Longrightarrow>
   ms_Op (fst (Unmarshal dec_MsgSend (json_print (enc_PushFriendOfflineMsgReq_Msg m)) x)) = pff_Op m"
  "int64_range (pfo_Op n) \<Longrightarrow> ms_Op x = 0 \<Longrightarrow>
   ms_Op (fst (Unmarshal dec_MsgSend (json_print (enc_PushFriendOnlineMsgReq_Msg n)) x)) = pfo_Op n"
proof -
  have "integral (enc_PushFriendOfflineMsgReq_Msg m)" "integral (enc_PushFriendOnlineMsgReq_Msg n)"
    by (simp_all add: enc_PushFriendOfflineMsgReq_Msg_def enc_PushFriendOnlineMsgReq_Msg_def integral_JObj del: integral.simps(7))
  note read = this [THEN Unmarshal_print]
  show "int64_range (pff_Op m) \<Longrightarrow> ms_Op x = 0 \<Longrightarrow>
     ms_Op (fst (Unmarshal dec_MsgSend (json_print (enc_PushFriendOfflineMsgReq_Msg m)) x)) = pff_Op m"
    unfolding read(1) unfolding enc_PushFriendOfflineMsgReq_Msg_def dec_MsgSend_op by (simp add: equalFold_eval lower_def)
  show "int64_range (pfo_Op n) \<Longrightarrow> ms_Op x = 0 \<Longrightarrow>
     ms_Op (fst (Unmarshal dec_MsgSend (json_print (enc_PushFriendOnlineMsgReq_Msg n)) x)) = pfo_Op n"
    unfolding read(2) unfolding enc_PushFriendOnlineMsgReq_Msg_def dec_MsgSend_op by (simp add: equalFold_eval lower_def)
qed

lemma frame_of_request:
  assumes "push_names_op p"
  shows "json_parse (DealWebSocketResp (push_text p)) = Some (JArr [JStr (push_tag p), JStr (push_text p)])"
proof -
  have "int64_range OpGroupMsgSend" "int64_range OpGroupInfoSend" "int64_range OpGroupOlineUserCountSend"
    "int64_range OPFriendOffOnlineSend" "int64_range OpFriendOnlineSend" "int64_range OpFriendMsgSend" "ms_Op zero_MsgSend = 0"
    by (simp_all add: op_defs int64_range_def zero_MsgSend_def)
  note ops = this group_msg_op [of _ zero_MsgSend] group_info_op [of _ zero_MsgSend] group_count_op [of _ zero_MsgSend]
    friend_msg_op [of _ zero_MsgSend] friend_status_op [where x = zero_MsgSend]
  have distinct: "distinct [OpGroupMsgSend, OpGroupInfoSend, OpGroupOlineUserCountSend, OPFriendOffOnlineSend, OpFriendOnlineSend, OpFriendMsgSend]"
    by (simp add: op_defs)
  show ?thesis
    using assms distinct
    by (cases p) (auto simp: DealWebSocketResp_def Let_def body_of_def ops frame_parse simp del: Unmarshal_print json_print.simps)
qed

text \<open>
  C28: each of the six kinds of requests gives a frame with its own tag, from which the client
  reads back the text of the request unchanged; so frames of different kinds, or of different texts,
  differ. Texts are taken to be valid UTF-8.
\<close>
theorem frame_roundtrip:
  assumes "push_names_op p"
  shows "json_parse (DealWebSocketResp (push_text p)) = Some (JArr [JStr (push_tag p), JStr (push_text p)])
     \<and> (\<forall>q. push_names_op q \<and> DealWebSocketResp (push_text q) = DealWebSocketResp (push_text p) \<longrightarrow>
          push_tag q = push_tag p \<and> push_text q = push_text p)"
  using frame_of_request [OF assms] frame_of_request by (metis json.inject(4,5) list.inject option.inject)

text \<open>
  C8: a private message for a connected user is appended to the buffer of that user's connection
  when there is room, and to no other: with the topic, the partition and the offset it came from, and
  a text from which the client reads the message that the request named, field by field. For a user
  who is not connected the caller gets an error and nothing changes.
\<close>
theorem friend_msg_delivery:
  assumes "bucket_of ws (pfm_Belong m) = Some i" and "friend_range m"
  shows "(\<forall>c. GetChannel (pfm_Belong m) (ws_Buckets ws ! i) = Some c \<longrightarrow>
       (\<exists>h' msg. rpc_PushFriendMsg (Some (Some m, Some k)) (ws, h) = Replied None (ws, h') \<and>
          fst (Unmarshal dec_PushFriendMsgReq_Msg (km_Value msg) zero_PushFriendMsgReq_Msg) = m
          \<and> json_parse (DealWebSocketResp (km_Value msg)) = Some (JArr [JStr ''friendMsg'', JStr (km_Value msg)])
          \<and> km_Topic msg = pk_Topic k \<and> km_Partition msg = pk_Partition k \<and> km_Offset msg = pk_Offset k
          \<and> ch_BroadcastMsg (h_ch h' c) =
              (if length (ch_BroadcastMsg (h_ch h c)) < ch_size (h_ch h c) then ch_BroadcastMsg (h_ch h c) @ [msg]
               else ch_BroadcastMsg (h_ch h c))
          \<and> (\<forall>d. d \<noteq> c \<longrightarrow> h_ch h' d = h_ch h d)))
     \<and> (GetChannel (pfm_Belong m) (ws_Buckets ws ! i) = None \<longrightarrow>
       rpc_PushFriendMsg (Some (Some m, Some k)) (ws, h) = Replied (Some (NoConnection (pfm_FriendId m))) (ws, h))"
proof -
  let ?text = "json_print (enc_PushFriendMsgReq_Msg m)"
  let ?msg = "kafka_msg k ?text"
  have "json_parse (DealWebSocketResp ?text) = Some (JArr [JStr ''friendMsg'', JStr ?text])"
    using frame_of_request [of "FriendMsgPush m"] assms(2) by (simp add: friend_range_def body_of_def)
  moreover have "km_Value ?msg = ?text" "km_Topic ?msg = pk_Topic k" "km_Partition ?msg = pk_Partition k" "km_Offset ?msg = pk_Offset k"
    by (simp_all add: kafka_msg_def)
  ultimately show ?thesis
    using assms(1) friend_msg_read [OF assms(2)]
    by (auto simp: rpc_PushFriendMsg_def to_user_def Push_def body_of_def offer_def simp del: Unmarshal_print intro!: exI [of _ ?msg])
qed

lemma broadcast_buckets_all:
  assumes "\<And>j. i \<le> j \<Longrightarrow> j < i + n \<Longrightarrow> send (ws_Buckets ws ! j) = Sent (f (ws_Buckets ws ! j))"
    and "i + n = length (ws_Buckets ws)"
  shows "broadcast_buckets send i (ws, h) n =
     Replied None (ws\<lparr>ws_Buckets := take i (ws_Buckets ws) @ map f (drop i (ws_Buckets ws))\<rparr>, h)"
  using assms
proof (induction n arbitrary: i ws)
  case (Suc n)
  let ?b = "ws_Buckets ws"
  let ?ws = "ws\<lparr>ws_Buckets := ?b[i := f (?b ! i)]\<rparr>"
  have "send (?b ! i) = Sent (f (?b ! i))"
    using Suc.prems by simp
  moreover have "broadcast_buckets send (Suc i) (?ws, h) n =
     Replied None (?ws\<lparr>ws_Buckets := take (Suc i) (ws_Buckets ?ws) @ map f (drop (Suc i) (ws_Buckets ?ws))\<rparr>, h)"
    using Suc.prems by (intro Suc.IH) auto
  moreover have "take (Suc i) (?b[i := f (?b ! i)]) = take i ?b @ [f (?b ! i)]"
    using Suc.prems(2) by (simp add: take_Suc_conv_app_nth)
  moreover have "drop i ?b = ?b ! i # drop (Suc i) ?b"
    using Suc.prems(2) by (simp add: Cons_nth_drop_Suc)
  ultimately show ?case
    by simp
qed simp

text \<open>
  C7: a group message that the task layer delivers is queued exactly once in every bucket of the
  server, since the members of a group are spread over the buckets; with room in the queues the
  call returns without an error.
\<close>
theorem group_msg_broadcast:
  assumes "\<forall>b \<in> set (ws_Buckets ws). queues_ok n b \<and> length (b_routines b ! queue_turn b) < b_routineSize b"
  shows "\<exists>ws'. rpc_PushGroupMsg (Some (m, Some k)) (ws, h) = Replied None (ws', h)
     \<and> length (ws_Buckets ws') = length (ws_Buckets ws)
     \<and> (\<forall>i < length (ws_Buckets ws). \<forall>q < n.
          b_routines (ws_Buckets ws' ! i) ! q = b_routines (ws_Buckets ws ! i) ! q @
            (if q = queue_turn (ws_Buckets ws ! i) then [kafka_msg k (body_of enc_PushGroupMsgReq_Msg m)] else []))"
proof -
  let ?msg = "kafka_msg k (body_of enc_PushGroupMsgReq_Msg m)"
  let ?f = "\<lambda>b. (queue_step b)\<lparr>b_routines := (b_routines b)[queue_turn b := b_routines b ! queue_turn b @ [?msg]]\<rparr>"
  have ok: "queues_ok n b" "BroadcastRoom ?msg b = Sent (?f b)" if "b \<in> set (ws_Buckets ws)" for b
    using assms that BroadcastRoom_turn [of n b ?msg] by (simp_all add: Let_def)
  have "rpc_PushGroupMsg (Some (m, Some k)) (ws, h) = Replied None (ws\<lparr>ws_Buckets := map ?f (ws_Buckets ws)\<rparr>, h)"
    using broadcast_buckets_all [of 0 "length (ws_Buckets ws)" "BroadcastRoom ?msg" ws ?f h] ok(2)
    by (simp add: rpc_PushGroupMsg_def each_bucket_def)
  moreover have "b_routines (?f b) ! q = b_routines b ! q @ (if q = queue_turn b then [?msg] else [])"
    if "b \<in> set (ws_Buckets ws)" "q < n" for b q
    using ok(1) [OF that(1)] that(2) by (simp add: queues_ok_def nth_list_update)
  ultimately show ?thesis
    by auto
qed

section \<open>Instances\<close>

definition server0 :: WsServer where
  "server0 = NewServer [fst joined] []"

lemma bucket_of_server0: "bucket_of server0 5 = Some 0"
  using bucket_of_some [of 5 "[fst joined]" "[]"] by (simp add: server0_def int64_range_def)

definition pos0 :: kafkaMsgInfo where
  "pos0 = \<lparr>pk_Topic = ''friend_chat_5'', pk_Partition = 0, pk_Offset = 3, pk_High_WaterMark = 0, pk_Key = [],
     pk_Value = [], pk_Headers = [], pk_Time = []\<rparr>"

lemma joined_maps:
  "b_socketMap (fst joined) 5 = Some 0" "b_routines (fst joined) = replicate 32 []"
  "b_routineSize (fst joined) = 20" "b_routineNum (fst joined) = 32"
  by (simp_all add: joined_def PutChannel_def PutChannel_locked_def NewGroupNode_def NoGroup_def bucket0_def NewBucket_def
      defaultSocketSize_def defaultRoutineAmount_def defaultRoutineSize_def)

theorem bucket_of_total_witness:
  "int64_range 5 \<and> length [fst joined] < 2 ^ 32 \<and> (\<exists>i < 1. bucket_of (NewServer [fst joined] []) 5 = Some i)"
  using bucket_of_total [of 5 "[fst joined]" "[]"] by (simp add: int64_range_def)

definition letter5 :: PushFriendMsgReq_Msg where
  "letter5 = zero_PushFriendMsgReq_Msg\<lparr>pfm_Userid := 2, pfm_FriendId := 5, pfm_Belong := 5, pfm_Content := ''hi'', pfm_SnowId := ''x''\<rparr>"

lemma letter5: "friend_range letter5" "pfm_Belong letter5 = 5"
  by (simp_all add: letter5_def friend_range_def zero_PushFriendMsgReq_Msg_def int64_range_def op_defs)

theorem friend_msg_delivery_witness:
  "bucket_of server0 5 = Some 0 \<and>
   (\<exists>h' msg. rpc_PushFriendMsg (Some (Some letter5, Some pos0)) (server0, snd joined) = Replied None (server0, h')
      \<and> ch_BroadcastMsg (h_ch h' 0) = [msg]
      \<and> fst (Unmarshal dec_PushFriendMsgReq_Msg (km_Value msg) zero_PushFriendMsgReq_Msg) = letter5)"
proof -
  have "GetChannel 5 (ws_Buckets server0 ! 0) = Some 0"
    using joined_maps(1) by (simp add: GetChannel_def server0_def NewServer_def)
  then show ?thesis
    using friend_msg_delivery [of server0 letter5 0 pos0 "snd joined"] bucket_of_server0 joined_conn letter5
    by (fastforce simp: offer_def)
qed

theorem frame_roundtrip_witness:
  "push_names_op (FriendMsgPush letter5) \<and>
   json_parse (DealWebSocketResp (push_text (FriendMsgPush letter5))) = Some (JArr [JStr ''friendMsg'', JStr (push_text (FriendMsgPush letter5))])"
  using letter5(1) frame_roundtrip [of "FriendMsgPush letter5"] by (simp add: friend_range_def)

theorem group_msg_broadcast_witness:
  "queues_ok 32 (fst joined) \<and> ws_Buckets server0 = [fst joined] \<and>
   (\<exists>ws'. rpc_PushGroupMsg (Some (Some hello, Some pos0)) (server0, snd joined) = Replied None (ws', snd joined))"
proof -
  have 1: "queues_ok 32 (fst joined)"
    using joined_maps by (simp add: queues_ok_def)
  have 2: "\<forall>b \<in> set (ws_Buckets server0). queues_ok 32 b \<and> length (b_routines b ! queue_turn b) < b_routineSize b"
    using 1 joined_maps queues.turn_less [OF 1] by (simp add: server0_def NewServer_def)
  show ?thesis
    using 1 group_msg_broadcast [OF 2, of "Some hello" pos0 "snd joined"] by (auto simp: server0_def NewServer_def)
qed

end
