(* ===== verification/ConsistentHash.thy ===== *)
theory ConsistentHash
  imports GoStrings "HOL-Library.Multiset"
begin

text \<open>
  The consistent-hash ring that spreads the Redis keys over the servers
  (\<^verbatim>\<open>src/utils/consistent_hash.go\<close>), with the two routines of the Go library it uses:
  the binary search \<^verbatim>\<open>sort.Search\<close> and the default hash \<^verbatim>\<open>crc32.ChecksumIEEE\<close>.
\<close>

section \<open>Library routines\<close>

definition crc_shift :: "uint32 \<Rightarrow> uint32" where
  "crc_shift x = (if bit x 0 then drop_bit 1 x XOR 0xEDB88320 else drop_bit 1 x)"

definition crc_byte :: "byte \<Rightarrow> uint32 \<Rightarrow> uint32" where
  "crc_byte b crc = (crc_shift ^^ 8) (crc XOR ucast b)"

definition ChecksumIEEE :: "byte list \<Rightarrow> uint32" where
  "ChecksumIEEE data = NOT (fold crc_byte data (NOT 0))"

function search_loop :: "(nat \<Rightarrow> bool) \<Rightarrow> nat \<Rightarrow> nat \<Rightarrow> nat" where
  "search_loop f i j =
     (if i < j then
        (let h = (i + j) div 2 in if \<not> f h then search_loop f (h + 1) j else search_loop f i h)
      else i)"
  by pat_completeness auto
termination
  by (relation "measure (\<lambda>(f, i, j). j - i)") auto

declare search_loop.simps [simp del]

definition Search :: "nat \<Rightarrow> (nat \<Rightarrow> bool) \<Rightarrow> nat" where
  "Search n f = search_loop f 0 n"

section \<open>The ring\<close>

record HashBalance =
  hb_hash :: "byte list \<Rightarrow> uint32"
  hb_replicas :: int
  hb_keys :: "uint32 list"
  hb_hashMap :: "uint32 \<rightharpoonup> string"

datatype hb_error = ParamLenError | NodeEmpty

definition NewHashBalance :: "int \<Rightarrow> (byte list \<Rightarrow> uint32) option \<Rightarrow> HashBalance" where
  "NewHashBalance replies fn =
     \<lparr>hb_hash = (case fn of None \<Rightarrow> ChecksumIEEE | Some h \<Rightarrow> h),
      hb_replicas = replies, hb_keys = [], hb_hashMap = Map.empty\<rparr>"

definition IsEmpty :: "HashBalance \<Rightarrow> bool" where
  "IsEmpty c \<longleftrightarrow> length (hb_keys c) = 0"

text \<open>The hash of virtual node \<^verbatim>\<open>i\<close> of a node, and the body of the inner loop of \<^verbatim>\<open>Add\<close>.\<close>

definition vnode_hash :: "HashBalance \<Rightarrow> string \<Rightarrow> nat \<Rightarrow> uint32" where
  "vnode_hash c val i = hb_hash c (bytes_of (val @ ''#'' @ fmt_d (int i)))"

definition add_vnode :: "string \<Rightarrow> nat \<Rightarrow> HashBalance \<Rightarrow> HashBalance" where
  "add_vnode val i c =
     (let hash = vnode_hash c val i
      in c\<lparr>hb_keys := hb_keys c @ [hash], hb_hashMap := (hb_hashMap c)(hash \<mapsto> val)\<rparr>)"

definition add_node :: "string \<Rightarrow> HashBalance \<Rightarrow> HashBalance" where
  "add_node val c = fold (add_vnode val) [0..<nat (hb_replicas c)] c"

definition Add :: "HashBalance \<Rightarrow> string list \<Rightarrow> hb_error + HashBalance" where
  "Add c params =
     (if length params = 0 then Inl ParamLenError
      else (let c' = fold add_node params c in Inr (c'\<lparr>hb_keys := sort (hb_keys c')\<rparr>)))"

definition ring_idx :: "HashBalance \<Rightarrow> uint32 \<Rightarrow> nat" where
  "ring_idx c hash =
     (let idx = Search (length (hb_keys c)) (\<lambda>i. hash \<le> hb_keys c ! i)
      in if idx = length (hb_keys c) then 0 else idx)"

definition Get :: "HashBalance \<Rightarrow> string \<Rightarrow> hb_error + string" where
  "Get c key =
     (if IsEmpty c then Inl NodeEmpty
      else (let hash = hb_hash c (bytes_of key);
                idx = ring_idx c hash
            in case hb_hashMap c (hb_keys c ! idx) of None \<Rightarrow> Inr [] | Some v \<Rightarrow> Inr v))"

section \<open>Binary search\<close>

lemma search_loop_stop: "\<not> i < j \<Longrightarrow> search_loop f i j = i"
  by (subst search_loop.simps) simp

lemma search_loop_right:
  "i < j \<Longrightarrow> \<not> f ((i + j) div 2) \<Longrightarrow> search_loop f i j = search_loop f ((i + j) div 2 + 1) j"
  by (subst search_loop.simps) (simp add: Let_def)

lemma search_loop_left:
  "i < j \<Longrightarrow> f ((i + j) div 2) \<Longrightarrow> search_loop f i j = search_loop f i ((i + j) div 2)"
  by (subst search_loop.simps) (simp add: Let_def)

lemma search_loop_bounds: "i \<le> j \<Longrightarrow> i \<le> search_loop f i j \<and> search_loop f i j \<le> j"
proof (induction f i j rule: search_loop.induct)
  case (1 f i j)
  show ?case
  proof (cases "i < j")
    case True
    then have h: "i \<le> (i + j) div 2" "(i + j) div 2 < j" by auto
    then show ?thesis
      using "1.IH"(1) [OF True refl] "1.IH"(2) [OF True refl] True
      by (cases "f ((i + j) div 2)") (auto simp: search_loop_left search_loop_right)
  next
    case False
    with "1.prems" show ?thesis by (simp add: search_loop_stop)
  qed
qed

text \<open>
  The loop invariant of \<^verbatim>\<open>sort.Search\<close>: everything below \<^verbatim>\<open>i\<close> is rejected and
  everything from \<^verbatim>\<open>j\<close> on is accepted.
\<close>

definition cut_at :: "(nat \<Rightarrow> bool) \<Rightarrow> nat \<Rightarrow> nat \<Rightarrow> nat \<Rightarrow> bool" where
  "cut_at f n i j \<longleftrightarrow> (\<forall>k. k < i \<longrightarrow> \<not> f k) \<and> (\<forall>k. j \<le> k \<and> k < n \<longrightarrow> f k)"

lemma search_loop_correct:
  assumes "cut_at f n i j" and "i \<le> j" and "j \<le> n"
    and mono: "\<And>a b. a \<le> b \<Longrightarrow> b < n \<Longrightarrow> f a \<Longrightarrow> f b"
  shows "cut_at f n (search_loop f i j) (search_loop f i j)"
  using assms(1-3)
proof (induction "j - i" arbitrary: i j rule: less_induct)
  case less
  let ?h = "(i + j) div 2"
  show ?case
  proof (cases "i < j")
    case True
    then have h: "i \<le> ?h" "?h < j" by auto
    show ?thesis
    proof (cases "f ?h")
      case fh: True
      have "cut_at f n i ?h"
        using less.prems fh mono [of ?h] by (simp add: cut_at_def)
      then have "cut_at f n (search_loop f i ?h) (search_loop f i ?h)"
        using h less.prems by (intro less.hyps) auto
      then show ?thesis by (simp add: search_loop_left True fh)
    next
      case fh: False
      have "\<not> f k" if "k < ?h + 1" for k
        using that h less.prems fh mono [of k ?h] by auto
      then have "cut_at f n (?h + 1) j"
        using less.prems by (simp add: cut_at_def)
      then have "cut_at f n (search_loop f (?h + 1) j) (search_loop f (?h + 1) j)"
        using h less.prems by (intro less.hyps) auto
      then show ?thesis by (simp add: search_loop_right True fh)
    qed
  next
    case False
    with less.prems show ?thesis by (simp add: search_loop_stop)
  qed
qed

lemma Search_le: "Search n f \<le> n"
  using search_loop_bounds [of 0 n f] by (simp add: Search_def)

lemma Search_correct:
  assumes "\<And>a b. a \<le> b \<Longrightarrow> b < n \<Longrightarrow> f a \<Longrightarrow> f b"
  shows "cut_at f n (Search n f) (Search n f)"
  unfolding Search_def by (rule search_loop_correct) (auto simp: cut_at_def intro: assms)

section \<open>The ring is the clockwise successor\<close>

definition ring_succ :: "uint32 set \<Rightarrow> uint32 \<Rightarrow> uint32" where
  "ring_succ K h = (if \<exists>k\<in>K. h \<le> k then Min {k \<in> K. h \<le> k} else Min K)"

lemma ring_idx_less: "hb_keys c \<noteq> [] \<Longrightarrow> ring_idx c h < length (hb_keys c)"
  using Search_le [of "length (hb_keys c)"] by (auto simp: ring_idx_def Let_def le_less)

lemma ring_succ_geI:
  "finite K \<Longrightarrow> k \<in> K \<Longrightarrow> h \<le> k \<Longrightarrow> (\<And>m. m \<in> K \<Longrightarrow> h \<le> m \<Longrightarrow> k \<le> m) \<Longrightarrow> ring_succ K h = k"
  unfolding ring_succ_def by (auto intro!: Min_eqI)

lemma ring_succ_wrapI:
  "finite K \<Longrightarrow> k \<in> K \<Longrightarrow> (\<And>m. m \<in> K \<Longrightarrow> k \<le> m \<and> \<not> h \<le> m) \<Longrightarrow> ring_succ K h = k"
  unfolding ring_succ_def by (auto intro!: Min_eqI)

lemma ring_idx_succ:
  assumes s: "sorted (hb_keys c)" and ne: "hb_keys c \<noteq> []"
  shows "hb_keys c ! ring_idx c h = ring_succ (set (hb_keys c)) h"
proof -
  define ks where "ks = hb_keys c"
  define i where "i = Search (length ks) (\<lambda>j. h \<le> ks ! j)"
  have mono: "ks ! a \<le> ks ! b" if "a \<le> b" "b < length ks" for a b
    using s that by (simp add: ks_def sorted_nth_mono)
  have c: "cut_at (\<lambda>j. h \<le> ks ! j) (length ks) i i"
    unfolding i_def by (rule Search_correct) (use mono order_trans in blast)
  have i: "i \<le> length ks" unfolding i_def by (rule Search_le)
  have idx: "ring_idx c h = (if i = length ks then 0 else i)"
    by (simp add: ring_idx_def ks_def i_def Let_def)
  show ?thesis
  proof (cases "i = length ks")
    case True
    have "ks ! 0 \<le> m \<and> \<not> h \<le> m" if "m \<in> set ks" for m
      using that c True mono [of 0] by (auto simp: cut_at_def in_set_conv_nth)
    then have "ring_succ (set ks) h = ks ! 0"
      using ne by (intro ring_succ_wrapI) (simp_all add: ks_def)
    with True show ?thesis by (simp add: idx ks_def)
  next
    case False
    then have il: "i < length ks" using i by simp
    have "ks ! i \<le> m" if m: "m \<in> set ks" "h \<le> m" for m
    proof -
      obtain j where j: "j < length ks" "ks ! j = m" using m by (auto simp: in_set_conv_nth)
      then have "\<not> j < i" using c m by (auto simp: cut_at_def)
      with j mono [of i j] show ?thesis by simp
    qed
    then have "ring_succ (set ks) h = ks ! i"
      using il c by (intro ring_succ_geI) (simp_all add: cut_at_def)
    with False show ?thesis by (simp add: idx ks_def)
  qed
qed

section \<open>The invariant\<close>

text \<open>
  The keys are sorted, every key is mapped to a node and every mapped hash is a key, and there
  is at least one virtual node per node.
\<close>

definition hb_ok :: "HashBalance \<Rightarrow> bool" where
  "hb_ok c \<longleftrightarrow> sorted (hb_keys c) \<and> set (hb_keys c) = dom (hb_hashMap c) \<and> 0 < hb_replicas c"

definition hb_nodes :: "HashBalance \<Rightarrow> string set" where
  "hb_nodes c = ran (hb_hashMap c)"

lemma NewHashBalance_ok: "0 < r \<Longrightarrow> hb_ok (NewHashBalance r fn)"
  by (simp add: hb_ok_def NewHashBalance_def)

lemma NewHashBalance_nodes [simp]: "hb_nodes (NewHashBalance r fn) = {}"
  by (simp add: hb_nodes_def NewHashBalance_def)

lemma add_vnode_frame [simp]:
  "hb_hash (add_vnode v i c) = hb_hash c" "hb_replicas (add_vnode v i c) = hb_replicas c"
  by (simp_all add: add_vnode_def Let_def)

lemma fold_add_vnode:
  "hb_hash (fold (add_vnode v) is c) = hb_hash c \<and>
   hb_replicas (fold (add_vnode v) is c) = hb_replicas c \<and>
   hb_keys (fold (add_vnode v) is c) = hb_keys c @ map (vnode_hash c v) is \<and>
   hb_hashMap (fold (add_vnode v) is c) =
     (\<lambda>h. if h \<in> vnode_hash c v ` set is then Some v else hb_hashMap c h)"
  by (induction "is" arbitrary: c) (auto simp: add_vnode_def vnode_hash_def Let_def fun_eq_iff)

text \<open>What adding one node does to the fields.\<close>

definition vnodes :: "HashBalance \<Rightarrow> string \<Rightarrow> uint32 set" where
  "vnodes c v = vnode_hash c v ` {0..<nat (hb_replicas c)}"

lemma add_node_fields:
  "hb_hash (add_node v c) = hb_hash c" "hb_replicas (add_node v c) = hb_replicas c"
  "set (hb_keys (add_node v c)) = set (hb_keys c) \<union> vnodes c v"
  "hb_hashMap (add_node v c) = (\<lambda>h. if h \<in> vnodes c v then Some v else hb_hashMap c h)"
  using fold_add_vnode [of v "[0..<nat (hb_replicas c)]" c]
  by (simp_all add: add_node_def vnodes_def)

definition hb_add :: "HashBalance \<Rightarrow> string \<Rightarrow> HashBalance" where
  "hb_add c v = (case Add c [v] of Inl _ \<Rightarrow> c | Inr c' \<Rightarrow> c')"

lemma hb_add_fields:
  "hb_hash (hb_add c v) = hb_hash c" "hb_replicas (hb_add c v) = hb_replicas c"
  "set (hb_keys (hb_add c v)) = set (hb_keys c) \<union> vnodes c v"
  "hb_hashMap (hb_add c v) = (\<lambda>h. if h \<in> vnodes c v then Some v else hb_hashMap c h)"
  "sorted (hb_keys (hb_add c v))"
  by (simp_all add: hb_add_def Add_def Let_def add_node_fields)

lemma hb_add_ok: "hb_ok c \<Longrightarrow> hb_ok (hb_add c v)"
  by (auto simp: hb_ok_def hb_add_fields split: if_splits)

lemma hb_add_nodes: "hb_nodes (hb_add c v) \<subseteq> insert v (hb_nodes c)"
  by (auto simp: hb_nodes_def hb_add_fields ran_def split: if_splits)

lemma vnodes_nonempty: "hb_ok c \<Longrightarrow> vnodes c v \<noteq> {}"
  by (simp add: hb_ok_def vnodes_def)

lemma hb_add_node_in: "hb_ok c \<Longrightarrow> v \<in> hb_nodes (hb_add c v)"
  using vnodes_nonempty [of c v] by (auto simp: hb_nodes_def hb_add_fields ran_def)

lemma Get_succ:
  assumes "hb_ok c" and "hb_keys c \<noteq> []"
  shows "\<exists>v. hb_hashMap c (ring_succ (set (hb_keys c)) (hb_hash c (bytes_of key))) = Some v
     \<and> Get c key = Inr v"
proof -
  let ?h = "hb_hash c (bytes_of key)"
  have k: "hb_keys c ! ring_idx c ?h = ring_succ (set (hb_keys c)) ?h"
    using assms by (simp add: hb_ok_def ring_idx_succ)
  have "hb_keys c ! ring_idx c ?h \<in> dom (hb_hashMap c)"
    using assms ring_idx_less [of c ?h] by (auto simp: hb_ok_def)
  then show ?thesis
    using assms k by (auto simp: Get_def IsEmpty_def Let_def)
qed

lemma hb_ok_nodes_empty: "hb_ok c \<Longrightarrow> hb_nodes c = {} \<longleftrightarrow> hb_keys c = []"
  by (auto simp: hb_ok_def hb_nodes_def ran_def dom_def)

lemma Get_None: "hb_ok c \<Longrightarrow> Get c key = Inl e \<longleftrightarrow> hb_nodes c = {} \<and> e = NodeEmpty"
  using Get_succ [of c key] by (cases "hb_keys c = []") (auto simp: hb_ok_nodes_empty Get_def IsEmpty_def)

lemma Get_in_nodes: "hb_ok c \<Longrightarrow> Get c key = Inr v \<Longrightarrow> v \<in> hb_nodes c"
  using Get_succ [of c key]
  by (cases "hb_keys c = []") (auto simp: hb_nodes_def Get_def IsEmpty_def intro: ranI)

lemma ring_succ_Un:
  assumes "finite K" "finite V" and "K \<noteq> {}" and "ring_succ (K \<union> V) h \<in> K"
  shows "ring_succ K h = ring_succ (K \<union> V) h"
proof (cases "\<exists>k\<in>K \<union> V. h \<le> k")
  case True
  have "{k \<in> K \<union> V. h \<le> k} \<noteq> {}" "finite {k \<in> K \<union> V. h \<le> k}"
    using True assms by auto
  then have "ring_succ (K \<union> V) h \<in> {k \<in> K \<union> V. h \<le> k}"
    "\<And>m. m \<in> {k \<in> K \<union> V. h \<le> k} \<Longrightarrow> ring_succ (K \<union> V) h \<le> m"
    using True Min_in Min_le by (simp_all only: ring_succ_def if_True)
  then show ?thesis using assms by (intro ring_succ_geI) auto
next
  case False
  then have "ring_succ (K \<union> V) h = Min (K \<union> V)" by (simp only: ring_succ_def if_False)
  then have "\<And>m. m \<in> K \<union> V \<Longrightarrow> ring_succ (K \<union> V) h \<le> m"
    using assms by simp
  then show ?thesis using False assms by (intro ring_succ_wrapI) auto
qed

lemma Get_hb_add:
  assumes ok: "hb_ok c"
  shows "Get (hb_add c v) key = Inr v \<or> Get (hb_add c v) key = Get c key"
proof -
  let ?c' = "hb_add c v" and ?h = "hb_hash c (bytes_of key)"
  let ?s = "ring_succ (set (hb_keys c) \<union> vnodes c v) ?h"
  have ok': "hb_ok ?c'" using ok by (rule hb_add_ok)
  have "hb_keys ?c' \<noteq> []"
    using vnodes_nonempty [OF ok, of v] hb_add_fields(3) [of c v] by auto
  then obtain w where w: "hb_hashMap ?c' ?s = Some w" "Get ?c' key = Inr w"
    using Get_succ [OF ok', of key] by (auto simp: hb_add_fields)
  show ?thesis
  proof (cases "?s \<in> vnodes c v")
    case True
    with w show ?thesis by (simp add: hb_add_fields)
  next
    case False
    then have old: "hb_hashMap c ?s = Some w" using w by (simp add: hb_add_fields)
    then have "?s \<in> set (hb_keys c)" using ok by (auto simp: hb_ok_def)
    moreover then have ne: "hb_keys c \<noteq> []" by auto
    ultimately have "ring_succ (set (hb_keys c)) ?h = ?s"
      by (intro ring_succ_Un) (auto simp: vnodes_def)
    then show ?thesis
      using w old Get_succ [OF ok ne, of key] by auto
  qed
qed

text \<open>
  Adding several nodes at once, with one sort at the end, is adding them one by one.
\<close>

definition hb_norm :: "HashBalance \<Rightarrow> HashBalance" where
  "hb_norm c = c\<lparr>hb_keys := sort (hb_keys c)\<rparr>"

lemma hb_add_norm: "hb_add c v = hb_norm (add_node v c)"
  by (simp add: hb_add_def Add_def hb_norm_def Let_def)

lemma hb_norm_idem [simp]: "hb_norm (hb_norm c) = hb_norm c"
  by (simp add: hb_norm_def sorted_sort_id)

lemma hb_norm_ok: "hb_ok c \<Longrightarrow> hb_norm c = c"
  by (simp add: hb_norm_def hb_ok_def sorted_sort_id)

lemma hb_norm_add_node [simp]: "hb_norm (add_node v (hb_norm c)) = hb_norm (add_node v c)"
proof -
  have "vnode_hash (hb_norm c) v = vnode_hash c v"
    by (simp add: vnode_hash_def hb_norm_def fun_eq_iff)
  then show ?thesis
    using fold_add_vnode [of v "[0..<nat (hb_replicas c)]" c]
      fold_add_vnode [of v "[0..<nat (hb_replicas c)]" "hb_norm c"]
    by (intro HashBalance.equality)
       (auto simp: hb_norm_def add_node_def intro!: properties_for_sort)
qed

lemma hb_norm_fold: "hb_norm (fold add_node vs (hb_norm c)) = hb_norm (fold add_node vs c)"
proof (induction vs arbitrary: c)
  case (Cons v vs)
  have "hb_norm (fold add_node vs (add_node v (hb_norm c)))
      = hb_norm (fold add_node vs (hb_norm (add_node v (hb_norm c))))"
    by (simp only: Cons.IH)
  also have "\<dots> = hb_norm (fold add_node vs (add_node v c))"
    by (simp only: hb_norm_add_node Cons.IH)
  finally show ?case by simp
qed simp

lemma fold_add_node_norm: "hb_norm (fold add_node vs c) = fold (\<lambda>v c. hb_add c v) vs (hb_norm c)"
proof (induction vs arbitrary: c)
  case (Cons v vs)
  have "hb_norm (fold add_node (v # vs) c) = fold (\<lambda>v c. hb_add c v) vs (hb_norm (add_node v c))"
    using Cons.IH [of "add_node v c"] by simp
  then show ?case by (simp add: hb_add_norm)
qed simp

lemma Add_fold:
  "hb_ok c \<Longrightarrow> Add c vs = (if vs = [] then Inl ParamLenError else Inr (fold (\<lambda>v c. hb_add c v) vs c))"
  using fold_add_node_norm [of vs c]
  by (simp add: Add_def Let_def hb_norm_ok) (simp add: hb_norm_def)

section \<open>The interface of the ring\<close>

text \<open>
  What the Redis layer relies on: a key is served by one of the nodes, and adding a node moves
  a key to that node or not at all.
\<close>

locale balancer =
  fixes init :: 'c
    and add :: "'c \<Rightarrow> string \<Rightarrow> 'c"
    and get :: "'c \<Rightarrow> string \<Rightarrow> string option"
    and nodes :: "'c \<Rightarrow> string set"
    and invar :: "'c \<Rightarrow> bool"
  assumes invar_init: "invar init"
    and nodes_init: "nodes init = {}"
    and invar_add: "invar c \<Longrightarrow> invar (add c v)"
    and nodes_add: "invar c \<Longrightarrow> nodes (add c v) \<subseteq> insert v (nodes c)"
    and node_added: "invar c \<Longrightarrow> v \<in> nodes (add c v)"
    and get_total: "invar c \<Longrightarrow> get c k = None \<longleftrightarrow> nodes c = {}"
    and get_node: "invar c \<Longrightarrow> get c k = Some v \<Longrightarrow> v \<in> nodes c"
    and get_add: "invar c \<Longrightarrow> get (add c v) k = Some v \<or> get (add c v) k = get c k"
begin

lemma invar_add_all: "invar c \<Longrightarrow> invar (fold (\<lambda>v c. add c v) vs c)"
  by (induction vs arbitrary: c) (auto intro: invar_add)

lemma nodes_add_all: "invar c \<Longrightarrow> nodes (fold (\<lambda>v c. add c v) vs c) \<subseteq> set vs \<union> nodes c"
proof (induction vs arbitrary: c)
  case (Cons v vs)
  then show ?case using nodes_add [of c v] invar_add [of c v] by fastforce
qed simp

lemma nodes_add_all_nonempty: "invar c \<Longrightarrow> vs \<noteq> [] \<Longrightarrow> nodes (fold (\<lambda>v c. add c v) vs c) \<noteq> {}"
proof (induction vs arbitrary: c rule: rev_induct)
  case (snoc v vs)
  have "invar (fold (\<lambda>v c. add c v) vs c)"
    using snoc.prems(1) invar_add_all [of c vs] by simp
  then show ?case using node_added by auto
qed simp

lemma get_add_all: "invar c \<Longrightarrow> get (fold (\<lambda>v c. add c v) vs c) k = get c k \<or> get (fold (\<lambda>v c. add c v) vs c) k \<in> Some ` set vs"
proof (induction vs arbitrary: c)
  case (Cons v vs)
  then show ?case using Cons.IH [OF invar_add [OF Cons.prems], of v] get_add [of c v k] by auto
qed simp

lemma get_routed:
  "hosts \<noteq> [] \<Longrightarrow> \<exists>v \<in> set hosts. get (fold (\<lambda>v c. add c v) hosts init) k = Some v"
  using nodes_add_all_nonempty [OF invar_init, of hosts] nodes_add_all [OF invar_init, of hosts]
    get_total [OF invar_add_all [OF invar_init], of hosts k] get_node [OF invar_add_all [OF invar_init]]
  by (auto simp: nodes_init) blast

end

definition hb_get :: "HashBalance \<Rightarrow> string \<Rightarrow> string option" where
  "hb_get c k = (case Get c k of Inl _ \<Rightarrow> None | Inr a \<Rightarrow> Some a)"

lemma hb_get_simps: "hb_get c k = Some v \<longleftrightarrow> Get c k = Inr v" "hb_get c k = None \<longleftrightarrow> (\<exists>e. Get c k = Inl e)"
  by (auto simp: hb_get_def split: sum.splits)

interpretation ring: balancer "NewHashBalance 16 None" hb_add hb_get hb_nodes hb_ok
proof unfold_locales
  fix c :: HashBalance and v k
  assume c: "hb_ok c"
  show "hb_get (hb_add c v) k = Some v \<or> hb_get (hb_add c v) k = hb_get c k"
    using Get_hb_add [OF c, of v k] by (auto simp: hb_get_def)
  show "hb_get c k = None \<longleftrightarrow> hb_nodes c = {}"
    using Get_None [OF c] by (auto simp: hb_get_simps)
qed (auto simp: NewHashBalance_ok hb_add_ok hb_add_node_in hb_get_simps Get_in_nodes
       dest: subsetD [OF hb_add_nodes])

lemma ring_succ_mem: "finite K \<Longrightarrow> h \<in> K \<Longrightarrow> ring_succ K h = h"
  by (rule ring_succ_geI) simp_all

text \<open>
  C30: \<^verbatim>\<open>Get\<close> answers with the node of the clockwise successor of the key's hash: the node
  stored at the least virtual-node hash that is not below it, or at the least of all when the
  key's hash lies beyond the last one. In particular the binary search never leaves the slice, and a
  virtual node whose hash is that of the key is the one that answers, where the comment in the code
  asks for a greater hash.
\<close>
theorem Get_clockwise:
  assumes "hb_ok c" and "hb_nodes c \<noteq> {}"
  shows "(\<exists>v. hb_hashMap c (ring_succ (dom (hb_hashMap c)) (hb_hash c (bytes_of key))) = Some v \<and> Get c key = Inr v)
     \<and> (\<forall>u. hb_hashMap c (hb_hash c (bytes_of key)) = Some u \<longrightarrow> Get c key = Inr u)"
proof -
  have fin: "finite (dom (hb_hashMap c))"
    using assms(1) by (metis hb_ok_def List.finite_set)
  obtain v where "hb_hashMap c (ring_succ (dom (hb_hashMap c)) (hb_hash c (bytes_of key))) = Some v" "Get c key = Inr v"
    using Get_succ [of c key] assms by (auto simp: hb_ok_nodes_empty hb_ok_def)
  then show ?thesis
    using ring_succ_mem [OF fin] by (metis domI option.inject)
qed

text \<open>
  C31: adding servers to the ring moves a key to one of the new servers or leaves it where
  it was, whatever hash function is used and even when virtual nodes collide.
\<close>
theorem Add_stable:
  assumes "hb_ok c" and "Add c vs = Inr c'"
  shows "hb_ok c' \<and> (Get c' key = Get c key \<or> (\<exists>v\<in>set vs. Get c' key = Inr v))"
proof -
  have c': "c' = fold (\<lambda>v c. hb_add c v) vs c"
    using assms by (simp add: Add_fold split: if_splits)
  have "hb_get c' key = hb_get c key \<or> hb_get c' key \<in> Some ` set vs"
    unfolding c' by (rule ring.get_add_all [OF assms(1)])
  moreover have "hb_ok c'"
    unfolding c' by (rule ring.invar_add_all [OF assms(1)])
  moreover have "Get c' key = Get c key" if "hb_get c' key = hb_get c key"
    using that by (auto simp: hb_get_def Get_def split: sum.splits if_splits option.splits)
  ultimately show ?thesis by (auto simp: hb_get_simps)
qed


theorem Get_clockwise_witness:
  "hb_ok (hb_add (NewHashBalance 16 None) ''a@1'') \<and> hb_nodes (hb_add (NewHashBalance 16 None) ''a@1'') \<noteq> {}
   \<and> (\<exists>v. Get (hb_add (NewHashBalance 16 None) ''a@1'') ''key'' = Inr v)"
proof -
  have ok: "hb_ok (NewHashBalance 16 None)" by (simp add: NewHashBalance_ok)
  have 1: "hb_ok (hb_add (NewHashBalance 16 None) ''a@1'')" using ok by (rule hb_add_ok)
  have 2: "hb_nodes (hb_add (NewHashBalance 16 None) ''a@1'') \<noteq> {}"
    using hb_add_node_in [OF ok] by blast
  show ?thesis using 1 2 Get_clockwise [OF 1 2, of "''key''"] by blast
qed

theorem Add_stable_witness:
  "hb_ok (NewHashBalance 2 None) \<and>
   (\<exists>c'. Add (NewHashBalance 2 None) [''a@1'', ''b@2''] = Inr c' \<and> hb_ok c')"
proof -
  have ok: "hb_ok (NewHashBalance 2 None)" by (simp add: NewHashBalance_ok)
  obtain c' where c': "Add (NewHashBalance 2 None) [''a@1'', ''b@2''] = Inr c'"
    by (simp add: Add_def Let_def)
  show ?thesis using ok c' Add_stable [OF ok c'] by blast
qed

end
