(* ===== verification/Redis.thy ===== *)
theory Redis
  imports ConsistentHash Json "HOL-Library.State_Monad"
begin

text \<open>
  The Redis layer (\<^verbatim>\<open>common/redis.go\<close>, \<^verbatim>\<open>utils.ParseAddress\<close>): which server a key lives on and the
  wrappers the services call. The Redis client is a parameter: a record of commands on an outside
  world \<open>'w\<close>, each for the server with a given address. What the code relies on is stated in the
  locale \<open>redis_server\<close>, in terms of the data a server holds.
\<close>

section \<open>The client library\<close>

text \<open>A reply is a value, the nil reply (\<^verbatim>\<open>redis.Nil\<close>) or an error.\<close>

datatype 'a reply = Val 'a | NilReply | ErrReply string

datatype lua_val = LStr string | LInt int

record 'w redis_api =
  cmd_ping :: "string \<Rightarrow> ('w, unit reply) state"
  cmd_get :: "string \<Rightarrow> string \<Rightarrow> ('w, string reply) state"
  cmd_set :: "string \<Rightarrow> string \<Rightarrow> string \<Rightarrow> int \<Rightarrow> ('w, unit reply) state"
  cmd_del :: "string \<Rightarrow> string \<Rightarrow> ('w, unit reply) state"
  cmd_hget :: "string \<Rightarrow> string \<Rightarrow> string \<Rightarrow> ('w, string reply) state"
  cmd_hset :: "string \<Rightarrow> string \<Rightarrow> string \<Rightarrow> string \<Rightarrow> ('w, unit reply) state"
  cmd_hdel :: "string \<Rightarrow> string \<Rightarrow> string \<Rightarrow> ('w, unit reply) state"
  cmd_hincrby :: "string \<Rightarrow> string \<Rightarrow> string \<Rightarrow> int \<Rightarrow> ('w, unit reply) state"
  cmd_hgetall :: "string \<Rightarrow> string \<Rightarrow> ('w, (string \<times> string) list reply) state"
  cmd_incr :: "string \<Rightarrow> string \<Rightarrow> ('w, unit reply) state"
  cmd_decr :: "string \<Rightarrow> string \<Rightarrow> ('w, unit reply) state"
  cmd_lpush :: "string \<Rightarrow> string \<Rightarrow> string \<Rightarrow> ('w, unit reply) state"
  cmd_brpop :: "string \<Rightarrow> int \<Rightarrow> string \<Rightarrow> ('w, string list reply) state"
  cmd_eval :: "string \<Rightarrow> string \<Rightarrow> string list \<Rightarrow> string list \<Rightarrow> ('w, lua_val reply) state"

section \<open>Keys\<close>

definition SESSION :: "string \<Rightarrow> string" where "SESSION token = ''axis:session:'' @ token"
definition UseridMapToken :: "int \<Rightarrow> string" where "UseridMapToken i = ''axis:user_map_token:'' @ fmt_d i"
definition GroupOnlineUser :: "int \<Rightarrow> string" where "GroupOnlineUser i = ''axis:group_online_user:'' @ fmt_d i"
definition GroupOnlineUserCount :: string where "GroupOnlineUserCount = ''axis:group_online_user_count''"
definition UseridMapServerId :: "int \<Rightarrow> string" where "UseridMapServerId i = ''axis:userid_map_serverid:'' @ fmt_d i"
definition UserGroupList :: "int \<Rightarrow> string" where "UserGroupList i = ''axis:user_group_list:'' @ fmt_d i"
definition UserFriendList :: "int \<Rightarrow> string" where "UserFriendList i = ''axis:user_friend_list:'' @ fmt_d i"
definition AllOnlineUser :: string where "AllOnlineUser = ''axis:online_user''"
definition KafkaTopicOffset :: "string \<Rightarrow> string" where "KafkaTopicOffset t = ''axis:kafka_topic_offset:'' @ t"
definition StatusMsgQueue :: string where "StatusMsgQueue = ''axis:status_msg_queue''"
definition RedisLock :: "string \<Rightarrow> string" where "RedisLock t = ''axis:redis_lock:'' @ t"
definition UserLetterBox :: "int \<Rightarrow> string" where "UserLetterBox i = ''axis_user_letter_box:'' @ fmt_d i"
definition GroupLetterBox :: "int \<Rightarrow> string" where "GroupLetterBox i = ''axis_group_letter_box:'' @ fmt_d i"
definition PersistentLock :: "string \<Rightarrow> string" where "PersistentLock k = ''axis_persistent_lock:'' @ k"

lemmas key_defs = SESSION_def UseridMapToken_def GroupOnlineUser_def GroupOnlineUserCount_def UseridMapServerId_def
  UserGroupList_def UserFriendList_def AllOnlineUser_def KafkaTopicOffset_def StatusMsgQueue_def RedisLock_def
  UserLetterBox_def GroupLetterBox_def PersistentLock_def

section \<open>Servers\<close>

text \<open>\<^verbatim>\<open>host@port\<close>; a port that is not a number is read as 0.\<close>

definition ParseAddress :: "string \<Rightarrow> (string \<times> int) option" where
  "ParseAddress addr =
     (let strList = Split (CHR ''@'') addr
      in if length strList < 2 \<or> 2 < length strList then None
         else Some (strList ! 0, fst (Atoi (strList ! 1))))"

text \<open>The connected clients by configured address, and the ring.\<close>

record RedisEnv =
  re_Client :: "string \<rightharpoonup> string"
  re_ring :: HashBalance

text \<open>One turn of the loop of \<^verbatim>\<open>InitRedis\<close>: an address of the wrong form panics, a server that does
  not answer is skipped.\<close>

definition init_host :: "'w redis_api \<Rightarrow> string \<Rightarrow> RedisEnv \<Rightarrow> ('w, RedisEnv option) state" where
  "init_host api val env =
     (case ParseAddress val of
        None \<Rightarrow> State_Monad.return None
      | Some (host, port) \<Rightarrow> do {
          let addr = host @ '':'' @ fmt_d port;
          pong \<leftarrow> cmd_ping api addr;
          State_Monad.return (Some (case pong of
            Val _ \<Rightarrow> env\<lparr>re_Client := (re_Client env)(val \<mapsto> addr), re_ring := hb_add (re_ring env) val\<rparr>
          | _ \<Rightarrow> env))
        })"

fun init_hosts :: "'w redis_api \<Rightarrow> string list \<Rightarrow> RedisEnv \<Rightarrow> ('w, RedisEnv option) state" where
  "init_hosts api [] env = State_Monad.return (Some env)"
| "init_hosts api (val # vals) env = do {
     r \<leftarrow> init_host api val env;
     (case r of None \<Rightarrow> State_Monad.return None | Some env \<Rightarrow> init_hosts api vals env)
   }"

definition InitRedis :: "'w redis_api \<Rightarrow> string \<Rightarrow> ('w, RedisEnv option) state" where
  "InitRedis api address =
     init_hosts api (Split (CHR '';'') address) \<lparr>re_Client = Map.empty, re_ring = NewHashBalance 16 None\<rparr>"

datatype redis_error = RingError hb_error | EmptyAddress | NoClient | ReplyError string

definition GetRedisClientByKey :: "RedisEnv \<Rightarrow> string \<Rightarrow> redis_error + string" where
  "GetRedisClientByKey env key =
     (case Get (re_ring env) key of
        Inl e \<Rightarrow> Inl (RingError e)
      | Inr address \<Rightarrow>
          if address = [] then Inl EmptyAddress
          else (case re_Client env address of None \<Rightarrow> Inl NoClient | Some cl \<Rightarrow> Inr cl))"

section \<open>Wrappers\<close>

text \<open>
  Every wrapper looks up the client, runs a command, and returns an error of either; some take the
  nil reply for an empty result.
\<close>

definition with_client :: "RedisEnv \<Rightarrow> string \<Rightarrow> (string \<Rightarrow> ('w, redis_error + 'a) state) \<Rightarrow> ('w, redis_error + 'a) state" where
  "with_client env key f =
     (case GetRedisClientByKey env key of Inl e \<Rightarrow> State_Monad.return (Inl e) | Inr client \<Rightarrow> f client)"

definition err_of :: "'a reply \<Rightarrow> redis_error + 'a" where
  "err_of r = (case r of Val v \<Rightarrow> Inr v | NilReply \<Rightarrow> Inl (ReplyError ''redis: nil'') | ErrReply e \<Rightarrow> Inl (ReplyError e))"

definition nil_as :: "'a \<Rightarrow> 'a reply \<Rightarrow> redis_error + 'a" where
  "nil_as d r = (case r of Val v \<Rightarrow> Inr v | NilReply \<Rightarrow> Inr d | ErrReply e \<Rightarrow> Inl (ReplyError e))"

definition reply_val :: "string reply \<Rightarrow> string" where
  "reply_val r = (case r of Val v \<Rightarrow> v | _ \<Rightarrow> [])"

definition RedisSetString :: "'w redis_api \<Rightarrow> RedisEnv \<Rightarrow> string \<Rightarrow> string \<Rightarrow> int \<Rightarrow> ('w, redis_error + unit) state" where
  "RedisSetString api env key value expire = with_client env key (\<lambda>client. do {
     r \<leftarrow> cmd_set api client key value expire;
     State_Monad.return (err_of r)
   })"

definition RedisGetString :: "'w redis_api \<Rightarrow> RedisEnv \<Rightarrow> string \<Rightarrow> ('w, redis_error + string) state" where
  "RedisGetString api env key = with_client env key (\<lambda>client. do {
     r \<leftarrow> cmd_get api client key;
     State_Monad.return (nil_as [] r)
   })"

definition RedisDelString :: "'w redis_api \<Rightarrow> RedisEnv \<Rightarrow> string \<Rightarrow> ('w, redis_error + unit) state" where
  "RedisDelString api env key = with_client env key (\<lambda>client. do {
     r \<leftarrow> cmd_del api client key;
     State_Monad.return (nil_as () r)
   })"

text \<open>
  Both lookups below discard the error of \<^verbatim>\<open>HGet\<close> and treat an empty value as an absent field. The
  fields are decimal numbers, which \<^verbatim>\<open>fmt.Sprintf\<close> leaves as they are.
\<close>

definition RedisIsNotExistHSet ::
  "'w redis_api \<Rightarrow> RedisEnv \<Rightarrow> string \<Rightarrow> string \<Rightarrow> string \<Rightarrow> ('w, redis_error + bool) state" where
  "RedisIsNotExistHSet api env key filed value = with_client env key (\<lambda>client. do {
     old \<leftarrow> cmd_hget api client key filed;
     if reply_val old = [] then do {
       r \<leftarrow> cmd_hset api client key filed value;
       State_Monad.return (map_sum id (\<lambda>_. False) (err_of r))
     } else do {
       r \<leftarrow> cmd_hset api client key filed value;
       State_Monad.return (map_sum id (\<lambda>_. True) (err_of r))
     }
   })"

definition RedisHSet ::
  "'w redis_api \<Rightarrow> RedisEnv \<Rightarrow> string \<Rightarrow> string \<Rightarrow> string \<Rightarrow> ('w, redis_error + unit) state" where
  "RedisHSet api env key filed value = with_client env key (\<lambda>client. do {
     r \<leftarrow> cmd_hset api client key filed value;
     State_Monad.return (err_of r)
   })"

definition RedisHINCRBY ::
  "'w redis_api \<Rightarrow> RedisEnv \<Rightarrow> string \<Rightarrow> string \<Rightarrow> int \<Rightarrow> ('w, redis_error + unit) state" where
  "RedisHINCRBY api env key filed increment = with_client env key (\<lambda>client. do {
     r \<leftarrow> cmd_hincrby api client key filed increment;
     State_Monad.return (err_of r)
   })"

text \<open>The map comes as its entries in the order in which the caller ranges over it.\<close>

definition RedisHGetAll ::
  "'w redis_api \<Rightarrow> RedisEnv \<Rightarrow> string \<Rightarrow> ('w, redis_error + (string \<times> string) list) state" where
  "RedisHGetAll api env key = with_client env key (\<lambda>client. do {
     r \<leftarrow> cmd_hgetall api client key;
     State_Monad.return (err_of r)
   })"

definition RedisHGet :: "'w redis_api \<Rightarrow> RedisEnv \<Rightarrow> string \<Rightarrow> string \<Rightarrow> ('w, redis_error + string) state" where
  "RedisHGet api env key filed = with_client env key (\<lambda>client. do {
     r \<leftarrow> cmd_hget api client key filed;
     State_Monad.return (err_of r)
   })"

definition RedisHDel :: "'w redis_api \<Rightarrow> RedisEnv \<Rightarrow> string \<Rightarrow> string \<Rightarrow> ('w, redis_error + bool) state" where
  "RedisHDel api env key filed = with_client env key (\<lambda>client. do {
     old \<leftarrow> cmd_hget api client key filed;
     if reply_val old \<noteq> [] then do {
       r \<leftarrow> cmd_hdel api client key filed;
       State_Monad.return (map_sum id (\<lambda>_. True) (err_of r))
     } else State_Monad.return (Inr False)
   })"

definition RedisInc :: "'w redis_api \<Rightarrow> RedisEnv \<Rightarrow> string \<Rightarrow> ('w, redis_error + unit) state" where
  "RedisInc api env key = with_client env key (\<lambda>client. do {
     r \<leftarrow> cmd_incr api client key;
     State_Monad.return (err_of r)
   })"

definition RedisDecr :: "'w redis_api \<Rightarrow> RedisEnv \<Rightarrow> string \<Rightarrow> ('w, redis_error + unit) state" where
  "RedisDecr api env key = with_client env key (\<lambda>client. do {
     r \<leftarrow> cmd_decr api client key;
     State_Monad.return (err_of r)
   })"

definition RedisLPUSH :: "'w redis_api \<Rightarrow> RedisEnv \<Rightarrow> string \<Rightarrow> string \<Rightarrow> ('w, redis_error + unit) state" where
  "RedisLPUSH api env key value = with_client env key (\<lambda>client. do {
     r \<leftarrow> cmd_lpush api client key value;
     State_Monad.return (err_of r)
   })"

definition RedisBRPOP :: "'w redis_api \<Rightarrow> RedisEnv \<Rightarrow> string \<Rightarrow> int \<Rightarrow> ('w, redis_error + string list) state" where
  "RedisBRPOP api env key timeOut = with_client env key (\<lambda>client. do {
     r \<leftarrow> cmd_brpop api client timeOut key;
     State_Monad.return (nil_as [] r)
   })"

section \<open>The cache helper\<close>

text \<open>
  \<^verbatim>\<open>CacheOptions.GetSet\<close>: the receiver is nil, bytes, or a value with its JSON encoding. A nil
  receiver or an empty key is refused; a missing entry is computed by \<^verbatim>\<open>Fun\<close> and stored.
\<close>

datatype 'v receiver = NoReceiver | Bytes string | Object 'v

record ('w, 'v) CacheOptions =
  co_Key :: string
  co_Duration :: int
  co_Fun :: "('w, 'v receiver \<times> string option) state"
  co_Receiver :: "'v receiver"

datatype cache_error = IllegalArguments | CacheRedis redis_error | CacheFun string | CacheJson

definition store_receiver :: "('v \<Rightarrow> json) \<Rightarrow> 'v receiver \<Rightarrow> string" where
  "store_receiver enc r = (case r of Bytes b \<Rightarrow> b | Object v \<Rightarrow> json_print (enc v) | NoReceiver \<Rightarrow> [])"

definition getSetCache ::
  "'w redis_api \<Rightarrow> RedisEnv \<Rightarrow> ('v \<Rightarrow> json) \<Rightarrow> 'v decoder \<Rightarrow> ('w, 'v) CacheOptions
   \<Rightarrow> ('w, cache_error option \<times> 'v receiver) state" where
  "getSetCache api env enc dec c =
     (if co_Receiver c = NoReceiver \<or> co_Key c = [] then State_Monad.return (Some IllegalArguments, co_Receiver c)
      else (case GetRedisClientByKey env (co_Key c) of
        Inl e \<Rightarrow> State_Monad.return (Some (CacheRedis e), co_Receiver c)
      | Inr client \<Rightarrow> do {
          val \<leftarrow> cmd_get api client (co_Key c);
          (case val of
             ErrReply e \<Rightarrow> State_Monad.return (Some (CacheRedis (ReplyError e)), co_Receiver c)
           | NilReply \<Rightarrow> do {
               computed \<leftarrow> co_Fun c;
               (case computed of
                  (r, Some e) \<Rightarrow> State_Monad.return (Some (CacheFun e), r)
                | (r, None) \<Rightarrow>
                    if r = NoReceiver then State_Monad.return (None, r)
                    else do {
                      res \<leftarrow> cmd_set api client (co_Key c) (store_receiver enc r) (co_Duration c);
                      State_Monad.return (case err_of res of Inl e \<Rightarrow> (Some (CacheRedis e), r) | Inr _ \<Rightarrow> (None, r))
                    })
             }
           | Val v \<Rightarrow> State_Monad.return
               (case co_Receiver c of
                  Object x \<Rightarrow>
                    (case Unmarshal dec v x of (y, ok) \<Rightarrow> (if ok then None else Some CacheJson, Object y))
                | _ \<Rightarrow> (None, Bytes v)))
        }))"

definition GetSet ::
  "'w redis_api \<Rightarrow> RedisEnv \<Rightarrow> ('v \<Rightarrow> json) \<Rightarrow> 'v decoder \<Rightarrow> ('w, 'v) CacheOptions
   \<Rightarrow> ('w, cache_error + 'v receiver) state" where
  "GetSet api env enc dec c = do {
     res \<leftarrow> getSetCache api env enc dec c;
     State_Monad.return (case res of (Some e, _) \<Rightarrow> Inl e | (None, r) \<Rightarrow> Inr r)
   }"

section \<open>Every key has a server\<close>

definition env_of :: "string list \<Rightarrow> string list \<Rightarrow> RedisEnv \<Rightarrow> bool" where
  "env_of hosts vs env \<longleftrightarrow> re_ring env = fold (\<lambda>v c. hb_add c v) vs (NewHashBalance 16 None) \<and> set vs \<subseteq> set hosts
     \<and> dom (re_Client env) = set vs
     \<and> (\<forall>v \<in> set vs. \<exists>host port. ParseAddress v = Some (host, port) \<and> re_Client env v = Some (host @ '':'' @ fmt_d port))"

lemma init_host_env:
  assumes "env_of hosts vs env" and "val \<in> set hosts" and "run_state (init_host api val env) w = (Some env', w')"
  shows "\<exists>vs'. env_of hosts vs' env'"
proof -
  obtain host port where p: "ParseAddress val = Some (host, port)"
    using assms(3) by (auto simp: init_host_def split: option.splits)
  have new: "env_of hosts (vs @ [val])
      (env\<lparr>re_Client := (re_Client env)(val \<mapsto> host @ '':'' @ fmt_d port), re_ring := hb_add (re_ring env) val\<rparr>)"
    using assms(1,2) p by (auto simp: env_of_def)
  show ?thesis
    using assms(1,3) new by (auto simp: init_host_def p Let_def split: reply.splits prod.splits)
qed

lemma init_hosts_env:
  "env_of hosts vs env \<Longrightarrow> set vals \<subseteq> set hosts \<Longrightarrow> run_state (init_hosts api vals env) w = (Some env', w') \<Longrightarrow>
   \<exists>vs'. env_of hosts vs' env'"
proof (induction vals arbitrary: env vs w)
  case (Cons val vals)
  obtain r w1 where r: "run_state (init_host api val env) w = (r, w1)"
    by (cases "run_state (init_host api val env) w")
  then obtain env1 where env1: "r = Some env1"
    using Cons.prems(3) by (cases r) auto
  then obtain vs1 where "env_of hosts vs1 env1"
    using init_host_env [OF Cons.prems(1) _ r [unfolded env1]] Cons.prems(2) by auto
  then show ?case
    using Cons.IH [of vs1 env1 w1] Cons.prems(2,3) r env1 by simp
qed auto

lemma env_routes:
  assumes "env_of hosts vs env" and "re_Client env \<noteq> Map.empty"
  shows "\<exists>v \<in> set hosts. \<exists>host port. ParseAddress v = Some (host, port) \<and> GetRedisClientByKey env key = Inr (host @ '':'' @ fmt_d port)"
proof -
  have "vs \<noteq> []"
    using assms by (auto simp: env_of_def)
  then obtain v where v: "v \<in> set vs" "hb_get (re_ring env) key = Some v"
    using ring.get_routed [of vs key] assms(1) by (auto simp: env_of_def)
  then obtain host port where p: "ParseAddress v = Some (host, port)" "re_Client env v = Some (host @ '':'' @ fmt_d port)"
    using assms(1) by (auto simp: env_of_def)
  have "v \<noteq> []"
    using p(1) by (auto simp: ParseAddress_def)
  then show ?thesis
    using v p assms(1) by (auto simp: GetRedisClientByKey_def hb_get_simps env_of_def)
qed

text \<open>
  C20: once \<^verbatim>\<open>InitRedis\<close> has connected at least one server, every key is routed to a connected
  client whose address is one of the configured ones: the errors for an empty ring, an empty
  address and a missing client cannot occur.
\<close>
theorem InitRedis_routes:
  assumes "run_state (InitRedis api address) w = (Some env, w')" and "re_Client env \<noteq> Map.empty"
  shows "\<forall>key. \<exists>v \<in> set (Split (CHR '';'') address). \<exists>host port.
     ParseAddress v = Some (host, port) \<and> GetRedisClientByKey env key = Inr (host @ '':'' @ fmt_d port)"
proof -
  have "env_of (Split (CHR '';'') address) [] \<lparr>re_Client = Map.empty, re_ring = NewHashBalance 16 None\<rparr>"
    by (simp add: env_of_def)
  then obtain vs where "env_of (Split (CHR '';'') address) vs env"
    using init_hosts_env [OF _ subset_refl assms(1) [unfolded InitRedis_def]] by blast
  then show ?thesis
    using env_routes assms(2) by blast
qed
end
