(* ===== verification/RedisLocker.thy ===== *)
theory RedisLocker
  imports Redis
begin

text \<open>
  The distributed lock (\<^verbatim>\<open>common/redis_lock.go\<close>): a key that is set by a script only when it is
  absent, with an expiry in milliseconds, and deleted by another script.
\<close>

definition lockCommand :: string where
  "lockCommand = [CHR 10] @ ''    return redis.call('' @ [quote] @ ''SET'' @ [quote] @ '',KEYS[1],ARGV[1],'' @ [quote] @ ''NX''
     @ [quote] @ '','' @ [quote] @ ''PX'' @ [quote] @ '',ARGV[2])'' @ [CHR 10] @ ''    ''"

definition delCommand :: string where
  "delCommand = [CHR 10] @ ''    return redis.call('' @ [quote] @ ''DEL'' @ [quote] @ '',KEYS[1])''"

definition tolerance :: int where "tolerance = 500"
definition millisPerSecond :: int where "millisPerSecond = 1000"

record RedisLockObj =
  rl_client :: string
  rl_timout :: uint32
  rl_key :: string
  rl_value :: string

definition NewRedisLocker :: "RedisEnv \<Rightarrow> string \<Rightarrow> string \<Rightarrow> redis_error + RedisLockObj" where
  "NewRedisLocker env key value =
     (case GetRedisClientByKey env key of
        Inl e \<Rightarrow> Inl e
      | Inr client \<Rightarrow> Inr \<lparr>rl_client = client, rl_timout = 0, rl_key = key, rl_value = value\<rparr>)"

definition SetExpire :: "int \<Rightarrow> RedisLockObj \<Rightarrow> RedisLockObj" where
  "SetExpire timout rl = rl\<lparr>rl_timout := of_int timout\<rparr>"

definition Acquire :: "'w redis_api \<Rightarrow> RedisLockObj \<Rightarrow> ('w, bool \<times> redis_error option) state" where
  "Acquire api rl = do {
     resp \<leftarrow> cmd_eval api (rl_client rl) lockCommand [rl_key rl]
        [rl_value rl, fmt_d (int (unat (rl_timout rl)) * millisPerSecond + tolerance)];
     State_Monad.return (case resp of
        NilReply \<Rightarrow> (False, None)
      | ErrReply e \<Rightarrow> (False, Some (ReplyError e))
      | Val (LStr reply) \<Rightarrow> (reply = ''OK'', None)
      | Val (LInt _) \<Rightarrow> (False, None))
   }"

definition Release :: "'w redis_api \<Rightarrow> RedisLockObj \<Rightarrow> ('w, bool \<times> redis_error option) state" where
  "Release api rl = do {
     resp \<leftarrow> cmd_eval api (rl_client rl) delCommand [rl_key rl] [];
     State_Monad.return (case resp of
        NilReply \<Rightarrow> (False, Some (ReplyError ''redis: nil''))
      | ErrReply e \<Rightarrow> (False, Some (ReplyError e))
      | Val (LInt n) \<Rightarrow> (n = 1, None)
      | Val (LStr _) \<Rightarrow> (False, None))
   }"

end
