(* ===== verification/RedisScript.thy ===== *)
theory RedisScript
  imports RedisLocker
begin

text \<open>
  The data of a Redis server, and what the scripts of the lock do to it. The texts of the scripts
  are those of \<^verbatim>\<open>common/redis_lock.go\<close>; they are read here as one call of a Redis command whose
  arguments are literals, keys and arguments of the script, and \<^verbatim>\<open>SET\<close> with its options and \<^verbatim>\<open>DEL\<close>
  have their documented effect. That the server does this is the law of the theory \<open>RedisStore\<close>.
\<close>

section \<open>The data of a server\<close>

datatype rval = RStr string | RHash "(string \<times> string) list" | RList "string list"

type_synonym rdata = "string \<rightharpoonup> rval" \<comment> \<open>by key\<close>
type_synonym rstore = "string \<Rightarrow> rdata" \<comment> \<open>by the address of the server\<close>

section \<open>The text of a script\<close>

definition blank :: "char \<Rightarrow> bool" where
  "blank c \<longleftrightarrow> c = CHR 10 \<or> c = CHR '' ''"

definition trim :: "string \<Rightarrow> string" where
  "trim s = rev (dropWhile blank (rev (dropWhile blank s)))"

text \<open>What a text has between a prefix and a last character.\<close>

definition between :: "string \<Rightarrow> char \<Rightarrow> string \<Rightarrow> string option" where
  "between p c s =
     (if take (length p) s = p \<and> drop (length p) s \<noteq> [] \<and> last s = c then Some (butlast (drop (length p) s)) else None)"

definition nth_arg :: "string list \<Rightarrow> string \<Rightarrow> string option" where
  "nth_arg xs s = (case dec_val s of None \<Rightarrow> None | Some n \<Rightarrow> if 0 < n \<and> n \<le> length xs then Some (xs ! (n - 1)) else None)"

text \<open>An argument of the call: a literal, \<^verbatim>\<open>KEYS[n]\<close> or \<^verbatim>\<open>ARGV[n]\<close>, counted from 1.\<close>

definition call_arg :: "string list \<Rightarrow> string list \<Rightarrow> string \<Rightarrow> string option" where
  "call_arg ks args s =
     (case between [quote] quote s of
        Some t \<Rightarrow> Some t
      | None \<Rightarrow>
          (case between ''KEYS['' (CHR '']'') s of
             Some i \<Rightarrow> nth_arg ks i
           | None \<Rightarrow> (case between ''ARGV['' (CHR '']'') s of Some i \<Rightarrow> nth_arg args i | None \<Rightarrow> None)))"

fun all_some :: "'a option list \<Rightarrow> 'a list option" where
  "all_some [] = Some []"
| "all_some (None # xs) = None"
| "all_some (Some x # xs) = map_option ((#) x) (all_some xs)"

text \<open>The command that a script sends to the server; \<^term>\<open>None\<close> for a script of another form.\<close>

definition script_command :: "string \<Rightarrow> string list \<Rightarrow> string list \<Rightarrow> string list option" where
  "script_command script ks args =
     (case between ''return redis.call('' (CHR '')'') (trim script) of
        None \<Rightarrow> None
      | Some s \<Rightarrow> all_some (map (call_arg ks args) (Split (CHR '','') s)))"

section \<open>The commands\<close>

text \<open>The options of \<^verbatim>\<open>SET\<close>: whether the key must be absent, whether it must be there; an expiry is a positive number.\<close>

fun set_options :: "string list \<Rightarrow> bool \<times> bool \<Rightarrow> (bool \<times> bool) option" where
  "set_options [] (nx, xx) = (if nx \<and> xx then None else Some (nx, xx))"
| "set_options (opt # opts) (nx, xx) =
     (if opt = ''NX'' then set_options opts (True, xx)
      else if opt = ''XX'' then set_options opts (nx, True)
      else if opt = ''PX'' \<or> opt = ''EX'' then
        (case opts of
           [] \<Rightarrow> None
         | t # opts' \<Rightarrow> if snd (Atoi t) \<and> 0 < fst (Atoi t) then set_options opts' (nx, xx) else None)
      else None)"

definition exec_set :: "string \<Rightarrow> string \<Rightarrow> string list \<Rightarrow> rdata \<Rightarrow> lua_val reply \<times> rdata" where
  "exec_set k v opts d =
     (case set_options opts (False, False) of
        None \<Rightarrow> (ErrReply ''ERR syntax error'', d)
      | Some (nx, xx) \<Rightarrow>
          if (nx \<and> d k \<noteq> None) \<or> (xx \<and> d k = None) then (NilReply, d) else (Val (LStr ''OK''), d(k \<mapsto> RStr v)))"

fun exec_del :: "string list \<Rightarrow> int \<Rightarrow> rdata \<Rightarrow> lua_val reply \<times> rdata" where
  "exec_del [] n d = (Val (LInt n), d)"
| "exec_del (k # ks) n d = exec_del ks (if d k = None then n else n + 1) (d(k := None))"

text \<open>The reply of a script and the data after it; \<^term>\<open>None\<close> when the script is not one of these.\<close>

definition run_script :: "string \<Rightarrow> string list \<Rightarrow> string list \<Rightarrow> rdata \<Rightarrow> (lua_val reply \<times> rdata) option" where
  "run_script script ks args d =
     (case script_command script ks args of
        Some (cmd # k # rest) \<Rightarrow>
          if cmd = ''SET'' then (case rest of [] \<Rightarrow> None | v # opts \<Rightarrow> Some (exec_set k v opts d))
          else if cmd = ''DEL'' then Some (exec_del (k # rest) 0 d)
          else None
      | _ \<Rightarrow> None)"

section \<open>The scripts of the lock\<close>

lemma lockCommand_command: "script_command lockCommand [k] [v, ms] = Some [''SET'', k, v, ''NX'', ''PX'', ms]"
  by (simp add: script_command_def lockCommand_def trim_def blank_def between_def call_arg_def nth_arg_def quote_def
      dec_val_def digit_of_def)

lemma delCommand_command: "script_command delCommand [k] [] = Some [''DEL'', k]"
  by (simp add: script_command_def delCommand_def trim_def blank_def between_def call_arg_def nth_arg_def quote_def
      dec_val_def digit_of_def)

lemma run_lockCommand:
  "run_script lockCommand [k] [v, ms] d = Some
     (if snd (Atoi ms) \<and> 0 < fst (Atoi ms)
      then (if d k = None then (Val (LStr ''OK''), d(k \<mapsto> RStr v)) else (NilReply, d))
      else (ErrReply ''ERR syntax error'', d))"
  by (simp add: run_script_def lockCommand_command exec_set_def)

lemma run_delCommand:
  "run_script delCommand [k] [] d = Some (if d k = None then (Val (LInt 0), d) else (Val (LInt 1), d(k := None)))"
  by (simp add: run_script_def delCommand_command fun_upd_idem)

text \<open>The expiry that \<^term>\<open>Acquire\<close> writes is always a valid one.\<close>

lemma expiry_valid [simp]:
  "Atoi (fmt_d (uint (t :: uint32) * millisPerSecond + tolerance)) = (uint t * millisPerSecond + tolerance, True)"
  using uint_lt2p [of t] by (intro Atoi_fmt_d) (simp_all add: millisPerSecond_def tolerance_def)

lemma expiry_positive [simp]: "0 < uint (t :: uint32) * millisPerSecond + tolerance"
  by (simp add: millisPerSecond_def tolerance_def add_nonneg_pos)

lemma run_lockCommand_free:
  "d k = None \<Longrightarrow> run_script lockCommand [k] [v, fmt_d (uint (t :: uint32) * millisPerSecond + tolerance)] d
     = Some (Val (LStr ''OK''), d(k \<mapsto> RStr v))"
  by (simp add: run_lockCommand)

lemma run_lockCommand_taken:
  "d k = Some x \<Longrightarrow> run_script lockCommand [k] [v, fmt_d (uint (t :: uint32) * millisPerSecond + tolerance)] d = Some (NilReply, d)"
  by (simp add: run_lockCommand)

end
