(* ===== verification/RedisStore.thy ===== *)
theory RedisStore
  imports RedisScript "HOL-Library.AList"
begin

text \<open>
  What the services rely on of Redis: the documented effect of the commands on the data of a server,
  as laws that hold when a command succeeds and no key expires meanwhile; a command that fails
  changes no other key. From them follow the laws of the wrappers as one key-value store over all
  servers, and a reference server shows that the laws can hold.
\<close>

section \<open>The data of the servers\<close>

definition hash_of :: "rval option \<Rightarrow> string \<rightharpoonup> string" where
  "hash_of v = (case v of Some (RHash kvs) \<Rightarrow> map_of kvs | _ \<Rightarrow> Map.empty)"

text \<open>The key holds a hash or nothing.\<close>

definition is_hash :: "rval option \<Rightarrow> bool" where
  "is_hash v = (case v of None \<Rightarrow> True | Some (RHash _) \<Rightarrow> True | _ \<Rightarrow> False)"

definition list_of :: "rval option \<Rightarrow> string list" where
  "list_of v = (case v of Some (RList xs) \<Rightarrow> xs | _ \<Rightarrow> [])"

definition only_at :: "('w \<Rightarrow> rstore) \<Rightarrow> string \<Rightarrow> string \<Rightarrow> 'w \<Rightarrow> 'w \<Rightarrow> bool" where
  "only_at view a k w w' \<longleftrightarrow> (\<forall>b l. (b, l) \<noteq> (a, k) \<longrightarrow> view w' b l = view w b l)"

text \<open>The number a hash field holds, 0 when it is absent.\<close>

definition field_num :: "(string \<rightharpoonup> string) \<Rightarrow> string \<Rightarrow> int" where
  "field_num m f = (case m f of None \<Rightarrow> 0 | Some s \<Rightarrow> fst (Atoi s))"

locale redis_server =
  fixes api :: "'w redis_api" and view :: "'w \<Rightarrow> rstore"
  assumes get_law: "run_state (cmd_get api a k) w = (r, w') \<Longrightarrow>
      view w' = view w \<and> (\<forall>v. r = Val v \<longrightarrow> view w a k = Some (RStr v)) \<and> (r = NilReply \<longrightarrow> view w a k = None)"
    and set_law: "run_state (cmd_set api a k v e) w = (u, w') \<Longrightarrow>
      only_at view a k w w' \<and> (u = Val () \<longrightarrow> view w' a k = Some (RStr v))"
    and del_law: "run_state (cmd_del api a k) w = (u, w') \<Longrightarrow>
      only_at view a k w w' \<and> (u = Val () \<or> u = NilReply \<longrightarrow> view w' a k = None)"
    and hget_law: "run_state (cmd_hget api a k f) w = (r, w') \<Longrightarrow>
      view w' = view w \<and> (\<forall>v. r = Val v \<longrightarrow> hash_of (view w a k) f = Some v)
      \<and> (r = NilReply \<longrightarrow> hash_of (view w a k) f = None)"
    and hset_law: "run_state (cmd_hset api a k f v) w = (u, w') \<Longrightarrow>
      only_at view a k w w' \<and> (u = Val () \<longrightarrow> is_hash (view w' a k) \<and> hash_of (view w' a k) = (hash_of (view w a k))(f \<mapsto> v))"
    and hdel_law: "run_state (cmd_hdel api a k f) w = (u, w') \<Longrightarrow>
      only_at view a k w w' \<and> (u = Val () \<longrightarrow> is_hash (view w' a k) \<and> hash_of (view w' a k) = (hash_of (view w a k))(f := None))"
    and hincrby_law: "run_state (cmd_hincrby api a k f i) w = (u, w') \<Longrightarrow>
      only_at view a k w w' \<and> (u = Val () \<longrightarrow> is_hash (view w' a k) \<and>
        hash_of (view w' a k) = (hash_of (view w a k))(f \<mapsto> fmt_d (field_num (hash_of (view w a k)) f + i)))"
    and hgetall_law: "run_state (cmd_hgetall api a k) w = (rs, w') \<Longrightarrow>
      view w' = view w \<and> (\<forall>kvs. rs = Val kvs \<longrightarrow> map_of kvs = hash_of (view w a k) \<and> distinct (map fst kvs))"
    and lpush_law: "run_state (cmd_lpush api a k v) w = (u, w') \<Longrightarrow>
      only_at view a k w w' \<and> (u = Val () \<longrightarrow> list_of (view w' a k) = v # list_of (view w a k))"
    and brpop_law: "run_state (cmd_brpop api a t k) w = (rl, w') \<Longrightarrow>
      only_at view a k w w' \<and> (rl = NilReply \<longrightarrow> list_of (view w a k) = [] \<and> view w' = view w)
      \<and> (\<forall>xs. rl = Val xs \<longrightarrow> (\<exists>v. xs = [k, v] \<and> list_of (view w a k) = list_of (view w' a k) @ [v]))"

section \<open>The wrappers as one store\<close>

text \<open>The value of a key lives on the server the key is routed to.\<close>

definition store :: "('w \<Rightarrow> rstore) \<Rightarrow> RedisEnv \<Rightarrow> 'w \<Rightarrow> string \<Rightarrow> rval option" where
  "store view env w k = (case GetRedisClientByKey env k of Inl _ \<Rightarrow> None | Inr a \<Rightarrow> view w a k)"

definition str_at :: "rval option \<Rightarrow> string" where
  "str_at v = (case v of Some (RStr s) \<Rightarrow> s | _ \<Rightarrow> [])"

text \<open>What a client of the string operations relies on.\<close>

locale string_store =
  fixes content :: "'w \<Rightarrow> string \<Rightarrow> rval option"
    and get :: "string \<Rightarrow> ('w, 'e + string) state"
    and put :: "string \<Rightarrow> string \<Rightarrow> int \<Rightarrow> ('w, 'e + unit) state"
    and del :: "string \<Rightarrow> ('w, 'e + unit) state"
  assumes get_value: "run_state (get k) w = (Inr v, w') \<Longrightarrow> v = str_at (content w k)"
    and get_same: "run_state (get k) w = (r, w') \<Longrightarrow> content w' = content w"
    and put_value: "run_state (put k v e) w = (Inr x, w') \<Longrightarrow> content w' k = Some (RStr v)"
    and put_other: "run_state (put k v e) w = (u, w') \<Longrightarrow> l \<noteq> k \<Longrightarrow> content w' l = content w l"
    and del_value: "run_state (del k) w = (Inr x, w') \<Longrightarrow> content w' k = None"
    and del_other: "run_state (del k) w = (u, w') \<Longrightarrow> l \<noteq> k \<Longrightarrow> content w' l = content w l"
begin

lemma put_get:
  "run_state (put k v e) w = (Inr x, w1) \<Longrightarrow> run_state (get k) w1 = (Inr s, w2) \<Longrightarrow> s = v"
  using put_value [of k v e w x w1] get_value [of k w1 s w2] by (simp add: str_at_def)

lemma del_get:
  "run_state (del k) w = (Inr x, w1) \<Longrightarrow> run_state (get k) w1 = (Inr s, w2) \<Longrightarrow> s = []"
  using del_value [of k w x w1] get_value [of k w1 s w2] by (simp add: str_at_def)

end

text \<open>What a client of the hash operations relies on.\<close>

locale hash_store =
  fixes hash :: "'w \<Rightarrow> string \<Rightarrow> string \<rightharpoonup> string"
    and hset :: "string \<Rightarrow> string \<Rightarrow> string \<Rightarrow> ('w, 'e + unit) state"
    and hset_new :: "string \<Rightarrow> string \<Rightarrow> string \<Rightarrow> ('w, 'e + bool) state"
    and hdel :: "string \<Rightarrow> string \<Rightarrow> ('w, 'e + bool) state"
    and hincr :: "string \<Rightarrow> string \<Rightarrow> int \<Rightarrow> ('w, 'e + unit) state"
    and hget :: "string \<Rightarrow> string \<Rightarrow> ('w, 'e + string) state"
    and hgetall :: "string \<Rightarrow> ('w, 'e + (string \<times> string) list) state"
  assumes hset_value: "run_state (hset k f v) w = (Inr x, w') \<Longrightarrow> hash w' = (hash w)(k := (hash w k)(f \<mapsto> v))"
    and hset_new_value: "run_state (hset_new k f v) w = (Inr b, w') \<Longrightarrow> hash w' = (hash w)(k := (hash w k)(f \<mapsto> v))"
    and hset_new_had: "run_state (hset_new k f v) w = (Inr True, w') \<Longrightarrow> hash w k f \<noteq> None"
    and hdel_value: "run_state (hdel k f) w = (Inr True, w') \<Longrightarrow>
          hash w' = (hash w)(k := (hash w k)(f := None)) \<and> hash w k f \<noteq> None"
    and hdel_none: "run_state (hdel k f) w = (Inr False, w') \<Longrightarrow> hash w' = hash w"
    and hincr_value: "run_state (hincr k f i) w = (Inr x, w') \<Longrightarrow>
          hash w' = (hash w)(k := (hash w k)(f \<mapsto> fmt_d (field_num (hash w k) f + i)))"
    and hget_value: "run_state (hget k f) w = (Inr v, w') \<Longrightarrow> hash w k f = Some v"
    and hget_same: "run_state (hget k f) w = (rs, w') \<Longrightarrow> hash w' = hash w"
    and hgetall_value: "run_state (hgetall k) w = (Inr kvs, w') \<Longrightarrow> map_of kvs = hash w k \<and> distinct (map fst kvs)"
    and hgetall_same: "run_state (hgetall k) w = (ra, w') \<Longrightarrow> hash w' = hash w"

fun push_all :: "(string \<Rightarrow> ('w, 'e + unit) state) \<Rightarrow> string list \<Rightarrow> 'w \<Rightarrow> 'w option" where
  "push_all push [] w = Some w"
| "push_all push (v # vs) w = (case run_state (push v) w of (Inr _, w') \<Rightarrow> push_all push vs w' | _ \<Rightarrow> None)"

text \<open>What the two ends of the queue of status messages rely on.\<close>

locale message_queue =
  fixes pending :: "'w \<Rightarrow> string list" \<comment> \<open>oldest first\<close>
    and push :: "string \<Rightarrow> ('w, 'e + unit) state"
    and pop :: "('w, 'e + string list) state"
  assumes push_pending: "run_state (push v) w = (Inr x, w') \<Longrightarrow> pending w' = pending w @ [v]"
    and pop_pending: "run_state pop w = (Inr r, w') \<Longrightarrow>
          (pending w = [] \<and> pending w' = [] \<and> length r < 2) \<or> (length r = 2 \<and> pending w = r ! 1 # pending w')"
begin

lemma push_all_pending: "push_all push vs w = Some w' \<Longrightarrow> pending w' = pending w @ vs"
  by (induction vs arbitrary: w) (auto simp: push_pending split: prod.splits sum.splits)

lemma fifo:
  assumes "push_all push (v # vs) w = Some w'" and "pending w = []" and "run_state pop w' = (Inr r, w'')"
  shows "r ! 1 = v \<and> length r = 2 \<and> pending w'' = vs"
  using pop_pending [OF assms(3)] push_all_pending [OF assms(1)] assms(2) by auto

end


lemma err_of_Inr [simp]: "err_of r = Inr x \<longleftrightarrow> r = Val x" "Inr x = err_of r \<longleftrightarrow> r = Val x"
  by (auto simp: err_of_def split: reply.splits)

lemma nil_as_Inr: "nil_as d r = Inr x \<longleftrightarrow> r = Val x \<or> (r = NilReply \<and> x = d)"
  by (auto simp: nil_as_def split: reply.splits)

context redis_server
begin

lemma only_at_store:
  "only_at view a k w w' \<Longrightarrow> GetRedisClientByKey env k = Inr a \<Longrightarrow> l \<noteq> k \<Longrightarrow> store view env w' l = store view env w l"
  by (auto simp: only_at_def store_def split: sum.splits)

lemma store_same: "view w' = view w \<Longrightarrow> store view env w' = store view env w"
  by (auto simp: store_def fun_eq_iff split: sum.splits)

lemma with_client_Inr:
  "run_state (with_client env k f) w = (Inr x, w') \<Longrightarrow>
   \<exists>a. GetRedisClientByKey env k = Inr a \<and> run_state (f a) w = (Inr x, w')"
  by (auto simp: with_client_def split: sum.splits)

lemma with_client_other:
  assumes "run_state (with_client env k f) w = (r, w')" and "l \<noteq> k"
    and "\<And>a r w'. GetRedisClientByKey env k = Inr a \<Longrightarrow> run_state (f a) w = (r, w') \<Longrightarrow> only_at view a k w w'"
  shows "store view env w' l = store view env w l"
proof (cases "GetRedisClientByKey env k")
  case (Inr a)
  then have "only_at view a k w w'"
    using assms(1,3) by (simp add: with_client_def)
  then show ?thesis
    using Inr assms(2) by (rule only_at_store)
qed (use assms(1) in \<open>simp add: with_client_def\<close>)

end

sublocale redis_server \<subseteq> strings: string_store "store view env" "RedisGetString api env" "RedisSetString api env"
    "RedisDelString api env" for env
proof
  fix k w v w'
  assume "run_state (RedisGetString api env k) w = (Inr v, w')"
  then show "v = str_at (store view env w k)"
    unfolding RedisGetString_def
    by (auto dest!: with_client_Inr get_law simp: nil_as_Inr store_def str_at_def split: prod.splits)
next
  fix k w r w'
  assume a: "run_state (RedisGetString api env k) w = (r, w')"
  then have "view w' = view w"
    by (auto simp: RedisGetString_def with_client_def dest!: get_law split: sum.splits prod.splits)
  then show "store view env w' = store view env w"
    by (rule store_same)
next
  fix k v e w w' and x :: unit
  assume "run_state (RedisSetString api env k v e) w = (Inr x, w')"
  then show "store view env w' k = Some (RStr v)"
    unfolding RedisSetString_def by (auto dest!: with_client_Inr set_law simp: store_def split: prod.splits)
next
  fix k v e w l u w'
  assume "run_state (RedisSetString api env k v e) w = (u, w')" "l \<noteq> k"
  then show "store view env w' l = store view env w l"
    unfolding RedisSetString_def by (rule with_client_other) (auto dest!: set_law split: prod.splits)
next
  fix k w w' and x :: unit
  assume "run_state (RedisDelString api env k) w = (Inr x, w')"
  then show "store view env w' k = None"
    unfolding RedisDelString_def by (auto dest!: with_client_Inr del_law simp: nil_as_Inr store_def split: prod.splits)
next
  fix k w l u w'
  assume "run_state (RedisDelString api env k) w = (u, w')" "l \<noteq> k"
  then show "store view env w' l = store view env w l"
    unfolding RedisDelString_def by (rule with_client_other) (auto dest!: del_law split: prod.splits)
qed


definition hashes :: "('w \<Rightarrow> rstore) \<Rightarrow> RedisEnv \<Rightarrow> 'w \<Rightarrow> string \<Rightarrow> string \<rightharpoonup> string" where
  "hashes view env w k = hash_of (store view env w k)"

context redis_server
begin

lemma hashes_at:
  assumes "GetRedisClientByKey env k = Inr a" and "only_at view a k w w'" and "hash_of (view w' a k) = m"
  shows "hashes view env w' = (hashes view env w)(k := m)"
proof
  fix l
  show "hashes view env w' l = ((hashes view env w)(k := m)) l"
    using assms only_at_store [OF assms(2,1), of l] by (cases "l = k") (simp_all add: hashes_def store_def)
qed

lemma hashes_same: "view w' = view w \<Longrightarrow> hashes view env w' = hashes view env w"
  using store_same [of w' w env] by (simp add: hashes_def [abs_def])

lemma hashes_route: "GetRedisClientByKey env k = Inr a \<Longrightarrow> hashes view env w k = hash_of (view w a k)"
  by (simp add: hashes_def store_def)

lemma IsNotExistHSet_Inr:
  assumes "run_state (RedisIsNotExistHSet api env k f v) w = (Inr b, w')"
  obtains a old w1 where "GetRedisClientByKey env k = Inr a" "run_state (cmd_hget api a k f) w = (old, w1)"
    "run_state (cmd_hset api a k f v) w1 = (Val (), w')" "b = (reply_val old \<noteq> [])"
proof -
  obtain a where a: "GetRedisClientByKey env k = Inr a"
    using assms by (auto simp: RedisIsNotExistHSet_def with_client_def split: sum.splits)
  obtain old w1 where o: "run_state (cmd_hget api a k f) w = (old, w1)"
    by (cases "run_state (cmd_hget api a k f) w")
  obtain u w2 where u: "run_state (cmd_hset api a k f v) w1 = (u, w2)"
    by (cases "run_state (cmd_hset api a k f v) w1")
  have "map_sum id (\<lambda>_. reply_val old \<noteq> []) (err_of u) = Inr b" "w2 = w'"
    using assms by (auto simp: RedisIsNotExistHSet_def with_client_def a o u split: if_splits)
  then show ?thesis
    using that a o u by (cases u) (auto simp: err_of_def)
qed

lemma HDel_Inr:
  assumes "run_state (RedisHDel api env k f) w = (Inr b, w')"
  obtains a old w1 where "GetRedisClientByKey env k = Inr a" "run_state (cmd_hget api a k f) w = (old, w1)"
    "b = (reply_val old \<noteq> [])" "if b then run_state (cmd_hdel api a k f) w1 = (Val (), w') else w' = w1"
proof -
  obtain a where a: "GetRedisClientByKey env k = Inr a"
    using assms by (auto simp: RedisHDel_def with_client_def split: sum.splits)
  obtain old w1 where o: "run_state (cmd_hget api a k f) w = (old, w1)"
    by (cases "run_state (cmd_hget api a k f) w")
  obtain u w2 where u: "run_state (cmd_hdel api a k f) w1 = (u, w2)"
    by (cases "run_state (cmd_hdel api a k f) w1")
  show ?thesis
  proof (cases "reply_val old = []")
    case True
    then show ?thesis
      using that [OF a o] assms by (simp add: RedisHDel_def with_client_def a o)
  next
    case False
    then have "map_sum id (\<lambda>_. True) (err_of u) = Inr b" "w2 = w'"
      using assms by (simp_all add: RedisHDel_def with_client_def a o u)
    then show ?thesis
      using that [OF a o] u False by (cases u) (auto simp: err_of_def)
  qed
qed

lemma hget_present: "run_state (cmd_hget api a k f) w = (old, w1) \<Longrightarrow> reply_val old \<noteq> [] \<Longrightarrow> hash_of (view w a k) f \<noteq> None"
  using hget_law [of a k f w old w1] by (auto simp: reply_val_def split: reply.splits)

end

sublocale redis_server \<subseteq> hashes: hash_store "hashes view env" "RedisHSet api env" "RedisIsNotExistHSet api env"
    "RedisHDel api env" "RedisHINCRBY api env" "RedisHGet api env" "RedisHGetAll api env" for env
proof
  fix k f v w w' and x :: unit
  assume "run_state (RedisHSet api env k f v) w = (Inr x, w')"
  then show "hashes view env w' = (hashes view env w)(k := (hashes view env w k)(f \<mapsto> v))"
    unfolding RedisHSet_def
    by (auto dest!: with_client_Inr hset_law simp: hashes_route intro!: hashes_at split: prod.splits)
next
  fix k f v w b w'
  assume "run_state (RedisIsNotExistHSet api env k f v) w = (Inr b, w')"
  then obtain a old w1 where a: "GetRedisClientByKey env k = Inr a" and g: "run_state (cmd_hget api a k f) w = (old, w1)"
    and h: "run_state (cmd_hset api a k f v) w1 = (Val (), w')"
    by (rule IsNotExistHSet_Inr)
  then have "view w1 = view w" "only_at view a k w1 w'" "hash_of (view w' a k) = (hash_of (view w1 a k))(f \<mapsto> v)"
    using hget_law [OF g] hset_law [OF h] by simp_all
  then show "hashes view env w' = (hashes view env w)(k := (hashes view env w k)(f \<mapsto> v))"
    by (intro hashes_at [OF a]) (simp_all add: only_at_def hashes_route [OF a])
next
  fix k f v w w'
  assume "run_state (RedisIsNotExistHSet api env k f v) w = (Inr True, w')"
  then obtain a old w1 where "GetRedisClientByKey env k = Inr a" "run_state (cmd_hget api a k f) w = (old, w1)"
    "reply_val old \<noteq> []"
    by (rule IsNotExistHSet_Inr) auto
  then show "hashes view env w k f \<noteq> None"
    using hget_present by (simp add: hashes_route)
next
  fix k f w w'
  assume "run_state (RedisHDel api env k f) w = (Inr True, w')"
  then obtain a old w1 where a: "GetRedisClientByKey env k = Inr a" and g: "run_state (cmd_hget api a k f) w = (old, w1)"
    and d: "run_state (cmd_hdel api a k f) w1 = (Val (), w')" "reply_val old \<noteq> []"
    by (rule HDel_Inr) auto
  have "view w1 = view w" "only_at view a k w1 w'" "hash_of (view w' a k) = (hash_of (view w1 a k))(f := None)"
    using hget_law [OF g] hdel_law [OF d(1)] by simp_all
  moreover have "hashes view env w k f \<noteq> None"
    using hget_present [OF g d(2)] by (simp add: hashes_route [OF a])
  ultimately show "hashes view env w' = (hashes view env w)(k := (hashes view env w k)(f := None)) \<and> hashes view env w k f \<noteq> None"
    by (intro conjI hashes_at [OF a]) (simp_all add: only_at_def hashes_route [OF a])
next
  fix k f w w'
  assume "run_state (RedisHDel api env k f) w = (Inr False, w')"
  then obtain a old where g: "run_state (cmd_hget api a k f) w = (old, w')"
    by (rule HDel_Inr) auto
  show "hashes view env w' = hashes view env w"
    using hget_law [OF g] by (intro hashes_same) simp
next
  fix k f i w w' and x :: unit
  assume "run_state (RedisHINCRBY api env k f i) w = (Inr x, w')"
  then show "hashes view env w' = (hashes view env w)(k := (hashes view env w k)(f \<mapsto> fmt_d (field_num (hashes view env w k) f + i)))"
    unfolding RedisHINCRBY_def
    by (auto dest!: with_client_Inr hincrby_law simp: hashes_route intro!: hashes_at split: prod.splits)
next
  fix k f w v w'
  assume "run_state (RedisHGet api env k f) w = (Inr v, w')"
  then show "hashes view env w k f = Some v"
    unfolding RedisHGet_def by (auto dest!: with_client_Inr hget_law simp: hashes_route split: prod.splits)
next
  fix k f w rs w'
  assume "run_state (RedisHGet api env k f) w = (rs, w')"
  then show "hashes view env w' = hashes view env w"
    unfolding RedisHGet_def
    by (intro hashes_same) (auto simp: with_client_def dest!: hget_law split: sum.splits prod.splits)
next
  fix k w kvs w'
  assume "run_state (RedisHGetAll api env k) w = (Inr kvs, w')"
  then show "map_of kvs = hashes view env w k \<and> distinct (map fst kvs)"
    unfolding RedisHGetAll_def by (auto dest!: with_client_Inr hgetall_law simp: hashes_route split: prod.splits)
next
  fix k w ra w'
  assume "run_state (RedisHGetAll api env k) w = (ra, w')"
  then show "hashes view env w' = hashes view env w"
    unfolding RedisHGetAll_def
    by (intro hashes_same) (auto simp: with_client_def dest!: hgetall_law split: sum.splits prod.splits)
qed

text \<open>The list behind a key, oldest element first.\<close>

definition queue_at :: "('w \<Rightarrow> rstore) \<Rightarrow> RedisEnv \<Rightarrow> string \<Rightarrow> 'w \<Rightarrow> string list" where
  "queue_at view env k w = rev (list_of (store view env w k))"

sublocale redis_server \<subseteq> queue: message_queue "queue_at view env k" "RedisLPUSH api env k" "RedisBRPOP api env k t" for env k t
proof
  fix v w w' and x :: unit
  assume "run_state (RedisLPUSH api env k v) w = (Inr x, w')"
  then show "queue_at view env k w' = queue_at view env k w @ [v]"
    unfolding RedisLPUSH_def by (auto dest!: with_client_Inr lpush_law simp: queue_at_def store_def split: prod.splits)
next
  fix w r w'
  assume "run_state (RedisBRPOP api env k t) w = (Inr r, w')"
  then show "queue_at view env k w = [] \<and> queue_at view env k w' = [] \<and> length r < 2 \<or>
      length r = 2 \<and> queue_at view env k w = r ! 1 # queue_at view env k w'"
    unfolding RedisBRPOP_def
    by (auto dest!: with_client_Inr brpop_law simp: nil_as_Inr queue_at_def store_def split: prod.splits)
qed

context redis_server
begin

lemmas status_fifo = queue.fifo

end

section \<open>Locks\<close>

text \<open>
  A script that sends one command has the effect of that command on the server, and answers what
  the command answers; or the client gets an error, before or after the script was run.
\<close>

locale lock_server = redis_server +
  assumes eval_law: "run_state (cmd_eval api a script ks args) w = (r, w') \<Longrightarrow>
      run_script script ks args (view w a) = Some (r0, d0) \<Longrightarrow>
      (\<forall>b. b \<noteq> a \<longrightarrow> view w' b = view w b)
      \<and> (r = r0 \<and> view w' a = d0 \<or> (\<exists>e. r = ErrReply e) \<and> view w' a \<in> {view w a, d0})"
begin

lemma lock_law:
  assumes "run_state (cmd_eval api a lockCommand [k] [v, ms]) w = (r, w')"
  shows "only_at view a k w w'
      \<and> (r = Val (LStr ''OK'') \<longrightarrow> view w a k = None \<and> view w' a k = Some (RStr v))
      \<and> (r = NilReply \<longrightarrow> view w a k \<noteq> None \<and> view w' = view w)"
proof -
  let ?out = "if snd (Atoi ms) \<and> 0 < fst (Atoi ms)
      then (if view w a k = None then (Val (LStr ''OK''), (view w a)(k \<mapsto> RStr v)) else (NilReply, view w a))
      else (ErrReply ''ERR syntax error'', view w a)"
  have "(\<forall>b. b \<noteq> a \<longrightarrow> view w' b = view w b)
      \<and> (r = fst ?out \<and> view w' a = snd ?out \<or> (\<exists>e. r = ErrReply e) \<and> view w' a \<in> {view w a, snd ?out})"
    by (rule eval_law [OF assms]) (simp add: run_lockCommand)
  then show ?thesis
    by (auto simp: only_at_def fun_eq_iff split: if_splits)
qed

lemma unlock_law:
  assumes "run_state (cmd_eval api a delCommand [k] []) w = (r, w')"
  shows "only_at view a k w w' \<and> (r = Val (LInt 1) \<longrightarrow> view w a k \<noteq> None \<and> view w' a k = None)
      \<and> (r = Val (LInt 0) \<longrightarrow> view w a k = None \<and> view w' = view w)"
proof -
  let ?out = "if view w a k = None then (Val (LInt 0), view w a) else (Val (LInt 1), (view w a)(k := None))"
  have "(\<forall>b. b \<noteq> a \<longrightarrow> view w' b = view w b)
      \<and> (r = fst ?out \<and> view w' a = snd ?out \<or> (\<exists>e. r = ErrReply e) \<and> view w' a \<in> {view w a, snd ?out})"
    by (rule eval_law [OF assms]) (simp add: run_delCommand)
  then show ?thesis
    by (auto simp: only_at_def fun_eq_iff split: if_splits)
qed

lemma Acquire_True:
  "run_state (Acquire api rl) w = ((True, e), w') \<Longrightarrow>
   view w (rl_client rl) (rl_key rl) = None \<and> view w' (rl_client rl) (rl_key rl) = Some (RStr (rl_value rl))
   \<and> only_at view (rl_client rl) (rl_key rl) w w'"
  by (auto simp: Acquire_def dest!: lock_law split: prod.splits reply.splits lua_val.splits)

lemma Release_True:
  "run_state (Release api rl) w = ((True, e), w') \<Longrightarrow>
   view w' (rl_client rl) (rl_key rl) = None \<and> only_at view (rl_client rl) (rl_key rl) w w'"
  by (auto simp: Release_def dest!: unlock_law split: prod.splits reply.splits lua_val.splits)

lemma Acquire_eval:
  assumes "run_state (Acquire api rl) w = ((ok, e), w')"
  obtains r where "run_state (cmd_eval api (rl_client rl) lockCommand [rl_key rl]
      [rl_value rl, fmt_d (uint (rl_timout rl) * millisPerSecond + tolerance)]) w = (r, w')"
    and "ok \<longleftrightarrow> r = Val (LStr ''OK'')" and "e \<noteq> None \<longleftrightarrow> (\<exists>x. r = ErrReply x)"
  using assms that by (auto simp: Acquire_def split: prod.splits reply.splits lua_val.splits)

lemma Acquire_False:
  assumes "run_state (Acquire api rl) w = ((ok, e), w')" and "view w (rl_client rl) (rl_key rl) = Some v"
  shows "\<not> ok \<and> view w' (rl_client rl) (rl_key rl) = Some v"
proof -
  obtain r where r: "run_state (cmd_eval api (rl_client rl) lockCommand [rl_key rl]
      [rl_value rl, fmt_d (uint (rl_timout rl) * millisPerSecond + tolerance)]) w = (r, w')" "ok \<longleftrightarrow> r = Val (LStr ''OK'')"
    using Acquire_eval [OF assms(1)] by metis
  show ?thesis
    using eval_law [OF r(1) run_lockCommand_taken [where d = "view w (rl_client rl)", OF assms(2)]] r(2) assms(2) by auto
qed

lemma Acquire_free:
  assumes "run_state (Acquire api rl) w = ((ok, e), w')" and "view w (rl_client rl) (rl_key rl) = None"
  shows "ok \<or> e \<noteq> None"
proof -
  obtain r where r: "run_state (cmd_eval api (rl_client rl) lockCommand [rl_key rl]
      [rl_value rl, fmt_d (uint (rl_timout rl) * millisPerSecond + tolerance)]) w = (r, w')"
    "ok \<longleftrightarrow> r = Val (LStr ''OK'')" "e \<noteq> None \<longleftrightarrow> (\<exists>x. r = ErrReply x)"
    using Acquire_eval [OF assms(1)] by metis
  show ?thesis
    using eval_law [OF r(1) run_lockCommand_free [where d = "view w (rl_client rl)", OF assms(2)]] r(2,3) by auto
qed

end

text \<open>
  The history of a lock: lockers of the key try to take it or release it, in any order, and between
  them anything happens that leaves the key alone. An event carries the value of the locker and
  whether the call reported success.
\<close>

datatype lock_event = Took string bool | Freed string bool

inductive lock_run :: "'w redis_api \<Rightarrow> ('w \<Rightarrow> rstore) \<Rightarrow> RedisEnv \<Rightarrow> string \<Rightarrow> 'w \<Rightarrow> lock_event list \<Rightarrow> 'w \<Rightarrow> bool"
  for api view env key w where
  start: "lock_run api view env key w [] w"
| others: "lock_run api view env key w evs w1 \<Longrightarrow> store view env w2 key = store view env w1 key
    \<Longrightarrow> lock_run api view env key w evs w2"
| attempt: "lock_run api view env key w evs w1 \<Longrightarrow> NewRedisLocker env key v = Inr rl
    \<Longrightarrow> run_state (Acquire api (SetExpire t rl)) w1 = ((ok, e), w2) \<Longrightarrow> lock_run api view env key w (evs @ [Took v ok]) w2"
| release: "lock_run api view env key w evs w1 \<Longrightarrow> NewRedisLocker env key v = Inr rl
    \<Longrightarrow> run_state (Release api rl) w1 = ((ok, e), w2) \<Longrightarrow> lock_run api view env key w (evs @ [Freed v ok]) w2"

text \<open>The locker that has taken the lock, as long as nobody has called the release.\<close>

fun holds :: "lock_event \<Rightarrow> string option \<Rightarrow> string option" where
  "holds (Took v ok) h = (if ok then Some v else h)"
| "holds (Freed v ok) h = None"

definition holder :: "lock_event list \<Rightarrow> string option" where
  "holder evs = fold holds evs None"

lemma holder_simps [simp]: "holder [] = None" "holder (evs @ [e]) = holds e (holder evs)"
  by (simp_all add: holder_def)

lemma locker_at:
  assumes "NewRedisLocker env key v = Inr rl"
  shows "GetRedisClientByKey env key = Inr (rl_client rl)" "rl_key rl = key" "rl_value rl = v"
  using assms by (auto simp: NewRedisLocker_def split: sum.splits)

lemma SetExpire_same [simp]:
  "rl_client (SetExpire t rl) = rl_client rl" "rl_key (SetExpire t rl) = rl_key rl" "rl_value (SetExpire t rl) = rl_value rl"
  by (simp_all add: SetExpire_def)

context lock_server
begin

lemma try_step:
  assumes "NewRedisLocker env key v = Inr rl" "run_state (Acquire api (SetExpire t rl)) w1 = ((ok, e), w2)"
  shows "store view env w1 key = Some x \<Longrightarrow> \<not> ok \<and> store view env w2 key = Some x"
    and "store view env w1 key = None \<Longrightarrow> ok \<or> e \<noteq> None"
    and "ok \<Longrightarrow> store view env w1 key = None \<and> store view env w2 key = Some (RStr v)"
  using Acquire_False [OF assms(2)] Acquire_free [OF assms(2)] Acquire_True [of "SetExpire t rl" w1 e w2] assms(2)
    locker_at [OF assms(1)] by (auto simp: store_def)

lemma release_step:
  assumes "NewRedisLocker env key v = Inr rl" "run_state (Release api rl) w1 = ((True, e), w2)"
  shows "store view env w2 key = None"
  using Release_True [OF assms(2)] locker_at [OF assms(1)] by (simp add: store_def)

lemma holder_value:
  "lock_run api view env key w evs w1 \<Longrightarrow> holder evs = Some v \<Longrightarrow> store view env w1 key = Some (RStr v)"
proof (induction arbitrary: v rule: lock_run.induct)
  case (attempt evs w1 u rl t ok e w2)
  then show ?case
    using try_step [OF attempt.hyps(2,3)] by (cases ok) auto
qed auto

end

section \<open>A reference server\<close>

text \<open>
  Redis in memory, inside a larger world: \<open>get\<close> and \<open>put\<close> read and replace its data. Expiry is not
  modelled, values of the wrong type give an error.
\<close>

definition upd_store :: "string \<Rightarrow> string \<Rightarrow> rval option \<Rightarrow> rstore \<Rightarrow> rstore" where
  "upd_store a k v s = s(a := (s a)(k := v))"

definition mem_set :: "('w \<Rightarrow> rstore) \<Rightarrow> (rstore \<Rightarrow> 'w \<Rightarrow> 'w) \<Rightarrow> string \<Rightarrow> string \<Rightarrow> 'a \<Rightarrow> rval option \<Rightarrow> ('w, 'a reply) state" where
  "mem_set get put a k x v = State (\<lambda>w. (Val x, put (upd_store a k v (get w)) w))"

definition mem_read :: "('w \<Rightarrow> rstore) \<Rightarrow> string \<Rightarrow> string \<Rightarrow> (rval option \<Rightarrow> 'a reply) \<Rightarrow> ('w, 'a reply) state" where
  "mem_read get a k f = State (\<lambda>w. (f (get w a k), w))"

definition mem_hash :: "('w \<Rightarrow> rstore) \<Rightarrow> (rstore \<Rightarrow> 'w \<Rightarrow> 'w) \<Rightarrow> string \<Rightarrow> string
     \<Rightarrow> ((string \<times> string) list \<Rightarrow> (string \<times> string) list) \<Rightarrow> ('w, unit reply) state" where
  "mem_hash get put a k f = State (\<lambda>w.
     case get w a k of
       None \<Rightarrow> (Val (), put (upd_store a k (Some (RHash (f []))) (get w)) w)
     | Some (RHash kvs) \<Rightarrow> (Val (), put (upd_store a k (Some (RHash (f kvs))) (get w)) w)
     | _ \<Rightarrow> (ErrReply ''WRONGTYPE'', w))"

definition mem_redis :: "('w \<Rightarrow> rstore) \<Rightarrow> (rstore \<Rightarrow> 'w \<Rightarrow> 'w) \<Rightarrow> 'w redis_api" where
  "mem_redis get put =
     \<lparr>cmd_ping = (\<lambda>a. State_Monad.return (Val ())),
      cmd_get = (\<lambda>a k. mem_read get a k
        (\<lambda>v. case v of None \<Rightarrow> NilReply | Some (RStr s) \<Rightarrow> Val s | _ \<Rightarrow> ErrReply ''WRONGTYPE'')),
      cmd_set = (\<lambda>a k v e. mem_set get put a k () (Some (RStr v))),
      cmd_del = (\<lambda>a k. mem_set get put a k () None),
      cmd_hget = (\<lambda>a k f. mem_read get a k
        (\<lambda>v. case v of
             None \<Rightarrow> NilReply
           | Some (RHash kvs) \<Rightarrow> (case map_of kvs f of None \<Rightarrow> NilReply | Some s \<Rightarrow> Val s)
           | _ \<Rightarrow> ErrReply ''WRONGTYPE'')),
      cmd_hset = (\<lambda>a k f v. mem_hash get put a k (AList.update f v)),
      cmd_hdel = (\<lambda>a k f. mem_hash get put a k (AList.delete f)),
      cmd_hincrby = (\<lambda>a k f i. mem_hash get put a k
        (\<lambda>kvs. AList.update f (fmt_d (field_num (map_of kvs) f + i)) kvs)),
      cmd_hgetall = (\<lambda>a k. mem_read get a k
        (\<lambda>v. case v of
             None \<Rightarrow> Val []
           | Some (RHash kvs) \<Rightarrow> Val (AList.clearjunk kvs)
           | _ \<Rightarrow> ErrReply ''WRONGTYPE'')),
      cmd_incr = (\<lambda>a k. State_Monad.return (ErrReply ''not supported'')),
      cmd_decr = (\<lambda>a k. State_Monad.return (ErrReply ''not supported'')),
      cmd_lpush = (\<lambda>a k v. State (\<lambda>w. case get w a k of
           None \<Rightarrow> (Val (), put (upd_store a k (Some (RList [v])) (get w)) w)
         | Some (RList xs) \<Rightarrow> (Val (), put (upd_store a k (Some (RList (v # xs))) (get w)) w)
         | _ \<Rightarrow> (ErrReply ''WRONGTYPE'', w))),
      cmd_brpop = (\<lambda>a t k. State (\<lambda>w. case get w a k of
           Some (RList (x # xs)) \<Rightarrow>
             (Val [k, last (x # xs)], put (upd_store a k (Some (RList (butlast (x # xs)))) (get w)) w)
         | Some (RList []) \<Rightarrow> (NilReply, w)
         | None \<Rightarrow> (NilReply, w)
         | _ \<Rightarrow> (ErrReply ''WRONGTYPE'', w))),
      cmd_eval = (\<lambda>a script ks args. State (\<lambda>w.
         case run_script script ks args (get w a) of
           None \<Rightarrow> (ErrReply ''unknown script'', w)
         | Some (r, d) \<Rightarrow> (r, put ((get w)(a := d)) w)))\<rparr>"

lemma mem_redis_lock_server:
  assumes gp: "\<And>s w. get (put s w) = s"
  shows "lock_server (mem_redis get put) get"
  by unfold_locales
     (auto simp: mem_redis_def mem_read_def mem_set_def mem_hash_def gp hash_of_def is_hash_def list_of_def update_conv' delete_conv'
       map_of_clearjunk distinct_clearjunk only_at_def upd_store_def
       split: option.splits rval.splits if_splits list.splits)

interpretation mem: lock_server "mem_redis (\<lambda>w. w) (\<lambda>s w. s)" "\<lambda>w. w"
  by (rule mem_redis_lock_server) simp

text \<open>The locks on the reference server.\<close>

lemma Acquire_mem:
  "(\<And>s w. get (put s w) = s) \<Longrightarrow> run_state (Acquire (mem_redis get put) rl) w =
     (if get w (rl_client rl) (rl_key rl) = None
      then ((True, None), put (upd_store (rl_client rl) (rl_key rl) (Some (RStr (rl_value rl))) (get w)) w)
      else ((False, None), put (get w) w))"
  by (simp add: Acquire_def mem_redis_def run_lockCommand upd_store_def)

lemma Release_mem:
  "run_state (Release (mem_redis get put) rl) w =
     (if get w (rl_client rl) (rl_key rl) = None then ((False, None), put (get w) w)
      else ((True, None), put (upd_store (rl_client rl) (rl_key rl) None (get w)) w))"
  by (simp add: Release_def mem_redis_def run_delCommand upd_store_def)

lemma mem_cmds:
  "cmd_get (mem_redis get put) a k = mem_read get a k
     (\<lambda>v. case v of None \<Rightarrow> NilReply | Some (RStr s) \<Rightarrow> Val s | _ \<Rightarrow> ErrReply ''WRONGTYPE'')"
  "cmd_set (mem_redis get put) a k v e = mem_set get put a k () (Some (RStr v))"
  "cmd_del (mem_redis get put) a k = mem_set get put a k () None"
  "cmd_hset (mem_redis get put) a k f v = mem_hash get put a k (AList.update f v)"
  "cmd_hgetall (mem_redis get put) a k = mem_read get a k
     (\<lambda>v. case v of None \<Rightarrow> Val [] | Some (RHash kvs) \<Rightarrow> Val (AList.clearjunk kvs) | _ \<Rightarrow> ErrReply ''WRONGTYPE'')"
  by (simp_all add: mem_redis_def)

section \<open>Properties of the locks and of the queue\<close>

text \<open>
  C25: after any history of a lock, as long as the locker that took it last has not been followed by
  a release, its value is in Redis, every other attempt to take the lock fails and leaves the value
  there; an attempt succeeds only when the lock is free, and when it is free the attempt takes it
  or reports an error. A release that reports success leaves the lock free. Expiry is left out: the
  history ends when the key expires.
\<close>
theorem lock_mutual_exclusion:
  assumes "lock_server api view" and "lock_run api view env key w evs w1"
    and "NewRedisLocker env key v' = Inr rl" "run_state (Acquire api (SetExpire t rl)) w1 = ((ok, e), w2)"
  shows "(\<forall>v. holder evs = Some v \<longrightarrow>
            store view env w1 key = Some (RStr v) \<and> \<not> ok \<and> store view env w2 key = Some (RStr v))
     \<and> (ok \<longrightarrow> store view env w1 key = None \<and> store view env w2 key = Some (RStr v'))
     \<and> (store view env w1 key = None \<longrightarrow> ok \<or> e \<noteq> None)
     \<and> (\<forall>e w3. run_state (Release api rl) w1 = ((True, e), w3) \<longrightarrow> store view env w3 key = None)"
  using lock_server.holder_value [OF assms(1,2)] lock_server.try_step [OF assms(1,3,4)]
    lock_server.release_step [OF assms(1,3), of w1] by auto

text \<open>
  The release does not look at the value that the lock was taken with: any locker for the key
  frees the lock, also one that has never held it.
\<close>
theorem release_ignores_owner:
  assumes "lock_server api view" and "NewRedisLocker env key owner = Inr rl" "NewRedisLocker env key other = Inr rl'"
    and "run_state (Acquire api rl) w = ((True, e), w1)" and "run_state (Release api rl') w1 = ((True, e'), w2)"
  shows "store view env w1 key = Some (RStr owner) \<and> store view env w2 key = None"
proof -
  have "GetRedisClientByKey env key = Inr (rl_client rl)" "rl_client rl' = rl_client rl" "rl_key rl = key" "rl_key rl' = key"
    "rl_value rl = owner"
    using assms(2,3) by (auto simp: NewRedisLocker_def split: sum.splits)
  then show ?thesis
    using lock_server.Acquire_True [OF assms(1,4)] lock_server.Release_True [OF assms(1,5)] by (simp add: store_def)
qed

text \<open>
  The status messages that the logic layer pushes onto the Redis list come out at the task layer
  in the order in which they went in, each once.
\<close>
theorem status_queue_fifo:
  assumes "redis_server api view"
    and "push_all (RedisLPUSH api env StatusMsgQueue) (m # ms) w = Some w1" and "queue_at view env StatusMsgQueue w = []"
    and "run_state (RedisBRPOP api env StatusMsgQueue t) w1 = (Inr r, w2)"
  shows "length r = 2 \<and> r ! 1 = m \<and> queue_at view env StatusMsgQueue w2 = ms"
  using redis_server.status_fifo [OF assms] by simp

section \<open>Instances\<close>

definition env1 :: RedisEnv where
  "env1 = \<lparr>re_Client = [''h@1'' \<mapsto> ''h:1''], re_ring = hb_add (NewHashBalance 16 None) ''h@1''\<rparr>"

lemma parse_h1: "ParseAddress ''h@1'' = Some (''h'', 1)" "fmt_d 1 = ''1''"
  by (simp_all add: ParseAddress_def Atoi_def dec_val_def digit_of_def fmt_d_def nat_dec.simps [of "Suc 0"] digit_char_def char_of_eq_iff)

lemma env1_routes: "GetRedisClientByKey env1 key = Inr ''h:1''"
proof -
  have "env_of [''h@1''] [''h@1''] env1"
    using parse_h1 by (simp add: env_of_def env1_def)
  moreover have "re_Client env1 \<noteq> Map.empty"
    by (simp add: env1_def)
  ultimately show ?thesis
    using env_routes [of "[''h@1'']" "[''h@1'']" env1 key] parse_h1 by auto
qed

abbreviation memory :: "rstore redis_api" where
  "memory \<equiv> mem_redis (\<lambda>w. w) (\<lambda>s w. s)"

lemma memory_server: "lock_server memory (\<lambda>w. w)" "redis_server memory (\<lambda>w. w)"
  using mem.lock_server_axioms mem.redis_server_axioms by auto

theorem InitRedis_routes_witness:
  "run_state (InitRedis memory ''h@1'') (\<lambda>_ _. None) = (Some env1, (\<lambda>_ _. None))
   \<and> (\<exists>v. GetRedisClientByKey env1 ''axis:online_user'' = Inr v)"
proof -
  have 1: "run_state (InitRedis memory ''h@1'') (\<lambda>_ _. None) = (Some env1, (\<lambda>_ _. None))"
    using parse_h1 by (simp add: InitRedis_def init_host_def mem_redis_def env1_def)
  have 2: "re_Client env1 \<noteq> Map.empty"
    by (simp add: env1_def)
  show ?thesis
    using 1 InitRedis_routes [OF 1 2] by blast
qed

definition locker :: "string \<Rightarrow> RedisLockObj" where
  "locker v = \<lparr>rl_client = ''h:1'', rl_timout = 0, rl_key = ''k'', rl_value = v\<rparr>"

lemma locker_new: "NewRedisLocker env1 ''k'' v = Inr (locker v)"
  by (simp add: NewRedisLocker_def env1_routes locker_def)

lemma locker_steps:
  "run_state (Acquire memory (SetExpire t (locker v))) (\<lambda>_ _. None) =
     ((True, None), upd_store ''h:1'' ''k'' (Some (RStr v)) (\<lambda>_ _. None))"
  "run_state (Release memory (locker v')) (upd_store ''h:1'' ''k'' (Some (RStr v)) (\<lambda>_ _. None)) =
     ((True, None), upd_store ''h:1'' ''k'' None (upd_store ''h:1'' ''k'' (Some (RStr v)) (\<lambda>_ _. None)))"
  by (simp_all add: SetExpire_def locker_def Acquire_mem Release_mem upd_store_def)

lemma SetExpire_0: "SetExpire 0 (locker v) = locker v"
  by (simp add: SetExpire_def locker_def)

lemma taken_by_a: "lock_run memory (\<lambda>w. w) env1 ''k'' (\<lambda>_ _. None) [Took ''a'' True] (upd_store ''h:1'' ''k'' (Some (RStr ''a'')) (\<lambda>_ _. None))"
  using lock_run.attempt [OF lock_run.start locker_new locker_steps(1)] by simp

theorem lock_mutual_exclusion_witness:
  "lock_server memory (\<lambda>w. w) \<and> NewRedisLocker env1 ''k'' ''b'' = Inr (locker ''b'') \<and>
   (\<exists>w1 e w2. lock_run memory (\<lambda>w. w) env1 ''k'' (\<lambda>_ _. None) [Took ''a'' True] w1 \<and>
      run_state (Acquire memory (SetExpire 60 (locker ''b''))) w1 = ((False, e), w2) \<and> store (\<lambda>w. w) env1 w2 ''k'' = Some (RStr ''a''))"
proof -
  let ?w1 = "upd_store ''h:1'' ''k'' (Some (RStr ''a'')) (\<lambda>_ _. None)"
  obtain ok e w2 where r: "run_state (Acquire memory (SetExpire 60 (locker ''b''))) ?w1 = ((ok, e), w2)"
    by (metis prod.collapse)
  have "holder [Took ''a'' True] = Some ''a''"
    by (simp add: holder_def)
  then have "\<not> ok \<and> store (\<lambda>w. w) env1 w2 ''k'' = Some (RStr ''a'')"
    using lock_mutual_exclusion [OF memory_server(1) taken_by_a locker_new r] by blast
  then show ?thesis
    using memory_server(1) locker_new taken_by_a r by auto
qed

theorem release_ignores_owner_witness:
  "lock_server memory (\<lambda>w. w) \<and> NewRedisLocker env1 ''k'' ''b'' = Inr (locker ''b'') \<and>
   store (\<lambda>w. w) env1 (upd_store ''h:1'' ''k'' None (upd_store ''h:1'' ''k'' (Some (RStr ''a'')) (\<lambda>_ _. None))) ''k'' = None"
  using memory_server(1) locker_new
    release_ignores_owner [OF memory_server(1) locker_new locker_new locker_steps(1) [of 0, unfolded SetExpire_0] locker_steps(2)]
  by blast

theorem status_queue_fifo_witness:
  "redis_server memory (\<lambda>w. w) \<and>
   (\<exists>w1 w2 r. push_all (RedisLPUSH memory env1 StatusMsgQueue) [''m1'', ''m2''] (\<lambda>_ _. None) = Some w1
     \<and> run_state (RedisBRPOP memory env1 StatusMsgQueue 10) w1 = (Inr r, w2) \<and> r ! 1 = ''m1'')"
proof -
  let ?w1 = "upd_store ''h:1'' StatusMsgQueue (Some (RList [''m2'', ''m1''])) (upd_store ''h:1'' StatusMsgQueue (Some (RList [''m1''])) (\<lambda>_ _. None))"
  have 1: "push_all (RedisLPUSH memory env1 StatusMsgQueue) [''m1'', ''m2''] (\<lambda>_ _. None) = Some ?w1"
    by (simp add: RedisLPUSH_def with_client_def env1_routes mem_redis_def err_of_def upd_store_def)
  have 2: "queue_at (\<lambda>w. w) env1 StatusMsgQueue (\<lambda>_ _. None) = []"
    by (simp add: queue_at_def store_def env1_routes list_of_def)
  obtain r w2 where 3: "run_state (RedisBRPOP memory env1 StatusMsgQueue 10) ?w1 = (Inr r, w2)"
    by (simp add: RedisBRPOP_def with_client_def env1_routes mem_redis_def nil_as_def upd_store_def)
  show ?thesis
    using memory_server(2) 1 3 status_queue_fifo [OF memory_server(2) 1 2 3] by blast
qed

end
