(* ===== verification/Discovery.thy ===== *)
theory Discovery
  imports GoStrings RoundRobin "HOL-Library.State_Monad"
begin

text \<open>
  Service registration and discovery (\<^verbatim>\<open>etcd/etcd_register.go\<close>, \<^verbatim>\<open>etcd/etcd_discovery.go\<close>). The etcd
  client and \<^verbatim>\<open>grpc.Dial\<close> are parameters; a connection is a value of type \<open>'c\<close>. A panic is
  \<^term>\<open>None\<close>.
\<close>

section \<open>Discovery\<close>

record 'c ServiceDiscovery =
  sd_serverList :: "string \<rightharpoonup> 'c list"
  sd_indexMap :: "string \<rightharpoonup> nat"
  sd_serverKey :: "string \<rightharpoonup> string list"

definition NewServiceDiscovery :: "'c ServiceDiscovery" where
  "NewServiceDiscovery = \<lparr>sd_serverList = Map.empty, sd_indexMap = Map.empty, sd_serverKey = Map.empty\<rparr>"

text \<open>Reading a missing entry of a Go map gives the zero value.\<close>

definition at_list :: "(string \<rightharpoonup> 'a list) \<Rightarrow> string \<Rightarrow> 'a list" where
  "at_list m k = (case m k of None \<Rightarrow> [] | Some xs \<Rightarrow> xs)"

definition at_index :: "(string \<rightharpoonup> nat) \<Rightarrow> string \<Rightarrow> nat" where
  "at_index m k = (case m k of None \<Rightarrow> 0 | Some i \<Rightarrow> i)"

fun getElementIndexInSlice :: "string \<Rightarrow> string list \<Rightarrow> nat option" where
  "getElementIndexInSlice key [] = None"
| "getElementIndexInSlice key (x # xs) =
     (if x = key then Some 0 else map_option Suc (getElementIndexInSlice key xs))"

definition server_id_of :: "string \<Rightarrow> string option" where
  "server_id_of key = map_option (RemoveAll ''serverId='') (index (Split (CHR ''&'') key) 1)"

definition SetServiceList ::
  "(string \<Rightarrow> string + 'c) \<Rightarrow> string \<Rightarrow> string \<Rightarrow> 'c ServiceDiscovery \<Rightarrow> 'c ServiceDiscovery option" where
  "SetServiceList dial key val s =
     (case server_id_of key of
        None \<Rightarrow> None
      | Some serverId \<Rightarrow>
          (case getElementIndexInSlice key (at_list (sd_serverKey s) serverId) of
             Some _ \<Rightarrow> Some s
           | None \<Rightarrow>
               (case dial val of
                  Inl _ \<Rightarrow> Some s
                | Inr ins \<Rightarrow>
                    if sd_serverList s serverId = None then
                      Some (s\<lparr>sd_serverList := (sd_serverList s)(serverId \<mapsto> [ins]),
                              sd_serverKey := (sd_serverKey s)(serverId \<mapsto> [key]),
                              sd_indexMap := (sd_indexMap s)(serverId \<mapsto> 0)\<rparr>)
                    else
                      Some (s\<lparr>sd_serverList := (sd_serverList s)(serverId \<mapsto> at_list (sd_serverList s) serverId @ [ins]),
                              sd_serverKey := (sd_serverKey s)(serverId \<mapsto> at_list (sd_serverKey s) serverId @ [key])\<rparr>))))"

text \<open>
  The entry and the connection to close. An unknown key has index -1 and the slice expressions
  panic, as does a position beyond the list of connections.
\<close>

definition DelServiceList :: "string \<Rightarrow> 'c ServiceDiscovery \<Rightarrow> ('c \<times> 'c ServiceDiscovery) option" where
  "DelServiceList key s =
     (case server_id_of key of
        None \<Rightarrow> None
      | Some serverId \<Rightarrow>
          (let ks = at_list (sd_serverKey s) serverId; cs = at_list (sd_serverList s) serverId
           in case getElementIndexInSlice key ks of
                None \<Rightarrow> None
              | Some idx \<Rightarrow>
                  if idx < length cs then
                    Some (cs ! idx,
                      s\<lparr>sd_serverList := (sd_serverList s)(serverId \<mapsto> take idx cs @ drop (idx + 1) cs),
                        sd_serverKey := (sd_serverKey s)(serverId \<mapsto> take idx ks @ drop (idx + 1) ks)\<rparr>)
                  else None))"

datatype discovery_error = UnknownServerId | NoInstance

text \<open>
  \<^verbatim>\<open>GetServiceByServerId\<close> reads under the read lock and moves the index on under the write lock; a
  deletion in between can leave no instance, and the remainder by zero panics.
\<close>

definition get_read :: "string \<Rightarrow> 'c ServiceDiscovery \<Rightarrow> discovery_error + 'c" where
  "get_read serverId s =
     (case sd_serverList s serverId of
        None \<Rightarrow> Inl UnknownServerId
      | Some [] \<Rightarrow> Inl NoInstance
      | Some cs \<Rightarrow> Inr (cs ! (at_index (sd_indexMap s) serverId mod length cs)))"

definition get_advance :: "string \<Rightarrow> 'c ServiceDiscovery \<Rightarrow> 'c ServiceDiscovery option" where
  "get_advance serverId s =
     (let n = length (at_list (sd_serverList s) serverId)
      in if n = 0 then None
         else Some (s\<lparr>sd_indexMap := (sd_indexMap s)(serverId \<mapsto> (at_index (sd_indexMap s) serverId + 1) mod n)\<rparr>))"

definition GetServiceByServerId ::
  "string \<Rightarrow> 'c ServiceDiscovery \<Rightarrow> ((discovery_error + 'c) \<times> 'c ServiceDiscovery) option" where
  "GetServiceByServerId serverId s =
     (case get_read serverId s of
        Inl e \<Rightarrow> Some (Inl e, s)
      | Inr ins \<Rightarrow> map_option (Pair (Inr ins)) (get_advance serverId s))"

text \<open>The watcher: the entries found at the start, then the events, each a put or a deletion.\<close>

datatype etcd_event = PUT string string | DELETE string

fun apply_event :: "(string \<Rightarrow> string + 'c) \<Rightarrow> etcd_event \<Rightarrow> 'c ServiceDiscovery \<Rightarrow> 'c ServiceDiscovery option" where
  "apply_event dial (PUT k v) s = SetServiceList dial k v s"
| "apply_event dial (DELETE k) s = map_option snd (DelServiceList k s)"

fun watcher :: "(string \<Rightarrow> string + 'c) \<Rightarrow> etcd_event list \<Rightarrow> 'c ServiceDiscovery \<Rightarrow> 'c ServiceDiscovery option" where
  "watcher dial [] s = Some s"
| "watcher dial (e # es) s = Option.bind (apply_event dial e s) (watcher dial es)"

definition WatchService ::
  "(string \<Rightarrow> string + 'c) \<Rightarrow> (string \<times> string) list \<Rightarrow> etcd_event list \<Rightarrow> 'c ServiceDiscovery \<Rightarrow> 'c ServiceDiscovery option" where
  "WatchService dial kvs events s =
     Option.bind (watcher dial (map (\<lambda>(k, v). PUT k v) kvs) s) (watcher dial events)"

section \<open>Registration\<close>

record 'w etcd_api =
  et_New :: "string list \<Rightarrow> int \<Rightarrow> ('w, string + nat) state"
  et_Grant :: "nat \<Rightarrow> int \<Rightarrow> ('w, string + int) state"
  et_Put :: "nat \<Rightarrow> string \<Rightarrow> string \<Rightarrow> int \<Rightarrow> ('w, string option) state"
  et_KeepAlive :: "nat \<Rightarrow> int \<Rightarrow> ('w, string + nat) state"
  et_Revoke :: "nat \<Rightarrow> int \<Rightarrow> ('w, string option) state"
  et_Close :: "nat \<Rightarrow> ('w, string option) state"

record ServiceRegister =
  sr_cli :: nat
  sr_leaseID :: int
  sr_keepAliveChan :: nat
  sr_key :: string
  sr_val :: string

definition putKeyWithLease :: "'w etcd_api \<Rightarrow> int \<Rightarrow> ServiceRegister \<Rightarrow> ('w, string + ServiceRegister) state" where
  "putKeyWithLease api lease s = do {
     resp \<leftarrow> et_Grant api (sr_cli s) lease;
     (case resp of
        Inl e \<Rightarrow> State_Monad.return (Inl e)
      | Inr ID \<Rightarrow> do {
          err \<leftarrow> et_Put api (sr_cli s) (sr_key s) (sr_val s) ID;
          (case err of
             Some e \<Rightarrow> State_Monad.return (Inl e)
           | None \<Rightarrow> do {
               ch \<leftarrow> et_KeepAlive api (sr_cli s) ID;
               State_Monad.return (case ch of
                  Inl e \<Rightarrow> Inl e
                | Inr c \<Rightarrow> Inr (s\<lparr>sr_leaseID := ID, sr_keepAliveChan := c\<rparr>))
             })
        })
   }"

definition NewServiceRegister ::
  "'w etcd_api \<Rightarrow> string list \<Rightarrow> string \<Rightarrow> string \<Rightarrow> int \<Rightarrow> int \<Rightarrow> ('w, string + ServiceRegister) state" where
  "NewServiceRegister api endpoints key val lease dailTimeout = do {
     cli \<leftarrow> et_New api endpoints (dailTimeout * 1000000000);
     (case cli of
        Inl e \<Rightarrow> State_Monad.return (Inl e)
      | Inr c \<Rightarrow> putKeyWithLease api lease
          \<lparr>sr_cli = c, sr_leaseID = 0, sr_keepAliveChan = 0, sr_key = key, sr_val = val\<rparr>)
   }"

definition register_Close :: "'w etcd_api \<Rightarrow> ServiceRegister \<Rightarrow> ('w, string option) state" where
  "register_Close api s = do {
     err \<leftarrow> et_Revoke api (sr_cli s) (sr_leaseID s);
     (case err of Some e \<Rightarrow> State_Monad.return (Some e) | None \<Rightarrow> et_Close api (sr_cli s))
   }"

text \<open>
  The loop over the answers to the renewals of the lease, one at a time; \<^term>\<open>None\<close> is the closed channel. The result tells whether the loop has
  returned.
\<close>

fun ListenLeaseRespChan :: "'r option list \<Rightarrow> bool" where
  "ListenLeaseRespChan [] = False"
| "ListenLeaseRespChan (None # _) = True"
| "ListenLeaseRespChan (Some _ # rs) = ListenLeaseRespChan rs"

text \<open>\<^verbatim>\<open>Close\<close> of the discovery closes its client.\<close>

definition discovery_Close :: "'w etcd_api \<Rightarrow> nat \<Rightarrow> ('w, string option) state" where
  "discovery_Close api cli = et_Close api cli"

text \<open>The key under which a service is registered, by both the logic and the connect layer.\<close>

definition service_key :: "string \<Rightarrow> string \<Rightarrow> string \<Rightarrow> string \<Rightarrow> string" where
  "service_key basePath serverPath serverId address =
     basePath @ ''/'' @ serverPath @ ''&serverId='' @ serverId @ ''&address='' @ address"

section \<open>The discovery keeps its slices parallel\<close>

text \<open>
  The abstract registry: for every server id the keys with their connections, in order of
  registration.
\<close>

definition registry :: "'c ServiceDiscovery \<Rightarrow> string \<Rightarrow> (string \<times> 'c) list" where
  "registry s sid = zip (at_list (sd_serverKey s) sid) (at_list (sd_serverList s) sid)"

definition disc_ok :: "'c ServiceDiscovery \<Rightarrow> bool" where
  "disc_ok s \<longleftrightarrow> (\<forall>sid. length (at_list (sd_serverKey s) sid) = length (at_list (sd_serverList s) sid)
       \<and> distinct (at_list (sd_serverKey s) sid)
       \<and> (sd_serverList s sid = None \<longleftrightarrow> sd_serverKey s sid = None)
       \<and> (\<forall>k \<in> set (at_list (sd_serverKey s) sid). server_id_of k = Some sid))"

lemma getElementIndex_None: "getElementIndexInSlice key xs = None \<longleftrightarrow> key \<notin> set xs"
  by (induction xs) auto

lemma getElementIndex_Some:
  "getElementIndexInSlice key xs = Some i \<Longrightarrow> i < length xs \<and> xs ! i = key \<and> key \<notin> set (take i xs)"
  by (induction xs arbitrary: i) (auto split: if_splits)

lemma at_list_simps [simp]:
  "at_list (m(k \<mapsto> xs)) l = (if l = k then xs else at_list m l)" "at_list Map.empty l = []"
  by (simp_all add: at_list_def)

lemma disc_ok_new: "disc_ok NewServiceDiscovery"
  by (simp add: disc_ok_def NewServiceDiscovery_def)

lemma zip_remove:
  "length xs = length ys \<Longrightarrow> i < length xs \<Longrightarrow>
   zip (take i xs @ drop (Suc i) xs) (take i ys @ drop (Suc i) ys) = take i (zip xs ys) @ drop (Suc i) (zip xs ys)"
  by (simp add: take_zip drop_zip)

lemma filter_remove:
  assumes "distinct (map fst kvs)" and "i < length kvs" and "fst (kvs ! i) = k"
  shows "take i kvs @ drop (Suc i) kvs = filter (\<lambda>kv. fst kv \<noteq> k) kvs"
proof -
  have split: "kvs = take i kvs @ kvs ! i # drop (Suc i) kvs"
    using assms(2) by (rule id_take_nth_drop)
  have "distinct (map fst (take i kvs @ kvs ! i # drop (Suc i) kvs))"
    using assms(1) split by simp
  then have "k \<notin> fst ` set (take i kvs)" "k \<notin> fst ` set (drop (Suc i) kvs)"
    using assms(3) by auto
  then have "filter (\<lambda>kv. fst kv \<noteq> k) (take i kvs) = take i kvs"
    "filter (\<lambda>kv. fst kv \<noteq> k) (drop (Suc i) kvs) = drop (Suc i) kvs"
    by (force simp: filter_id_conv)+
  then have "filter (\<lambda>kv. fst kv \<noteq> k) (take i kvs @ kvs ! i # drop (Suc i) kvs) = take i kvs @ drop (Suc i) kvs"
    using assms(3) by simp
  then show ?thesis
    using split by simp
qed

lemma map_remove: "map f (take i xs @ drop j xs) = take i (map f xs) @ drop j (map f xs)"
  by (simp add: take_map drop_map)

lemma disc_ok_at:
  assumes "disc_ok s"
  shows "map fst (registry s sid) = at_list (sd_serverKey s) sid"
    and "map snd (registry s sid) = at_list (sd_serverList s) sid"
    and "length (at_list (sd_serverKey s) sid) = length (at_list (sd_serverList s) sid)"
    and "distinct (at_list (sd_serverKey s) sid)"
    and "fst ` set (registry s sid) = set (at_list (sd_serverKey s) sid)"
proof -
  show len: "length (at_list (sd_serverKey s) sid) = length (at_list (sd_serverList s) sid)"
    and "distinct (at_list (sd_serverKey s) sid)"
    using assms by (auto simp: disc_ok_def)
  show *: "map fst (registry s sid) = at_list (sd_serverKey s) sid"
    and "map snd (registry s sid) = at_list (sd_serverList s) sid"
    using len by (simp_all add: registry_def)
  show "fst ` set (registry s sid) = set (at_list (sd_serverKey s) sid)"
    using * by (metis set_map)
qed

lemma disc_ok_id: "disc_ok s \<Longrightarrow> key \<in> fst ` set (registry s sid) \<Longrightarrow> server_id_of key = Some sid"
  unfolding disc_ok_at(5) by (auto simp: disc_ok_def)

lemma disc_ok_upd:
  assumes "disc_ok s" and "length ks = length cs" and "distinct ks" and "\<forall>k \<in> set ks. server_id_of k = Some sid"
  shows "disc_ok (s\<lparr>sd_serverList := (sd_serverList s)(sid \<mapsto> cs), sd_serverKey := (sd_serverKey s)(sid \<mapsto> ks), sd_indexMap := im\<rparr>)"
  using assms by (simp add: disc_ok_def)

lemma registry_upd:
  "registry (s\<lparr>sd_serverList := (sd_serverList s)(sid \<mapsto> cs), sd_serverKey := (sd_serverKey s)(sid \<mapsto> ks), sd_indexMap := im\<rparr>)
   = (registry s)(sid := zip ks cs)"
  by (simp add: registry_def fun_eq_iff)

lemma at_none: "disc_ok s \<Longrightarrow> sd_serverList s sid = None \<Longrightarrow>
   at_list (sd_serverList s) sid = [] \<and> at_list (sd_serverKey s) sid = []"
  using disc_ok_at(3) [of s sid] by (simp add: at_list_def)

lemma SetServiceList_append:
  assumes "disc_ok s" and "server_id_of key = Some sid" and "dial val = Inr ins"
    and "key \<notin> set (at_list (sd_serverKey s) sid)"
  shows "\<exists>im. SetServiceList dial key val s =
     Some (s\<lparr>sd_serverList := (sd_serverList s)(sid \<mapsto> at_list (sd_serverList s) sid @ [ins]),
             sd_serverKey := (sd_serverKey s)(sid \<mapsto> at_list (sd_serverKey s) sid @ [key]), sd_indexMap := im\<rparr>)"
proof (cases "sd_serverList s sid")
  case None
  then show ?thesis
    using assms at_none [OF assms(1) None]
    by (intro exI [of _ "(sd_indexMap s)(sid \<mapsto> 0)"]) (simp add: SetServiceList_def getElementIndex_None [THEN iffD2])
next
  case (Some cs)
  then show ?thesis
    using assms by (intro exI [of _ "sd_indexMap s"]) (simp add: SetServiceList_def getElementIndex_None [THEN iffD2])
qed

lemma SetServiceList_registry:
  assumes "disc_ok s" and "server_id_of key = Some sid" and "dial val = Inr ins"
  shows "\<exists>s'. SetServiceList dial key val s = Some s' \<and> disc_ok s' \<and>
     registry s' = (registry s)(sid := if key \<in> fst ` set (registry s sid) then registry s sid else registry s sid @ [(key, ins)])"
proof (cases "key \<in> set (at_list (sd_serverKey s) sid)")
  case True
  then obtain i where "getElementIndexInSlice key (at_list (sd_serverKey s) sid) = Some i"
    using getElementIndex_None by (metis option.exhaust)
  then show ?thesis
    using assms True disc_ok_at(5) [OF assms(1), of sid] by (simp add: SetServiceList_def)
next
  case False
  note at = disc_ok_at [OF assms(1), of sid]
  obtain im where "SetServiceList dial key val s =
     Some (s\<lparr>sd_serverList := (sd_serverList s)(sid \<mapsto> at_list (sd_serverList s) sid @ [ins]),
             sd_serverKey := (sd_serverKey s)(sid \<mapsto> at_list (sd_serverKey s) sid @ [key]), sd_indexMap := im\<rparr>)" (is "_ = Some ?s'")
    using SetServiceList_append [where dial = dial and val = val, OF assms False] by auto
  moreover have "disc_ok ?s'"
    using at(3,4) False assms(1,2) by (intro disc_ok_upd) (auto simp: disc_ok_def)
  moreover have "registry ?s' = (registry s)(sid := registry s sid @ [(key, ins)])"
    using at(3) unfolding registry_upd by (simp add: registry_def)
  ultimately show ?thesis
    using False at(5) by auto
qed

lemma distinct_remove: "distinct xs \<Longrightarrow> distinct (take i xs @ drop (Suc i) xs)"
  using set_take_disj_set_drop_if_distinct [of xs i "Suc i"] by simp

lemma set_remove: "set (take i xs @ drop (Suc i) xs) \<subseteq> set xs"
  using set_take_subset [of i xs] set_drop_subset [of "Suc i" xs] by auto

lemma DelServiceList_registry:
  assumes "disc_ok s" and "server_id_of key = Some sid" and "key \<in> fst ` set (registry s sid)"
  shows "\<exists>c s'. DelServiceList key s = Some (c, s') \<and> disc_ok s' \<and> (key, c) \<in> set (registry s sid) \<and>
     registry s' = (registry s)(sid := filter (\<lambda>kc. fst kc \<noteq> key) (registry s sid))"
proof -
  let ?ks = "at_list (sd_serverKey s) sid" and ?cs = "at_list (sd_serverList s) sid"
  note at = disc_ok_at [OF assms(1), of sid]
  obtain i where i: "getElementIndexInSlice key ?ks = Some i"
    using getElementIndex_None assms(3) at(5) by (metis option.exhaust)
  note j = getElementIndex_Some [OF i]
  let ?s' = "s\<lparr>sd_serverList := (sd_serverList s)(sid \<mapsto> take i ?cs @ drop (Suc i) ?cs),
     sd_serverKey := (sd_serverKey s)(sid \<mapsto> take i ?ks @ drop (Suc i) ?ks), sd_indexMap := sd_indexMap s\<rparr>"
  have "DelServiceList key s = Some (?cs ! i, ?s')"
    using assms(2) i j at(3) by (simp add: DelServiceList_def Let_def)
  moreover have "disc_ok ?s'"
    using assms(1) at(3,4) distinct_remove [of ?ks i] set_remove [of i ?ks]
    by (intro disc_ok_upd) (auto simp: disc_ok_def subset_iff)
  moreover have "(key, ?cs ! i) \<in> set (registry s sid)"
    using j at(3) by (auto simp: registry_def set_zip)
  moreover have "take i (registry s sid) @ drop (Suc i) (registry s sid) = filter (\<lambda>kc. fst kc \<noteq> key) (registry s sid)"
    using j at(1,3,4) by (intro filter_remove) (simp_all add: registry_def)
  then have "registry ?s' = (registry s)(sid := filter (\<lambda>kc. fst kc \<noteq> key) (registry s sid))"
    unfolding registry_upd using zip_remove [OF at(3)] j by (simp add: registry_def)
  ultimately show ?thesis
    by blast
qed

section \<open>The watcher refines the abstract registry\<close>

definition reg_put :: "string \<Rightarrow> string \<Rightarrow> 'c \<Rightarrow> (string \<Rightarrow> (string \<times> 'c) list) \<Rightarrow> string \<Rightarrow> (string \<times> 'c) list" where
  "reg_put sid key c r = (if key \<in> fst ` set (r sid) then r else r(sid := r sid @ [(key, c)]))"

fun reg_event :: "(string \<Rightarrow> string + 'c) \<Rightarrow> etcd_event \<Rightarrow> (string \<Rightarrow> (string \<times> 'c) list) \<Rightarrow> string \<Rightarrow> (string \<times> 'c) list" where
  "reg_event dial (PUT key val) r =
     (case dial val of Inl _ \<Rightarrow> r | Inr c \<Rightarrow> reg_put (the (server_id_of key)) key c r)"
| "reg_event dial (DELETE key) r =
     (let sid = the (server_id_of key) in r(sid := filter (\<lambda>kc. fst kc \<noteq> key) (r sid)))"

text \<open>The events that do not make the watcher panic: keys with a server id, deletions of known keys.\<close>

fun event_ok :: "etcd_event \<Rightarrow> (string \<Rightarrow> (string \<times> 'c) list) \<Rightarrow> bool" where
  "event_ok (PUT key val) r = (server_id_of key \<noteq> None)"
| "event_ok (DELETE key) r =
     (case server_id_of key of None \<Rightarrow> False | Some sid \<Rightarrow> key \<in> fst ` set (r sid))"

fun events_ok :: "(string \<Rightarrow> string + 'c) \<Rightarrow> etcd_event list \<Rightarrow> (string \<Rightarrow> (string \<times> 'c) list) \<Rightarrow> bool" where
  "events_ok dial [] r = True"
| "events_ok dial (e # es) r = (event_ok e r \<and> events_ok dial es (reg_event dial e r))"

lemma SetServiceList_no_dial:
  assumes "server_id_of key \<noteq> None" and "dial val = Inl e"
  shows "SetServiceList dial key val s = Some s"
  using assms by (auto simp: SetServiceList_def split: option.splits)

lemma apply_event_refines:
  assumes "disc_ok s" and "event_ok e (registry s)"
  shows "\<exists>s'. apply_event dial e s = Some s' \<and> disc_ok s' \<and> registry s' = reg_event dial e (registry s)"
proof (cases e)
  case (PUT key val)
  then obtain sid where sid: "server_id_of key = Some sid"
    using assms(2) by auto
  show ?thesis
  proof (cases "dial val")
    case (Inl x)
    then show ?thesis
      using assms PUT SetServiceList_no_dial [of key dial val x s] by simp
  next
    case (Inr c)
    then show ?thesis
      using PUT sid SetServiceList_registry [of s key sid dial val c, OF assms(1) sid]
      by (cases "key \<in> fst ` set (registry s sid)") (simp_all add: reg_put_def)
  qed
next
  case (DELETE key)
  then obtain sid where sid: "server_id_of key = Some sid" "key \<in> fst ` set (registry s sid)"
    using assms(2) by (auto split: option.splits)
  then show ?thesis
    using DELETE DelServiceList_registry [OF assms(1) sid] by auto
qed

lemma watcher_refines:
  assumes "disc_ok s" and "events_ok dial es (registry s)"
  shows "\<exists>s'. watcher dial es s = Some s' \<and> disc_ok s' \<and> registry s' = fold (reg_event dial) es (registry s)"
  using assms
proof (induction es arbitrary: s)
  case (Cons e es)
  then obtain s' where "apply_event dial e s = Some s'" "disc_ok s'" "registry s' = reg_event dial e (registry s)"
    using apply_event_refines [of s e dial] by auto
  then show ?case
    using Cons.IH [of s'] Cons.prems by simp
qed simp

lemma watcher_append: "watcher dial (es @ fs) s = Option.bind (watcher dial es s) (watcher dial fs)"
  proof (induction es arbitrary: s)
  case (Cons e es)
  then show ?case
    by (cases "apply_event dial e s") simp_all
qed simp

text \<open>
  C22: From the empty discovery, the entries found by the first \<^verbatim>\<open>Get\<close> and then any events of
  the watch, as long as every key carries a server id and only registered keys are deleted, leave
  the two parallel maps of slices as the representation of the registry obtained by applying
  the puts and deletions in order: no panic, no key twice, every connection under its own key.
  A dial that fails and a key that is already known change nothing.
\<close>

theorem watch_refines_registry:
  fixes dial :: "string \<Rightarrow> string + 'c"
  assumes "events_ok dial (map (\<lambda>(k, v). PUT k v) kvs @ events) (\<lambda>_. [])"
  shows "\<exists>s. WatchService dial kvs events NewServiceDiscovery = Some s \<and> disc_ok s \<and>
     registry s = fold (reg_event dial) (map (\<lambda>(k, v). PUT k v) kvs @ events) (\<lambda>_. [])"
proof -
  have "registry (NewServiceDiscovery :: 'c ServiceDiscovery) = (\<lambda>_. [])"
    by (simp add: registry_def NewServiceDiscovery_def fun_eq_iff)
  then show ?thesis
    using watcher_refines [OF disc_ok_new, of dial "map (\<lambda>(k, v). PUT k v) kvs @ events"] assms
    unfolding WatchService_def watcher_append by simp
qed

section \<open>A registered service is found\<close>

lemma Split_nonempty [simp]: "Split sep cs \<noteq> []"
  by (induction cs) (auto split: list.splits)

lemma Split_free [simp]: "sep \<notin> set xs \<Longrightarrow> Split sep (xs @ sep # cs) = xs # Split sep cs"
  by (induction xs) auto

lemma RemoveAll_prefix: "old \<noteq> [] \<Longrightarrow> RemoveAll old (old @ cs) = RemoveAll old cs"
  by (cases old) auto

lemma server_id_of_key:
  assumes "CHR ''&'' \<notin> set basePath" "CHR ''&'' \<notin> set serverPath" "CHR ''&'' \<notin> set sid"
    and "RemoveAll ''serverId='' sid = sid"
  shows "server_id_of (service_key basePath serverPath sid address) = Some sid"
proof -
  have "service_key basePath serverPath sid address =
      (basePath @ ''/'' @ serverPath) @ CHR ''&'' # (''serverId='' @ sid) @ CHR ''&'' # (''address='' @ address)"
    by (simp add: service_key_def)
  then have "Split (CHR ''&'') (service_key basePath serverPath sid address) =
      (basePath @ ''/'' @ serverPath) # (''serverId='' @ sid) # Split (CHR ''&'') (''address='' @ address)"
    using assms by (simp only:) (subst Split_free, simp, subst Split_free, simp_all)
  then show ?thesis
    using assms(4) RemoveAll_prefix [of "''serverId=''" sid] by (simp add: server_id_of_def)
qed

lemma get_registered:
  assumes "disc_ok s" and "registry s sid \<noteq> []"
  shows "\<exists>c \<in> snd ` set (registry s sid). \<exists>s'. GetServiceByServerId sid s = Some (Inr c, s') \<and> registry s' = registry s \<and> disc_ok s'"
proof -
  let ?cs = "at_list (sd_serverList s) sid"
  have cs: "?cs \<noteq> []" "sd_serverList s sid = Some ?cs"
    using assms disc_ok_at(3) [OF assms(1), of sid] by (auto simp: registry_def at_list_def split: option.splits)
  let ?c = "?cs ! (at_index (sd_indexMap s) sid mod length ?cs)"
  have "?c \<in> set ?cs"
    using cs(1) by simp
  then have "?c \<in> snd ` set (registry s sid)"
    using disc_ok_at(2) [OF assms(1), of sid] by (metis set_map)
  moreover have "\<exists>s'. GetServiceByServerId sid s = Some (Inr ?c, s') \<and> registry s' = registry s \<and> disc_ok s'"
    using cs assms(1)
    by (auto simp: GetServiceByServerId_def get_read_def get_advance_def Let_def registry_def disc_ok_def fun_eq_iff
        split: list.splits option.splits)
  ultimately show ?thesis
    by blast
qed

text \<open>
  C17: The key that \<^verbatim>\<open>logic/logic.go\<close> and \<^verbatim>\<open>connect/connect.go\<close> register is taken apart by the discovery
  into the same server id, so once the put event of a service has arrived, a lookup of its server id
  succeeds and returns the connection of a service registered under that id.
\<close>

theorem registered_service_found:
  assumes "disc_ok s" and "dial val = Inr c"
    and "CHR ''&'' \<notin> set basePath" "CHR ''&'' \<notin> set serverPath" "CHR ''&'' \<notin> set sid"
    and "RemoveAll ''serverId='' sid = sid"
    and "SetServiceList dial (service_key basePath serverPath sid address) val s = Some s'"
  shows "\<exists>key c' s''. GetServiceByServerId sid s' = Some (Inr c', s'') \<and> (key, c') \<in> set (registry s' sid) \<and>
     server_id_of key = Some sid \<and> service_key basePath serverPath sid address \<in> fst ` set (registry s' sid)"
proof -
  let ?key = "service_key basePath serverPath sid address"
  have sid: "server_id_of ?key = Some sid"
    using assms(3-6) by (rule server_id_of_key)
  have ok: "disc_ok s'" "registry s' = (registry s)(sid := if ?key \<in> fst ` set (registry s sid)
      then registry s sid else registry s sid @ [(?key, c)])"
    using SetServiceList_registry [where dial = dial and val = val, OF assms(1) sid assms(2)] assms(7) by auto
  then have mem: "?key \<in> fst ` set (registry s' sid)"
    by auto
  then obtain c' s'' where get: "c' \<in> snd ` set (registry s' sid)" "GetServiceByServerId sid s' = Some (Inr c', s'')"
    using get_registered [OF ok(1), of sid] by force
  then obtain k where k: "(k, c') \<in> set (registry s' sid)"
    by auto
  then have "k \<in> set (at_list (sd_serverKey s') sid)"
    using disc_ok_at(5) [OF ok(1), of sid] by force
  then have "server_id_of k = Some sid"
    using ok(1) by (auto simp: disc_ok_def)
  then show ?thesis
    using get k mem by blast
qed

section \<open>Turns\<close>

definition serving :: "string \<Rightarrow> nat \<Rightarrow> 'c ServiceDiscovery \<Rightarrow> bool" where
  "serving sid n s \<longleftrightarrow> 0 < n \<and> length (at_list (sd_serverList s) sid) = n"

definition next_index :: "string \<Rightarrow> 'c ServiceDiscovery \<Rightarrow> nat" where
  "next_index sid s = at_index (sd_indexMap s) sid mod length (at_list (sd_serverList s) sid)"

definition after_get :: "string \<Rightarrow> 'c ServiceDiscovery \<Rightarrow> 'c ServiceDiscovery" where
  "after_get sid s = (case GetServiceByServerId sid s of None \<Rightarrow> s | Some (_, s') \<Rightarrow> s')"

lemma GetServiceByServerId_serving:
  assumes "serving sid n s"
  shows "GetServiceByServerId sid s = Some (Inr (at_list (sd_serverList s) sid ! next_index sid s),
     s\<lparr>sd_indexMap := (sd_indexMap s)(sid \<mapsto> (at_index (sd_indexMap s) sid + 1) mod n)\<rparr>)"
  using assms
  by (auto simp: serving_def GetServiceByServerId_def get_read_def get_advance_def Let_def next_index_def at_list_def
      split: option.splits list.splits)

interpretation turns: round_robin "serving sid" "next_index sid" "after_get sid" for sid
proof
  fix n and s :: "'c ServiceDiscovery"
  assume ok: "serving sid n s"
  show "0 < n" "next_index sid s < n"
    using ok by (auto simp: serving_def next_index_def)
  show "serving sid n (after_get sid s)" "next_index sid (after_get sid s) = (next_index sid s + 1) mod n"
    using ok by (auto simp: after_get_def GetServiceByServerId_serving [OF ok] serving_def next_index_def at_index_def mod_Suc_eq)
qed

lemma after_get_serverList:
  fixes s :: "'c ServiceDiscovery"
  shows "sd_serverList ((after_get sid ^^ k) s) = sd_serverList s"
proof (induction k)
  case (Suc k)
  have "sd_serverList (after_get sid t) = sd_serverList t" for t :: "'c ServiceDiscovery"
    by (auto simp: after_get_def GetServiceByServerId_def get_read_def get_advance_def Let_def
        split: option.splits sum.splits if_splits list.splits)
  then show ?case
    using Suc by simp
qed simp

text \<open>
  C13: With \<open>n\<close> instances under a server id, \<open>n\<close> consecutive lookups of that id return every
  instance: whatever index earlier registrations and deletions have left behind, the load goes
  round.
\<close>

theorem instances_in_turn:
  assumes "at_list (sd_serverList s) sid = cs" and "cs \<noteq> []" and "i < length cs"
  shows "\<exists>k < length cs. \<exists>s'. GetServiceByServerId sid ((after_get sid ^^ k) s) = Some (Inr (cs ! i), s')"
proof -
  have ok: "serving sid (length cs) s"
    using assms by (simp add: serving_def)
  then obtain k where "k < length cs" "next_index sid ((after_get sid ^^ k) s) = i"
    using turns.turns_all assms(3) by blast
  then show ?thesis
    using GetServiceByServerId_serving [OF turns.ok_steps [OF ok, of k]] assms(1)
    by (auto simp: after_get_serverList intro!: exI [of _ k])
qed

section \<open>Deletions that panic\<close>

text \<open>
  C36: \<^verbatim>\<open>DelServiceList\<close> uses the position -1 of an unknown key as an index: the deletion of a
  key that was never added, for instance because its dial failed, panics with the lock held. And
  because \<^verbatim>\<open>GetServiceByServerId\<close> gives up the lock between choosing an instance and moving the
  index on, the deletion of the last instance in between makes the remainder a division by zero.
\<close>

theorem deletion_panics:
  assumes "disc_ok s"
  shows "(key \<notin> fst ` set (registry s sid) \<and> server_id_of key = Some sid \<longrightarrow> DelServiceList key s = None)
    \<and> (registry s sid = [(key, c)] \<longrightarrow>
        get_read sid s = Inr c \<and> (\<exists>s'. DelServiceList key s = Some (c, s') \<and> get_advance sid s' = None))"
proof (intro conjI impI)
  assume "key \<notin> fst ` set (registry s sid) \<and> server_id_of key = Some sid"
  then show "DelServiceList key s = None"
    using disc_ok_at(5) [OF assms, of sid] by (simp add: DelServiceList_def getElementIndex_None [THEN iffD2] Let_def)
next
  assume one: "registry s sid = [(key, c)]"
  then have cs: "at_list (sd_serverList s) sid = [c]"
    using disc_ok_at(2) [OF assms, of sid] by simp
  then show "get_read sid s = Inr c"
    by (auto simp: get_read_def at_list_def split: option.splits list.splits)
  have sid: "server_id_of key = Some sid"
    using disc_ok_id [OF assms, of key sid] one by simp
  obtain c' s' where "DelServiceList key s = Some (c', s')" "disc_ok s'" "(key, c') \<in> set (registry s sid)"
    "registry s' sid = []"
    using DelServiceList_registry [OF assms sid] one by auto
  then show "\<exists>s'. DelServiceList key s = Some (c, s') \<and> get_advance sid s' = None"
    using one disc_ok_at(2) [of s' sid] by (auto simp: get_advance_def Let_def)
qed

section \<open>An example\<close>

definition logic_key :: "string \<Rightarrow> string" where
  "logic_key a = service_key ''axis'' ''logic'' ''L1'' a"

lemma watch_refines_registry_witness:
  "\<exists>s. WatchService Inr [(logic_key ''a'', ''a'')] [PUT (logic_key ''b'') ''b'', DELETE (logic_key ''a'')]
         NewServiceDiscovery = Some s \<and> disc_ok s \<and> registry s ''L1'' = [(logic_key ''b'', ''b'')]"
proof -
  have k: "server_id_of (logic_key ''a'') = Some ''L1''" "server_id_of (logic_key ''b'') = Some ''L1''"
    "logic_key ''a'' \<noteq> logic_key ''b''"
    by code_simp+
  show ?thesis
    using watch_refines_registry [of Inr "[(logic_key ''a'', ''a'')]" "[PUT (logic_key ''b'') ''b'', DELETE (logic_key ''a'')]"] k
    by (auto simp: reg_put_def)
qed

definition one_logic :: "string ServiceDiscovery" where
  "one_logic = \<lparr>sd_serverList = [''L1'' \<mapsto> [''a'']], sd_indexMap = [''L1'' \<mapsto> 0], sd_serverKey = [''L1'' \<mapsto> [logic_key ''a'']]\<rparr>"

lemma one_logic_ok: "disc_ok one_logic" "registry one_logic ''L1'' = [(logic_key ''a'', ''a'')]"
proof -
  have "server_id_of (logic_key ''a'') = Some ''L1''"
    by code_simp
  then show "disc_ok one_logic" "registry one_logic ''L1'' = [(logic_key ''a'', ''a'')]"
    by (auto simp: disc_ok_def one_logic_def registry_def at_list_def)
qed

lemma registered_service_found_witness:
  "\<exists>s' key c' s''. SetServiceList Inr (service_key ''axis'' ''logic'' ''L1'' ''b'') ''b'' one_logic = Some s' \<and>
     GetServiceByServerId ''L1'' s' = Some (Inr c', s'') \<and> (key, c') \<in> set (registry s' ''L1'')"
proof -
  have id: "server_id_of (service_key ''axis'' ''logic'' ''L1'' ''b'') = Some ''L1''"
    by code_simp
  obtain s' where "SetServiceList Inr (service_key ''axis'' ''logic'' ''L1'' ''b'') ''b'' one_logic = Some s'"
    using SetServiceList_registry [where dial = Inr and val = "''b''", OF one_logic_ok(1) id] by auto
  moreover have "RemoveAll ''serverId='' ''L1'' = ''L1''"
    by code_simp
  ultimately show ?thesis
    using registered_service_found [OF one_logic_ok(1), of Inr "''b''" "''b''" "''axis''" "''logic''" "''L1''" "''b''" s'] by auto
qed

definition three_logics :: "string ServiceDiscovery" where
  "three_logics = \<lparr>sd_serverList = [''L1'' \<mapsto> [''a'', ''b'', ''c'']], sd_indexMap = [''L1'' \<mapsto> 5],
     sd_serverKey = [''L1'' \<mapsto> map logic_key [''a'', ''b'', ''c'']]\<rparr>"

lemma instances_in_turn_witness:
  "\<exists>k < 3. \<exists>s'. GetServiceByServerId ''L1'' ((after_get ''L1'' ^^ k) three_logics) = Some (Inr ''b'', s')"
  using instances_in_turn [of three_logics "''L1''" "[''a'', ''b'', ''c'']" 1]
  by (simp add: three_logics_def at_list_def numeral_3_eq_3)

lemma deletion_panics_witness:
  "DelServiceList (logic_key ''b'') one_logic = None \<and>
   (\<exists>s'. DelServiceList (logic_key ''a'') one_logic = Some (''a'', s') \<and> get_advance ''L1'' s' = None)"
proof -
  have k: "server_id_of (logic_key ''b'') = Some ''L1''" "logic_key ''b'' \<noteq> logic_key ''a''"
    by code_simp+
  show ?thesis
    using deletion_panics [OF one_logic_ok(1), of "logic_key ''b''" "''L1''"]
      deletion_panics [OF one_logic_ok(1), of "logic_key ''a''" "''L1''" "''a''"] one_logic_ok(2) k
    by auto
qed

end
