(* ===== verification/Effects.thy ===== *)
theory Effects
  imports Prelude "HOL-Library.State_Monad"
begin

text \<open>
  The shapes in which the services string effects together: a call whose error is replaced by one of
  their own, a loop that stops at the first error, a call on the outside world from code that also
  has state of its own.
\<close>

section \<open>Combinators\<close>

text \<open>\<^verbatim>\<open>a, err := m; if err != nil { err = e; return }\<close>, then the rest.\<close>

definition or_fail :: "('w, 'x + 'a) state \<Rightarrow> 'e \<Rightarrow> ('a \<Rightarrow> ('w, 'e + 'b) state) \<Rightarrow> ('w, 'e + 'b) state" where
  "or_fail m e k = do { r \<leftarrow> m; (case r of Inl _ \<Rightarrow> State_Monad.return (Inl e) | Inr a \<Rightarrow> k a) }"

text \<open>Steps in order: the first that does not go on decides how the whole ends.\<close>

definition then_do :: "('w, 'e + 'a) state \<Rightarrow> ('a \<Rightarrow> ('w, 'e + 'b) state) \<Rightarrow> ('w, 'e + 'b) state" where
  "then_do m k = do { r \<leftarrow> m; (case r of Inl e \<Rightarrow> State_Monad.return (Inl e) | Inr a \<Rightarrow> k a) }"

text \<open>\<^verbatim>\<open>a, _ := m\<close>: the error is dropped and the zero value is used.\<close>

definition or_zero :: "('w, 'x + 'a) state \<Rightarrow> 'a \<Rightarrow> ('w, 'a) state" where
  "or_zero m z = do { r \<leftarrow> m; State_Monad.return (case r of Inl _ \<Rightarrow> z | Inr a \<Rightarrow> a) }"

text \<open>A loop whose body may return early with an error.\<close>

fun for_each :: "('a \<Rightarrow> ('w, 'e + unit) state) \<Rightarrow> 'a list \<Rightarrow> ('w, 'e + unit) state" where
  "for_each f [] = State_Monad.return (Inr ())"
| "for_each f (x # xs) = do { r \<leftarrow> f x; (case r of Inl e \<Rightarrow> State_Monad.return (Inl e) | Inr _ \<Rightarrow> for_each f xs) }"

text \<open>A loop that collects one value per element.\<close>

fun collect :: "('a \<Rightarrow> ('w, 'b) state) \<Rightarrow> 'a list \<Rightarrow> ('w, 'b list) state" where
  "collect f [] = State_Monad.return []"
| "collect f (x # xs) = do { y \<leftarrow> f x; ys \<leftarrow> collect f xs; State_Monad.return (y # ys) }"

text \<open>A command on the outside world, from code whose state has a second component.\<close>

definition outside :: "('w, 'a) state \<Rightarrow> ('w \<times> 's, 'a) state" where
  "outside m = State (\<lambda>(w, s). case run_state m w of (a, w') \<Rightarrow> (a, w', s))"

definition inside :: "('s \<Rightarrow> 'a \<times> 's) \<Rightarrow> ('w \<times> 's, 'a) state" where
  "inside f = State (\<lambda>(w, s). case f s of (a, s') \<Rightarrow> (a, w, s'))"

lemma run_outside [simp]: "run_state (outside m) (w, s) = (case run_state m w of (a, w') \<Rightarrow> (a, w', s))"
  by (simp add: outside_def)

lemma run_inside [simp]: "run_state (inside f) (w, s) = (case f s of (a, s') \<Rightarrow> (a, w, s'))"
  by (simp add: inside_def)

section \<open>What a successful run tells about its parts\<close>

lemma or_fail_Inr:
  "run_state (or_fail m e k) w = (Inr b, w') \<longleftrightarrow>
   (\<exists>a w1. run_state m w = (Inr a, w1) \<and> run_state (k a) w1 = (Inr b, w'))"
  by (auto simp: or_fail_def split: prod.splits sum.splits)

lemma or_fail_Inl:
  "run_state (or_fail m e k) w = (Inl x, w') \<longleftrightarrow>
   (\<exists>y. run_state m w = (Inl y, w') \<and> x = e) \<or> (\<exists>a w1. run_state m w = (Inr a, w1) \<and> run_state (k a) w1 = (Inl x, w'))"
  by (auto simp: or_fail_def split: prod.splits sum.splits)

lemma then_do_Inr:
  "run_state (then_do m k) w = (Inr b, w') \<longleftrightarrow>
   (\<exists>a w1. run_state m w = (Inr a, w1) \<and> run_state (k a) w1 = (Inr b, w'))"
  by (auto simp: then_do_def split: prod.splits sum.splits)

lemma or_zero_run:
  "run_state (or_zero m z) w = (a, w') \<longleftrightarrow>
   (\<exists>r. run_state m w = (r, w') \<and> a = (case r of Inl _ \<Rightarrow> z | Inr a \<Rightarrow> a))"
  by (auto simp: or_zero_def split: prod.splits sum.splits)

lemma bind_run:
  "run_state (State_Monad.bind m k) w = (b, w') \<longleftrightarrow>
   (\<exists>a w1. run_state m w = (a, w1) \<and> run_state (k a) w1 = (b, w'))"
  by (auto split: prod.splits)

lemma return_run [simp]: "run_state (State_Monad.return a) w = (b, w') \<longleftrightarrow> b = a \<and> w' = w"
  by auto

lemma if_run:
  "run_state (if c then m else n) w = (r, w') \<longleftrightarrow> (if c then run_state m w = (r, w') else run_state n w = (r, w'))"
  by simp

text \<open>A loop keeps what its body keeps, and after it each element has been dealt with.\<close>

lemma for_each_inv:
  assumes "run_state (for_each f xs) w = (Inr u, w')" and "P [] w"
    and "\<And>ys x v w1 w2. P ys w1 \<Longrightarrow> x \<in> set xs \<Longrightarrow> run_state (f x) w1 = (Inr v, w2) \<Longrightarrow> P (ys @ [x]) w2"
  shows "P xs w'"
proof -
  have "run_state (for_each f zs) v = (Inr u, v') \<Longrightarrow> P ys v \<Longrightarrow> set zs \<subseteq> set xs \<Longrightarrow> P (ys @ zs) v'" for zs ys v v'
  proof (induction zs arbitrary: ys v)
    case (Cons z zs)
    obtain r v1 where r: "run_state (f z) v = (Inr r, v1)" "run_state (for_each f zs) v1 = (Inr u, v')"
      using Cons.prems(1) by (auto split: prod.splits sum.splits)
    then show ?case
      using Cons.IH [OF r(2), of "ys @ [z]"] assms(3) [OF Cons.prems(2) _ r(1)] Cons.prems(3) by simp
  qed simp
  from this [of xs w w' "[]"] show ?thesis
    using assms(1,2) by simp
qed

text \<open>Whether or not it fails, a run keeps what each of its parts keeps.\<close>

definition keeps :: "('w \<Rightarrow> 'v) \<Rightarrow> ('w, 'a) state \<Rightarrow> bool" where
  "keeps v m \<longleftrightarrow> (\<forall>w. v (snd (run_state m w)) = v w)"

named_theorems kept \<open>commands that keep a view of the outside world\<close>

lemma keepsD: "keeps v m \<Longrightarrow> run_state m w = (r, w') \<Longrightarrow> v w' = v w"
  by (metis keeps_def snd_conv)

lemma keepsI: "(\<And>w r w'. run_state m w = (r, w') \<Longrightarrow> v w' = v w) \<Longrightarrow> keeps v m"
  by (metis keeps_def surjective_pairing)

lemma keeps_return [kept]: "keeps v (State_Monad.return a)"
  by (simp add: keeps_def)

lemma keeps_bind [kept]: "keeps v m \<Longrightarrow> (\<And>a. keeps v (k a)) \<Longrightarrow> keeps v (State_Monad.bind m k)"
  by (auto simp: keeps_def split: prod.splits) (metis snd_conv)

lemma keeps_or_fail [kept]: "keeps v m \<Longrightarrow> (\<And>a. keeps v (k a)) \<Longrightarrow> keeps v (or_fail m e k)"
  by (auto simp: or_fail_def intro!: keeps_bind keeps_return split: sum.splits)

lemma keeps_then_do [kept]: "keeps v m \<Longrightarrow> (\<And>a. keeps v (k a)) \<Longrightarrow> keeps v (then_do m k)"
  by (auto simp: then_do_def intro!: keeps_bind keeps_return split: sum.splits)

lemma keeps_or_zero [kept]: "keeps v m \<Longrightarrow> keeps v (or_zero m z)"
  by (auto simp: or_zero_def intro!: keeps_bind keeps_return)

lemma keeps_for_each [kept]: "(\<And>x. x \<in> set xs \<Longrightarrow> keeps v (f x)) \<Longrightarrow> keeps v (for_each f xs)"
  by (induction xs) (auto intro!: keeps_bind keeps_return split: sum.splits)

lemma keeps_collect [kept]: "(\<And>x. keeps v (f x)) \<Longrightarrow> keeps v (collect f xs)"
  by (induction xs) (auto intro!: keeps_bind keeps_return)

lemma keeps_if [kept]: "keeps v m \<Longrightarrow> keeps v n \<Longrightarrow> keeps v (if c then m else n)"
  by simp

section \<open>Runs that do not fail\<close>

text \<open>From a state with \<open>P\<close> the command succeeds and ends in a state with \<open>P\<close>.\<close>

definition proceeds :: "('w \<Rightarrow> bool) \<Rightarrow> ('w, 'e + 'a) state \<Rightarrow> bool" where
  "proceeds P m \<longleftrightarrow> (\<forall>w. P w \<longrightarrow> (\<exists>x w'. run_state m w = (Inr x, w') \<and> P w'))"

named_theorems going \<open>commands that succeed\<close>

lemma proceedsI: "(\<And>w. P w \<Longrightarrow> \<exists>x w'. run_state m w = (Inr x, w') \<and> P w') \<Longrightarrow> proceeds P m"
  unfolding proceeds_def by blast

lemma proceedsE:
  assumes "proceeds P m" and "P w"
  obtains x w' where "run_state m w = (Inr x, w')" "P w'"
  using assms unfolding proceeds_def by blast

lemma proceeds_return [going]: "proceeds P (State_Monad.return (Inr x))"
  by (simp add: proceeds_def)

lemma proceeds_or_fail [going]: "proceeds P m \<Longrightarrow> (\<And>a. proceeds P (k a)) \<Longrightarrow> proceeds P (or_fail m e k)"
  by (rule proceedsI) (fastforce simp: or_fail_Inr elim: proceedsE)

lemma proceeds_then_do [going]: "proceeds P m \<Longrightarrow> (\<And>a. proceeds P (k a)) \<Longrightarrow> proceeds P (then_do m k)"
  by (rule proceedsI) (fastforce simp: then_do_Inr elim: proceedsE)

lemma proceeds_if [going]: "proceeds P m \<Longrightarrow> proceeds P n \<Longrightarrow> proceeds P (if c then m else n)"
  by simp

lemma proceeds_for_each [going]: "(\<And>x. proceeds P (f x)) \<Longrightarrow> proceeds P (for_each f xs)"
proof (induction xs)
  case (Cons x xs)
  then have "proceeds P (or_fail (f x) undefined (\<lambda>_. for_each f xs))"
    by (intro proceeds_or_fail) auto
  then show ?case
    by (rule_tac proceedsI) (erule proceedsE, assumption, auto simp: or_fail_def split: prod.splits sum.splits)
qed (simp add: proceeds_def)

end
