(* ===== verification/Kafka.thy ===== *)
theory Kafka
  imports Messages Effects
begin

text \<open>
  The producers and consumers of the message queues (\<^verbatim>\<open>common/kafka.go\<close>). The client library is a
  parameter: a record of commands on the outside world, connections and readers being numbers. The
  pool of producer connections is the state of the process, the second component of the state.
\<close>

record 'w kafka_api =
  k_Now :: "('w, int) state" \<comment> \<open>\<^verbatim>\<open>time.Now\<close>, in nanoseconds\<close>
  k_DialLeader :: "string \<Rightarrow> string \<Rightarrow> int \<Rightarrow> ('w, string + nat) state"
  k_SetWriteDeadline :: "nat \<Rightarrow> int \<Rightarrow> ('w, string option) state"
  k_WriteMessages :: "nat \<Rightarrow> string \<Rightarrow> ('w, string option) state"
  k_Close :: "nat \<Rightarrow> ('w, string option) state"
  k_NewReader :: "string list \<Rightarrow> string \<Rightarrow> string \<Rightarrow> int \<Rightarrow> int \<Rightarrow> ('w, nat) state"
  k_FetchMessage :: "nat \<Rightarrow> ('w, string + KafkaMessage) state"
  k_CommitMessages :: "nat \<Rightarrow> KafkaMessage \<Rightarrow> ('w, string option) state"

section \<open>Producers\<close>

record KafkaProducerConn =
  kp_SocketMap :: "string \<rightharpoonup> nat"
  kp_CreateTime :: "string \<rightharpoonup> int"

definition no_producers :: KafkaProducerConn where
  "no_producers = \<lparr>kp_SocketMap = Map.empty, kp_CreateTime = Map.empty\<rparr>"

definition FriendQueue :: "int \<Rightarrow> string" where "FriendQueue i = ''friend_chat_'' @ fmt_d i"
definition GroupQueue :: "int \<Rightarrow> string" where "GroupQueue i = ''group_chat_'' @ fmt_d i"

datatype kafka_error = TypeNotAllowed string | DialFailed string | DeadlineFailed string | WriteFailed string

definition topic_for :: "int \<Rightarrow> string \<Rightarrow> string option" where
  "topic_for objectId ty =
     (if ty = ''friend'' then Some (FriendQueue objectId)
      else if ty = ''group'' then Some (GroupQueue objectId) else None)"

definition put_conn :: "string \<Rightarrow> nat \<Rightarrow> int \<Rightarrow> KafkaProducerConn \<Rightarrow> KafkaProducerConn" where
  "put_conn topic conn t p =
     p\<lparr>kp_SocketMap := (kp_SocketMap p)(topic \<mapsto> conn), kp_CreateTime := (kp_CreateTime p)(topic \<mapsto> t)\<rparr>"

definition del_conn :: "string \<Rightarrow> KafkaProducerConn \<Rightarrow> KafkaProducerConn" where
  "del_conn topic p =
     p\<lparr>kp_SocketMap := (kp_SocketMap p)(topic := None), kp_CreateTime := (kp_CreateTime p)(topic := None)\<rparr>"

text \<open>
  The connections that were not used for a minute are closed. The keys are those of the map in the
  order in which \<^verbatim>\<open>range\<close> gives them; a key without a connection would be a nil pointer.
\<close>

fun watchLongTimeNotUseConn :: "'w kafka_api \<Rightarrow> string list \<Rightarrow> ('w \<times> KafkaProducerConn, unit option) state" where
  "watchLongTimeNotUseConn api [] = State_Monad.return (Some ())"
| "watchLongTimeNotUseConn api (key # keys) = do {
     p \<leftarrow> inside (\<lambda>p. (p, p));
     now \<leftarrow> outside (k_Now api);
     (case kp_CreateTime p key of
        None \<Rightarrow> watchLongTimeNotUseConn api keys
      | Some val \<Rightarrow>
          if now - val > 60000000000 then
            (case kp_SocketMap p key of
               None \<Rightarrow> State_Monad.return None
             | Some conn \<Rightarrow> do {
                 _ \<leftarrow> inside (\<lambda>p. ((), del_conn key p));
                 _ \<leftarrow> outside (k_Close api conn);
                 watchLongTimeNotUseConn api keys
               })
          else watchLongTimeNotUseConn api keys)
   }"

definition getProducerConn ::
  "'w kafka_api \<Rightarrow> string \<Rightarrow> int \<Rightarrow> string \<Rightarrow> ('w \<times> KafkaProducerConn, kafka_error + nat) state" where
  "getProducerConn api address objectId ty =
     (case topic_for objectId ty of
        None \<Rightarrow> State_Monad.return (Inl (TypeNotAllowed ty))
      | Some topic \<Rightarrow> do {
          p \<leftarrow> inside (\<lambda>p. (p, p));
          (case kp_SocketMap p topic of
             Some conn \<Rightarrow> do {
               now \<leftarrow> outside (k_Now api);
               _ \<leftarrow> inside (\<lambda>p. ((), p\<lparr>kp_CreateTime := (kp_CreateTime p)(topic \<mapsto> now)\<rparr>));
               State_Monad.return (Inr conn)
             }
           | None \<Rightarrow> do {
               res \<leftarrow> outside (k_DialLeader api address topic 0);
               (case res of
                  Inl err \<Rightarrow> State_Monad.return (Inl (DialFailed err))
                | Inr conn \<Rightarrow> do {
                    now \<leftarrow> outside (k_Now api);
                    _ \<leftarrow> inside (\<lambda>p. ((), put_conn topic conn now p));
                    State_Monad.return (Inr conn)
                  })
             })
        })"

definition TopicProduce ::
  "'w kafka_api \<Rightarrow> string \<Rightarrow> int \<Rightarrow> string \<Rightarrow> string \<Rightarrow> ('w \<times> KafkaProducerConn, kafka_error option) state" where
  "TopicProduce api address objectId ty msg =
     (case topic_for objectId ty of
        None \<Rightarrow> State_Monad.return (Some (TypeNotAllowed ty))
      | Some topic \<Rightarrow> do {
          res \<leftarrow> getProducerConn api address objectId ty;
          (case res of
             Inl err \<Rightarrow> State_Monad.return (Some err)
           | Inr conn \<Rightarrow> do {
               now \<leftarrow> outside (k_Now api);
               err \<leftarrow> outside (k_SetWriteDeadline api conn (now + 5000000000));
               (case err of
                  Some e \<Rightarrow> do {
                    _ \<leftarrow> inside (\<lambda>p. ((), del_conn topic p));
                    State_Monad.return (Some (DeadlineFailed e))
                  }
                | None \<Rightarrow> do {
                    err \<leftarrow> outside (k_WriteMessages api conn msg);
                    (case err of
                       Some e \<Rightarrow> do {
                         _ \<leftarrow> inside (\<lambda>p. ((), del_conn topic p));
                         _ \<leftarrow> outside (k_Close api conn);
                         State_Monad.return (Some (WriteFailed e))
                       }
                     | None \<Rightarrow> State_Monad.return None)
                  })
             })
        })"

section \<open>Consumers\<close>

definition getConsumerReader :: "'w kafka_api \<Rightarrow> string \<Rightarrow> string \<Rightarrow> string \<Rightarrow> ('w, string + nat) state" where
  "getConsumerReader api address groupId topic = do {
     reader \<leftarrow> k_NewReader api [address] topic groupId 10000 10000000;
     State_Monad.return (Inr reader)
   }"

definition GetConsumeReader :: "'w kafka_api \<Rightarrow> string \<Rightarrow> string \<Rightarrow> string \<Rightarrow> ('w, string + nat) state" where
  "GetConsumeReader api address consumerSuffix topic =
     getConsumerReader api address (topic @ ''-'' @ consumerSuffix) topic"

definition TopicConsume :: "'w kafka_api \<Rightarrow> nat \<Rightarrow> ('w, string + KafkaMessage) state" where
  "TopicConsume api reader = k_FetchMessage api reader"

definition TopicConsumerConfirm :: "'w kafka_api \<Rightarrow> nat \<Rightarrow> KafkaMessage \<Rightarrow> ('w, string option) state" where
  "TopicConsumerConfirm api reader msg = k_CommitMessages api reader msg"

section \<open>What the producers rely on\<close>

text \<open>
  The log of a partition and the partition a connection was opened for, while no one else writes.
  A write that reports an error may have reached the log.
\<close>

type_synonym klog = "string \<times> int \<Rightarrow> string list"

locale kafka_broker =
  fixes api :: "'w kafka_api" and log :: "'w \<Rightarrow> klog" and conn_of :: "'w \<Rightarrow> nat \<rightharpoonup> string \<times> int"
  assumes now_law: "run_state (k_Now api) w = (t, w') \<Longrightarrow> log w' = log w \<and> conn_of w' = conn_of w"
    and dial_law: "run_state (k_DialLeader api a topic p) w = (rd, w') \<Longrightarrow>
      log w' = log w \<and> (case rd of Inl _ \<Rightarrow> conn_of w' = conn_of w
        | Inr c \<Rightarrow> conn_of w c = None \<and> conn_of w' = (conn_of w)(c \<mapsto> (topic, p)))"
    and deadline_law: "run_state (k_SetWriteDeadline api c d) w = (r, w') \<Longrightarrow> log w' = log w \<and> conn_of w' = conn_of w"
    and close_law: "run_state (k_Close api c) w = (r, w') \<Longrightarrow> log w' = log w \<and> conn_of w' = conn_of w"
    and write_law: "run_state (k_WriteMessages api c v) w = (r, w') \<Longrightarrow> conn_of w c = Some tp \<Longrightarrow>
      conn_of w' = conn_of w \<and> (r = None \<longrightarrow> log w' = (log w)(tp := log w tp @ [v]))
      \<and> (log w' = log w \<or> log w' = (log w)(tp := log w tp @ [v]))"

text \<open>Every pooled connection was opened for the topic it is filed under.\<close>

definition pool_ok :: "('w \<Rightarrow> nat \<rightharpoonup> string \<times> int) \<Rightarrow> 'w \<times> KafkaProducerConn \<Rightarrow> bool" where
  "pool_ok conn_of s \<longleftrightarrow> (\<forall>t. kp_CreateTime (snd s) t = None \<longleftrightarrow> kp_SocketMap (snd s) t = None) \<and>
     (\<forall>t c. kp_SocketMap (snd s) t = Some c \<longrightarrow> conn_of (fst s) c = Some (t, 0))"

text \<open>What the code that publishes messages relies on.\<close>

locale topic_producer =
  fixes ok :: "'s \<Rightarrow> bool" and log :: "'s \<Rightarrow> klog"
    and produce :: "int \<Rightarrow> string \<Rightarrow> string \<Rightarrow> ('s, 'e option) state"
  assumes produce_ok: "ok s \<Longrightarrow> run_state (produce i ty v) s = (r, s') \<Longrightarrow> ok s'"
    and produce_done: "ok s \<Longrightarrow> run_state (produce i ty v) s = (None, s') \<Longrightarrow>
          \<exists>t. topic_for i ty = Some t \<and> log s' = (log s)((t, 0) := log s (t, 0) @ [v])"
    and produce_failed: "ok s \<Longrightarrow> run_state (produce i ty v) s = (Some e, s') \<Longrightarrow>
          log s' = log s \<or> (\<exists>t. topic_for i ty = Some t \<and> log s' = (log s)((t, 0) := log s (t, 0) @ [v]))"

context kafka_broker
begin

lemma getProducerConn_pool:
  assumes "pool_ok conn_of s" and "run_state (getProducerConn api a i ty) s = (r, s')" and "topic_for i ty = Some t"
  shows "pool_ok conn_of s' \<and> log (fst s') = log (fst s) \<and>
    (\<forall>c. r = Inr c \<longrightarrow> kp_SocketMap (snd s') t = Some c) \<and> (\<forall>e. r = Inl e \<longrightarrow> kp_SocketMap (snd s') t = None)"
proof -
  obtain w p where s: "s = (w, p)" by (cases s)
  obtain now w1 where n: "run_state (k_Now api) w = (now, w1)"
    by (cases "run_state (k_Now api) w")
  obtain rd w2 where d: "run_state (k_DialLeader api a t 0) w = (rd, w2)"
    by (cases "run_state (k_DialLeader api a t 0) w")
  obtain now2 w3 where n2: "run_state (k_Now api) w2 = (now2, w3)"
    by (cases "run_state (k_Now api) w2")
  show ?thesis
  proof (cases "kp_SocketMap p t")
    case None
    then show ?thesis
      using assms s d n2 now_law [OF n2] dial_law [OF d]
      by (cases rd) (auto simp: getProducerConn_def pool_ok_def put_conn_def split: if_splits)
  next
    case (Some c)
    then show ?thesis
      using assms s n now_law [OF n] by (auto simp: getProducerConn_def pool_ok_def split: if_splits)
  qed
qed

lemma pool_ok_del: "pool_ok conn_of (w, p) \<Longrightarrow> pool_ok conn_of (w, del_conn t p)"
  by (auto simp: pool_ok_def del_conn_def)

lemma pool_ok_conn: "conn_of w' = conn_of w \<Longrightarrow> pool_ok conn_of (w', p) = pool_ok conn_of (w, p)"
  by (simp add: pool_ok_def)

lemma TopicProduce_cases:
  assumes "pool_ok conn_of s" and "run_state (TopicProduce api a i ty v) s = (r, s')" and t: "topic_for i ty = Some t"
  shows "pool_ok conn_of s' \<and> (r = None \<longleftrightarrow> kp_SocketMap (snd s') t \<noteq> None)
    \<and> (r = None \<longrightarrow> log (fst s') = (log (fst s))((t, 0) := log (fst s) (t, 0) @ [v]))
    \<and> (log (fst s') = log (fst s) \<or> log (fst s') = (log (fst s))((t, 0) := log (fst s) (t, 0) @ [v]))"
proof -
  obtain rc w p where g: "run_state (getProducerConn api a i ty) s = (rc, w, p)"
    by (cases "run_state (getProducerConn api a i ty) s") auto
  note gp = getProducerConn_pool [OF assms(1) g t]
  show ?thesis
  proof (cases rc)
    case (Inl e)
    then show ?thesis
      using assms(2) g gp t by (auto simp: TopicProduce_def)
  next
    case (Inr c)
    then have c: "kp_SocketMap p t = Some c" "conn_of w c = Some (t, 0)"
      using gp by (auto simp: pool_ok_def)
    obtain now w1 where n: "run_state (k_Now api) w = (now, w1)"
      by (cases "run_state (k_Now api) w")
    obtain e w2 where d: "run_state (k_SetWriteDeadline api c (now + 5000000000)) w1 = (e, w2)"
      by (cases "run_state (k_SetWriteDeadline api c (now + 5000000000)) w1")
    have same: "log w2 = log w" "conn_of w2 = conn_of w"
      using now_law [OF n] deadline_law [OF d] by simp_all
    obtain x w3 where wr: "run_state (k_WriteMessages api c v) w2 = (x, w3)"
      by (cases "run_state (k_WriteMessages api c v) w2")
    obtain y w4 where cl: "run_state (k_Close api c) w3 = (y, w4)"
      by (cases "run_state (k_Close api c) w3")
    have conns: "conn_of w3 = conn_of w" "conn_of w4 = conn_of w" "log w4 = log w3"
      using write_law [OF wr, of "(t, 0)"] close_law [OF cl] same c by simp_all
    have pools: "pool_ok conn_of (w2, del_conn t p)" "pool_ok conn_of (w3, p)" "pool_ok conn_of (w4, del_conn t p)"
      using gp pool_ok_del pool_ok_conn same(2) conns by (metis fst_conv)+
    show ?thesis
      using assms(2) g gp t Inr n d wr cl same conns pools write_law [OF wr, of "(t, 0)"] c
      by (cases e; cases x) (auto simp: TopicProduce_def del_conn_def)
  qed
qed

end

sublocale kafka_broker \<subseteq> producers: topic_producer "pool_ok conn_of" "\<lambda>s. log (fst s)" "TopicProduce api a" for a
proof
  fix s i ty v r s'
  assume a: "pool_ok conn_of s" "run_state (TopicProduce api a i ty v) s = (r, s')"
  show "pool_ok conn_of s'"
    using TopicProduce_cases [OF a] a by (cases "topic_for i ty") (auto simp: TopicProduce_def)
next
  fix s i ty v s'
  assume a: "pool_ok conn_of s" "run_state (TopicProduce api a i ty v) s = (None, s')"
  show "\<exists>t. topic_for i ty = Some t \<and> log (fst s') = (log (fst s))((t, 0) := log (fst s) (t, 0) @ [v])"
    using TopicProduce_cases [OF a] a by (cases "topic_for i ty") (auto simp: TopicProduce_def)
next
  fix s i ty v e s'
  assume a: "pool_ok conn_of s" "run_state (TopicProduce api a i ty v) s = (Some e, s')"
  show "log (fst s') = log (fst s) \<or> (\<exists>t. topic_for i ty = Some t \<and> log (fst s') = (log (fst s))((t, 0) := log (fst s) (t, 0) @ [v]))"
    using TopicProduce_cases [OF a] a by (cases "topic_for i ty") (auto simp: TopicProduce_def)
qed

section \<open>A reference broker\<close>

record kworld =
  kw_log :: klog
  kw_conns :: "(string \<times> int) list"

definition mem_conn :: "kworld \<Rightarrow> nat \<rightharpoonup> string \<times> int" where
  "mem_conn k c = (if c < length (kw_conns k) then Some (kw_conns k ! c) else None)"

definition mem_kafka :: "('w \<Rightarrow> kworld) \<Rightarrow> (kworld \<Rightarrow> 'w \<Rightarrow> 'w) \<Rightarrow> 'w kafka_api" where
  "mem_kafka get put =
     \<lparr>k_Now = State_Monad.return 0,
      k_DialLeader = (\<lambda>a t p. State (\<lambda>w. let k = get w in
        (Inr (length (kw_conns k)), put (k\<lparr>kw_conns := kw_conns k @ [(t, p)]\<rparr>) w))),
      k_SetWriteDeadline = (\<lambda>c d. State_Monad.return None),
      k_WriteMessages = (\<lambda>c v. State (\<lambda>w. let k = get w in
        case mem_conn k c of
          None \<Rightarrow> (Some ''closed'', w)
        | Some tp \<Rightarrow> (None, put (k\<lparr>kw_log := (kw_log k)(tp := kw_log k tp @ [v])\<rparr>) w))),
      k_Close = (\<lambda>c. State_Monad.return None),
      k_NewReader = (\<lambda>bs t g mn mx. State_Monad.return 0),
      k_FetchMessage = (\<lambda>r. State_Monad.return (Inl ''no messages'')),
      k_CommitMessages = (\<lambda>r m. State_Monad.return None)\<rparr>"

lemma mem_kafka_broker:
  assumes gp: "\<And>s w. get (put s w) = s"
  shows "kafka_broker (mem_kafka get put) (\<lambda>w. kw_log (get w)) (\<lambda>w. mem_conn (get w))"
  by unfold_locales
     (auto simp: mem_kafka_def mem_conn_def gp Let_def fun_eq_iff nth_append split: if_splits option.splits)

interpretation mem_broker: kafka_broker "mem_kafka (\<lambda>w. w) (\<lambda>s w. s)" kw_log mem_conn
  using mem_kafka_broker [of "\<lambda>w. w" "\<lambda>s w. s"] by simp

section \<open>Properties of the producers\<close>

text \<open>
  C26: a message that \<^verbatim>\<open>TopicProduce\<close> reports as written has been appended, once, to partition 0 of the
  topic of the user or group it is for and to no other. After an error it was appended at most once
  and the pool no longer has a connection for the topic, so that a retry dials again. In every case
  the pooled connections remain filed under the topics they were opened for.
\<close>
theorem TopicProduce_appends:
  assumes "kafka_broker api log conn_of" and "pool_ok conn_of (w, p)" and "topic_for objectId ty = Some topic"
    and "run_state (TopicProduce api address objectId ty msg) (w, p) = (err, w', p')"
  shows "pool_ok conn_of (w', p') \<and> (err = None \<longleftrightarrow> kp_SocketMap p' topic \<noteq> None)
    \<and> (err = None \<longrightarrow> log w' = (log w)((topic, 0) := log w (topic, 0) @ [msg]))
    \<and> (log w' = log w \<or> log w' = (log w)((topic, 0) := log w (topic, 0) @ [msg]))"
  using kafka_broker.TopicProduce_cases [OF assms(1,2,4,3)] by simp

abbreviation broker :: "kworld kafka_api" where
  "broker \<equiv> mem_kafka (\<lambda>w. w) (\<lambda>s w. s)"

definition empty_broker :: kworld where
  "empty_broker = \<lparr>kw_log = (\<lambda>_. []), kw_conns = []\<rparr>"

theorem TopicProduce_appends_witness:
  "\<exists>w' p'. run_state (TopicProduce broker ''h'' 7 ''group'' ''hi'') (empty_broker, no_producers) = (None, w', p')
     \<and> pool_ok mem_conn (w', p') \<and> kw_log w' (''group_chat_7'', 0) = [''hi'']"
proof -
  have t: "topic_for 7 ''group'' = Some (GroupQueue 7)" "GroupQueue 7 = ''group_chat_7''"
    by code_simp+
  have ok: "pool_ok mem_conn (empty_broker, no_producers)"
    by (simp add: pool_ok_def no_producers_def)
  obtain w' p' where run: "run_state (TopicProduce broker ''h'' 7 ''group'' ''hi'') (empty_broker, no_producers) = (None, w', p')"
    by (simp add: TopicProduce_def getProducerConn_def t(1) mem_kafka_def no_producers_def empty_broker_def mem_conn_def Let_def)
  show ?thesis
    using run t(2) TopicProduce_appends [OF mem_broker.kafka_broker_axioms ok t(1) run] by (simp add: empty_broker_def)
qed

end
