(* ===== verification/Db.thy ===== *)
theory Db
  imports Messages Effects "HOL-Library.Char_ord" "HOL-Library.List_Lexorder" "HOL-Library.Multiset"
begin

text \<open>
  The queries of the logic layer (\<^verbatim>\<open>db/curd.go\<close>). The database library is a parameter: a record of
  the calls with the clauses the code chains in front of them. A finder that the code hands a
  destination gives back what the destination then holds; a nil slice is \<^term>\<open>None\<close>.
\<close>

section \<open>The database library\<close>

datatype db_error = ErrRecordNotFound | DbError string

datatype db_arg = AInt int | AStr string | AInts "int list"

record query =
  q_Table :: string
  q_Select :: "string list"
  q_Where :: string
  q_Args :: "db_arg list"
  q_Order :: string
  q_Limit :: "int option"
  q_Offset :: "int option"

definition Where :: "string \<Rightarrow> db_arg list \<Rightarrow> query" where
  "Where cond args = \<lparr>q_Table = [], q_Select = [], q_Where = cond, q_Args = args, q_Order = [], q_Limit = None, q_Offset = None\<rparr>"

record 'w gorm_api =
  g_First_user :: "query \<Rightarrow> TUser \<Rightarrow> ('w, db_error option \<times> TUser) state"
  g_First_group :: "query \<Rightarrow> TGroup \<Rightarrow> ('w, db_error option \<times> TGroup) state"
  g_First_relation :: "query \<Rightarrow> TRelation \<Rightarrow> ('w, db_error option \<times> TRelation) state"
  g_Find_users :: "query \<Rightarrow> TUser list option \<Rightarrow> ('w, db_error option \<times> TUser list option) state"
  g_Find_groups :: "query \<Rightarrow> TGroup list option \<Rightarrow> ('w, db_error option \<times> TGroup list option) state"
  g_Find_relations :: "query \<Rightarrow> TRelation list option \<Rightarrow> ('w, db_error option \<times> TRelation list option) state"
  g_Find_friend_messages :: "query \<Rightarrow> VFriendMessage list option \<Rightarrow> ('w, db_error option \<times> VFriendMessage list option) state"
  g_Find_group_messages :: "query \<Rightarrow> VGroupMessage list option \<Rightarrow> ('w, db_error option \<times> VGroupMessage list option) state"
  g_Create_user :: "TUser \<Rightarrow> ('w, db_error option \<times> TUser) state"
  g_Create_group :: "TGroup \<Rightarrow> ('w, db_error option \<times> TGroup) state"
  g_Create_relation :: "TRelation \<Rightarrow> ('w, db_error option \<times> TRelation) state"
  g_Updates_Find_user :: "TUser \<Rightarrow> ('w, db_error option \<times> TUser) state" \<comment> \<open>\<^verbatim>\<open>db.Updates(user).Find(user)\<close>\<close>
  g_Updates_group :: "TGroup \<Rightarrow> ('w, db_error option \<times> TGroup) state"
  g_Update_user :: "query \<Rightarrow> string \<Rightarrow> string \<Rightarrow> ('w, db_error option) state"
  g_CreateInBatches :: "TMessage list \<Rightarrow> nat \<Rightarrow> ('w, db_error option) state"

section \<open>Queries\<close>

definition QueryUserById :: "'w gorm_api \<Rightarrow> int \<Rightarrow> TUser \<Rightarrow> ('w, TUser) state" where
  "QueryUserById db i user = do {
     (err, user) \<leftarrow> g_First_user db (Where ''id = ?'' [AInt i]) user;
     State_Monad.return user
   }"

definition QueryUserByUserName :: "'w gorm_api \<Rightarrow> string \<Rightarrow> TUser \<Rightarrow> ('w, TUser) state" where
  "QueryUserByUserName db username user = do {
     (err, user) \<leftarrow> g_First_user db (Where ''username = ?'' [AStr username]) user;
     State_Monad.return user
   }"

text \<open>An error other than \<^verbatim>\<open>ErrRecordNotFound\<close> makes the list nil.\<close>

definition rows_of :: "'a list option \<Rightarrow> 'a list" where
  "rows_of xs = (case xs of None \<Rightarrow> [] | Some ys \<Rightarrow> ys)"

definition QueryUserAllGroupId :: "'w gorm_api \<Rightarrow> int \<Rightarrow> ('w, int list option) state" where
  "QueryUserAllGroupId db userid = do {
     (err, relationList) \<leftarrow> g_Find_relations db (Where ''object_a = ? AND type = ?'' [AInt userid, AStr ''group'']) None;
     (if err \<noteq> None \<and> err \<noteq> Some ErrRecordNotFound then State_Monad.return None
      else State_Monad.return (Some (map r_ObjectB (rows_of relationList))))
   }"

definition friend_ids :: "int \<Rightarrow> TRelation list \<Rightarrow> int list" where
  "friend_ids userid rs = concat (map (\<lambda>val.
     (if r_ObjectB val \<noteq> userid then [r_ObjectB val] else []) @ (if r_ObjectA val \<noteq> userid then [r_ObjectA val] else [])) rs)"

definition QueryUserAllFriendId :: "'w gorm_api \<Rightarrow> int \<Rightarrow> ('w, int list option) state" where
  "QueryUserAllFriendId db userid = do {
     (err, relationList) \<leftarrow> g_Find_relations db
        (Where ''(object_a = ? OR object_b = ?) AND type = ?'' [AInt userid, AInt userid, AStr ''friend'']) None;
     (if err \<noteq> None \<and> err \<noteq> Some ErrRecordNotFound then State_Monad.return None
      else State_Monad.return (Some (friend_ids userid (rows_of relationList))))
   }"

text \<open>
  \<^verbatim>\<open>%q\<close>, that is \<^verbatim>\<open>strconv.Quote\<close>: quotes and backslashes get a backslash, control characters an escape.
  Bytes outside ASCII are kept, as they are for printable text.
\<close>

definition hex_digit :: "nat \<Rightarrow> char" where
  "hex_digit d = char_of (if d < 10 then 48 + d else 87 + d)"

definition quote_char :: "char \<Rightarrow> string" where
  "quote_char c = (let n = (of_char c :: nat) in
     if n = 34 then [CHR 92, CHR 34]
     else if n = 92 then [CHR 92, CHR 92]
     else if n = 7 then [CHR 92, CHR ''a''] else if n = 8 then [CHR 92, CHR ''b'']
     else if n = 12 then [CHR 92, CHR ''f''] else if n = 10 then [CHR 92, CHR ''n'']
     else if n = 13 then [CHR 92, CHR ''r''] else if n = 9 then [CHR 92, CHR ''t'']
     else if n = 11 then [CHR 92, CHR ''v'']
     else if n < 32 \<or> n = 127 then [CHR 92, CHR ''x'', hex_digit (n div 16), hex_digit (n mod 16)]
     else [c])"

definition Quote :: "string \<Rightarrow> string" where
  "Quote s = [CHR 34] @ concat (map quote_char s) @ [CHR 34]"

definition public_columns :: "string list" where
  "public_columns = [''id'', ''username'', ''avatar'', ''role'', ''status'', ''tag'', ''create_at'', ''update_at'']"

definition SearchUserByUsername ::
  "'w gorm_api \<Rightarrow> string \<Rightarrow> TUser list option \<Rightarrow> ('w, TUser list option) state" where
  "SearchUserByUsername db q userList = do {
     (err, userList) \<leftarrow> g_Find_users db
        ((Where (''username like '' @ Quote (''%'' @ q @ ''%'')) [])\<lparr>q_Select := public_columns\<rparr>) userList;
     State_Monad.return userList
   }"

definition CreateUser :: "'w gorm_api \<Rightarrow> TUser \<Rightarrow> ('w, TUser) state" where
  "CreateUser db user = do { (err, user) \<leftarrow> g_Create_user db user; State_Monad.return user }"

definition UpdateUser :: "'w gorm_api \<Rightarrow> TUser \<Rightarrow> ('w, TUser) state" where
  "UpdateUser db user = do { (err, user) \<leftarrow> g_Updates_Find_user db user; State_Monad.return user }"

definition UpdateUserPassword :: "'w gorm_api \<Rightarrow> int \<Rightarrow> string \<Rightarrow> ('w, db_error + unit) state" where
  "UpdateUserPassword db userid encPwd = do {
     err \<leftarrow> g_Update_user db (Where ''id = ?'' [AInt userid]) ''password'' encPwd;
     State_Monad.return (case err of Some (DbError e) \<Rightarrow> Inl (DbError e) | _ \<Rightarrow> Inr ())
   }"

definition QueryGroupById :: "'w gorm_api \<Rightarrow> int \<Rightarrow> TGroup \<Rightarrow> ('w, TGroup) state" where
  "QueryGroupById db i grp = do {
     (err, grp) \<leftarrow> g_First_group db (Where ''id = ?'' [AInt i]) grp;
     State_Monad.return grp
   }"

definition QueryGroupByGroupName :: "'w gorm_api \<Rightarrow> string \<Rightarrow> TGroup \<Rightarrow> ('w, TGroup) state" where
  "QueryGroupByGroupName db groupName grp = do {
     (err, grp) \<leftarrow> g_First_group db (Where ''group_name = ?'' [AStr groupName]) grp;
     State_Monad.return grp
   }"

definition SearchGroupByGroupName ::
  "'w gorm_api \<Rightarrow> string \<Rightarrow> TGroup list option \<Rightarrow> ('w, TGroup list option) state" where
  "SearchGroupByGroupName db q groupList = do {
     (err, groupList) \<leftarrow> g_Find_groups db (Where (''group_name like '' @ Quote (''%'' @ q @ ''%'')) []) groupList;
     State_Monad.return groupList
   }"

text \<open>The second query's error is never looked at: the code tests the first one's result again.\<close>

definition QueryGroupAllUser :: "'w gorm_api \<Rightarrow> int \<Rightarrow> TUser list option \<Rightarrow> ('w, TUser list option) state" where
  "QueryGroupAllUser db groupId userList = do {
     (err, relationList) \<leftarrow> g_Find_relations db (Where ''type = ? AND object_b = ?'' [AStr ''group'', AInt groupId]) None;
     (if err \<noteq> None then State_Monad.return userList
      else do {
        let allUserId = map r_ObjectA (rows_of relationList);
        (err2, userList) \<leftarrow> g_Find_users db ((Where ''id IN ?'' [AInts allUserId])\<lparr>q_Select := public_columns\<rparr>) userList;
        State_Monad.return userList
      })
   }"

definition db_CreateGroup :: "'w gorm_api \<Rightarrow> TGroup \<Rightarrow> ('w, TGroup) state" where
  "db_CreateGroup db grp = do { (err, grp) \<leftarrow> g_Create_group db grp; State_Monad.return grp }"

definition UpdateGroup :: "'w gorm_api \<Rightarrow> TGroup \<Rightarrow> ('w, TGroup) state" where
  "UpdateGroup db grp = do { (err, grp) \<leftarrow> g_Updates_group db grp; State_Monad.return grp }"

text \<open>
  A page is fetched newest first and then put in order of the snowflake ids, which are texts and are
  compared as texts. \<^verbatim>\<open>sort.Slice\<close> promises no order among equal ids; the column has a unique index.
  An error other than \<^verbatim>\<open>ErrRecordNotFound\<close> leaves the list as the query left it.
\<close>

definition page_of :: "int \<Rightarrow> int \<Rightarrow> int \<times> int" where
  "page_of current pageSize = (if current \<le> 0 \<or> pageSize \<le> 0 then (1, 16) else (current, pageSize))"

definition int64 :: "int \<Rightarrow> int" where
  "int64 i = signed_take_bit 63 i"

definition QueryFriendMessageByPage ::
  "'w gorm_api \<Rightarrow> int \<Rightarrow> int \<Rightarrow> VFriendMessage list option \<Rightarrow> int \<Rightarrow> int \<Rightarrow> ('w, VFriendMessage list option) state" where
  "QueryFriendMessageByPage db userid friendId msgList current pageSize = do {
     let (current, pageSize) = page_of current pageSize;
     (err, msgList) \<leftarrow> g_Find_friend_messages db
        ((Where ''((userid = ? AND friend_id = ?) OR (friend_id = ? AND userid = ?)) AND belong = ?''
            [AInt userid, AInt friendId, AInt userid, AInt friendId, AInt userid])
          \<lparr>q_Table := ''v_friend_message'', q_Order := ''snow_id DESC'', q_Limit := Some pageSize,
           q_Offset := Some (int64 ((current - 1) * pageSize))\<rparr>) msgList;
     (if err \<noteq> None \<and> err \<noteq> Some ErrRecordNotFound then State_Monad.return msgList
      else State_Monad.return (map_option (sort_key vf_SnowId) msgList))
   }"

definition QueryGroupMessageByPage ::
  "'w gorm_api \<Rightarrow> int \<Rightarrow> VGroupMessage list option \<Rightarrow> int \<Rightarrow> int \<Rightarrow> ('w, VGroupMessage list option) state" where
  "QueryGroupMessageByPage db groupId msgList current pageSize = do {
     let (current, pageSize) = page_of current pageSize;
     (err, msgList) \<leftarrow> g_Find_group_messages db
        ((Where ''group_id = ? AND belong = ?'' [AInt groupId, AInt groupId])
          \<lparr>q_Table := ''v_group_message'', q_Order := ''snow_id DESC'', q_Limit := Some pageSize,
           q_Offset := Some (int64 ((current - 1) * pageSize))\<rparr>) msgList;
     (if err \<noteq> None \<and> err \<noteq> Some ErrRecordNotFound then State_Monad.return msgList
      else State_Monad.return (map_option (sort_key vg_SnowId) msgList))
   }"

definition CreateRelation :: "'w gorm_api \<Rightarrow> TRelation \<Rightarrow> ('w, TRelation) state" where
  "CreateRelation db relation = do {
     (err, relation) \<leftarrow> g_First_relation db
        (Where ''object_a = ? AND object_b = ? AND type = ?''
          [AInt (r_ObjectA relation), AInt (r_ObjectB relation), AStr (r_Type relation)]) relation;
     (if err \<noteq> None \<and> err \<noteq> Some ErrRecordNotFound then State_Monad.return relation
      else if err \<noteq> None then do { (err2, relation) \<leftarrow> g_Create_relation db relation; State_Monad.return relation }
      else State_Monad.return relation)
   }"

definition SaveMsgInBatches :: "'w gorm_api \<Rightarrow> TMessage list \<Rightarrow> ('w, unit) state" where
  "SaveMsgInBatches db msg =
     (if msg = [] then State_Monad.return ()
      else do { err \<leftarrow> g_CreateInBatches db msg 100; State_Monad.return () })"

section \<open>A search text stays inside its literal\<close>

text \<open>
  How MySQL reads a string literal after its opening quote: a backslash takes the next character with
  it, a doubled quote stands for one, a single quote ends the literal. The rest of the statement is
  returned, \<^term>\<open>None\<close> when the literal never ends.
\<close>

fun end_of_literal :: "string \<Rightarrow> string option" where
  "end_of_literal [] = None"
| "end_of_literal (c # cs) =
     (if c = CHR 92 then (case cs of [] \<Rightarrow> None | _ # ds \<Rightarrow> end_of_literal ds)
      else if c = CHR 34 then
        (case cs of [] \<Rightarrow> Some [] | d # ds \<Rightarrow> if d = CHR 34 then end_of_literal ds else Some (d # ds))
      else end_of_literal cs)"

lemma hex_digit_plain:
  assumes "d < 16"
  shows "hex_digit d \<noteq> CHR 34" "hex_digit d \<noteq> CHR 92"
proof -
  have "of_char (hex_digit d) = (if d < 10 then 48 + d else 87 + d)"
    using assms by (simp add: hex_digit_def)
  then show "hex_digit d \<noteq> CHR 34" "hex_digit d \<noteq> CHR 92"
    using assms by (auto split: if_splits)
qed

lemma end_of_literal_steps:
  "end_of_literal (CHR 92 # d # cs) = end_of_literal cs"
  "c \<noteq> CHR 34 \<Longrightarrow> c \<noteq> CHR 92 \<Longrightarrow> end_of_literal (c # cs) = end_of_literal cs"
  by simp_all

lemma end_of_literal_char: "end_of_literal (quote_char c @ cs) = end_of_literal cs"
proof -
  define n where "n = (of_char c :: nat)"
  have n: "n div 16 < 16" "n mod 16 < 16"
    unfolding n_def by (simp_all add: less_mult_imp_div_less)
  have c: "n \<noteq> 34 \<Longrightarrow> c \<noteq> CHR 34" "n \<noteq> 92 \<Longrightarrow> c \<noteq> CHR 92"
    unfolding n_def by auto
  show ?thesis
    unfolding quote_char_def Let_def n_def [symmetric]
    using hex_digit_plain [OF n(1)] hex_digit_plain [OF n(2)] c
    by (simp add: end_of_literal_steps del: end_of_literal.simps(2) split: if_split)
qed

text \<open>
  C25: whatever text a client searches for, the pattern that \<^verbatim>\<open>SearchUserByUsername\<close> and
  \<^verbatim>\<open>SearchGroupByGroupName\<close> splice into the SQL text is one string literal that ends where the statement
  goes on: a quote or a backslash in the text cannot close it early.
\<close>
theorem search_text_stays_literal:
  "Quote (''%'' @ q @ ''%'') = CHR 34 # tl (Quote (''%'' @ q @ ''%'')) \<and>
   end_of_literal (tl (Quote (''%'' @ q @ ''%''))) = Some []"
proof -
  have "end_of_literal (concat (map quote_char s) @ [CHR 34]) = Some []" for s
    by (induction s) (simp_all add: end_of_literal_char)
  from this [of "''%'' @ q @ ''%''"] show ?thesis
    by (simp only: Quote_def append_Cons append_Nil list.sel)
qed

section \<open>Pages\<close>

lemma page_of_pos: "0 < fst (page_of current pageSize)" "0 < snd (page_of current pageSize)"
  by (auto simp: page_of_def)

lemma page_offset_nonneg:
  "(fst (page_of c n) - 1) * snd (page_of c n) < 2 ^ 63 \<Longrightarrow> 0 \<le> int64 ((fst (page_of c n) - 1) * snd (page_of c n))"
proof -
  assume a: "(fst (page_of c n) - 1) * snd (page_of c n) < 2 ^ 63"
  have "0 \<le> (fst (page_of c n) - 1) * snd (page_of c n)"
    using page_of_pos [of c n] by simp
  then show ?thesis
    unfolding int64_def using a signed_take_bit_int_eq_self [of 63 "(fst (page_of c n) - 1) * snd (page_of c n)"] by simp
qed

text \<open>What the caller of a paged query gets of the rows that the database returned.\<close>

definition page_ok :: "query \<Rightarrow> int \<Rightarrow> int \<Rightarrow> db_error option \<Rightarrow> ('a \<Rightarrow> string) \<Rightarrow> 'a list option \<Rightarrow> 'a list option \<Rightarrow> bool" where
  "page_ok q current pageSize err key rows page \<longleftrightarrow>
     map_option mset page = map_option mset rows
     \<and> (err = None \<or> err = Some ErrRecordNotFound \<longrightarrow> (\<forall>p. page = Some p \<longrightarrow> sorted (map key p)))
     \<and> (\<exists>n m. q_Limit q = Some n \<and> 0 < n \<and> q_Offset q = Some m
          \<and> ((fst (page_of current pageSize) - 1) * snd (page_of current pageSize) < 2 ^ 63 \<longrightarrow> 0 \<le> m))"

lemma page_okI:
  assumes "q_Limit q = Some (snd (page_of c n))" and "q_Offset q = Some (int64 ((fst (page_of c n) - 1) * snd (page_of c n)))"
  shows "page_ok q c n err key rows
    (if err \<noteq> None \<and> err \<noteq> Some ErrRecordNotFound then rows else map_option (sort_key key) rows)"
  using assms page_of_pos [of c n] page_offset_nonneg [of c n] by (cases rows) (auto simp: page_ok_def)

lemma friend_page_ok:
  assumes "run_state (QueryFriendMessageByPage db u f msgs current pageSize) w = (page, w')"
  shows "\<exists>q err rows. run_state (g_Find_friend_messages db q msgs) w = ((err, rows), w') \<and> page_ok q current pageSize err vf_SnowId rows page"
proof -
  let ?q = "(Where ''((userid = ? AND friend_id = ?) OR (friend_id = ? AND userid = ?)) AND belong = ?''
      [AInt u, AInt f, AInt u, AInt f, AInt u])
    \<lparr>q_Table := ''v_friend_message'', q_Order := ''snow_id DESC'', q_Limit := Some (snd (page_of current pageSize)),
     q_Offset := Some (int64 ((fst (page_of current pageSize) - 1) * snd (page_of current pageSize)))\<rparr>"
  obtain err rows w1 where r: "run_state (g_Find_friend_messages db ?q msgs) w = ((err, rows), w1)"
    by (cases "run_state (g_Find_friend_messages db ?q msgs) w") force
  have p: "page = (if err \<noteq> None \<and> err \<noteq> Some ErrRecordNotFound then rows else map_option (sort_key vf_SnowId) rows)" "w1 = w'"
    using assms r by (auto simp: QueryFriendMessageByPage_def case_prod_beta Let_def split: if_splits)
  have "page_ok ?q current pageSize err vf_SnowId rows
      (if err \<noteq> None \<and> err \<noteq> Some ErrRecordNotFound then rows else map_option (sort_key vf_SnowId) rows)"
    by (rule page_okI) simp_all
  then show ?thesis
    using r unfolding p by blast
qed

lemma group_page_ok:
  assumes "run_state (QueryGroupMessageByPage db g msgs current pageSize) w = (page, w')"
  shows "\<exists>q err rows. run_state (g_Find_group_messages db q msgs) w = ((err, rows), w') \<and> page_ok q current pageSize err vg_SnowId rows page"
proof -
  let ?q = "(Where ''group_id = ? AND belong = ?'' [AInt g, AInt g])
    \<lparr>q_Table := ''v_group_message'', q_Order := ''snow_id DESC'', q_Limit := Some (snd (page_of current pageSize)),
     q_Offset := Some (int64 ((fst (page_of current pageSize) - 1) * snd (page_of current pageSize)))\<rparr>"
  obtain err rows w1 where r: "run_state (g_Find_group_messages db ?q msgs) w = ((err, rows), w1)"
    by (cases "run_state (g_Find_group_messages db ?q msgs) w") force
  have p: "page = (if err \<noteq> None \<and> err \<noteq> Some ErrRecordNotFound then rows else map_option (sort_key vg_SnowId) rows)" "w1 = w'"
    using assms r by (auto simp: QueryGroupMessageByPage_def case_prod_beta Let_def split: if_splits)
  have "page_ok ?q current pageSize err vg_SnowId rows
      (if err \<noteq> None \<and> err \<noteq> Some ErrRecordNotFound then rows else map_option (sort_key vg_SnowId) rows)"
    by (rule page_okI) simp_all
  then show ?thesis
    using r unfolding p by blast
qed

text \<open>
  C24: a page of messages of a friend or of a group comes in ascending order of the snowflake ids and
  consists of exactly the rows that the database returned for it. The query asks for a positive number of
  rows and, as long as the position of the page fits an \<^verbatim>\<open>int\<close>, for a position that is not negative,
  however the client sets page number and size.
\<close>
theorem message_pages_sorted:
  "(case run_state (QueryFriendMessageByPage db u f msgs current pageSize) w of (page, w') \<Rightarrow>
      \<exists>q err rows. run_state (g_Find_friend_messages db q msgs) w = ((err, rows), w')
        \<and> page_ok q current pageSize err vf_SnowId rows page)
   \<and> (case run_state (QueryGroupMessageByPage db g gmsgs current pageSize) w of (page, w') \<Rightarrow>
      \<exists>q err rows. run_state (g_Find_group_messages db q gmsgs) w = ((err, rows), w')
        \<and> page_ok q current pageSize err vg_SnowId rows page)"
  using friend_page_ok [of db u f msgs current pageSize w] group_page_ok [of db g gmsgs current pageSize w]
  by (auto split: prod.splits)

end
