(* ===== verification/Utils.thy ===== *)
theory Utils
  imports Effects
begin

text \<open>
  Passwords and tokens (\<^verbatim>\<open>utils/common.go\<close>, \<^verbatim>\<open>utils/snowflake.go\<close>). \<^verbatim>\<open>bcrypt\<close>, the source of random bytes and
  the snowflake library are parameters.
\<close>

record 'w crypto_api =
  c_GenerateFromPassword :: "string \<Rightarrow> int \<Rightarrow> ('w, string + string) state"
  c_CompareHashAndPassword :: "string \<Rightarrow> string \<Rightarrow> bool"
  c_ReadRandom :: "nat \<Rightarrow> ('w, byte list) state" \<comment> \<open>the buffer after \<^verbatim>\<open>io.ReadFull(rand.Reader, r)\<close>\<close>
  c_Snowflake :: "int \<Rightarrow> ('w, int) state" \<comment> \<open>\<^verbatim>\<open>Generate\<close> of a new node\<close>

definition MinCost :: int where "MinCost = 4"

definition EncPassword :: "'w crypto_api \<Rightarrow> string \<Rightarrow> ('w, string) state" where
  "EncPassword api pwd = do {
     res \<leftarrow> c_GenerateFromPassword api pwd MinCost;
     State_Monad.return (case res of Inl _ \<Rightarrow> [] | Inr hash \<Rightarrow> hash)
   }"

definition VerifyPwd :: "'w crypto_api \<Rightarrow> string \<Rightarrow> string \<Rightarrow> bool" where
  "VerifyPwd api hash pwd = c_CompareHashAndPassword api hash pwd"

text \<open>\<^verbatim>\<open>base64.URLEncoding\<close>, with padding.\<close>

definition b64_char :: "nat \<Rightarrow> char" where
  "b64_char i = char_of (if i < 26 then 65 + i else if i < 52 then 71 + i else if i < 62 then i - 4
     else if i = 62 then 45 else 95)"

fun b64_url :: "nat list \<Rightarrow> string" where
  "b64_url (a # b # c # xs) =
     b64_char (a div 4) # b64_char ((a mod 4) * 16 + b div 16) # b64_char ((b mod 16) * 4 + c div 64)
     # b64_char (c mod 64) # b64_url xs"
| "b64_url [a, b] = [b64_char (a div 4), b64_char ((a mod 4) * 16 + b div 16), b64_char ((b mod 16) * 4), CHR ''='']"
| "b64_url [a] = [b64_char (a div 4), b64_char ((a mod 4) * 16), CHR ''='', CHR ''='']"
| "b64_url [] = []"

definition GetRandomToken :: "'w crypto_api \<Rightarrow> nat \<Rightarrow> ('w, string) state" where
  "GetRandomToken api n = do {
     r \<leftarrow> c_ReadRandom api n;
     State_Monad.return (b64_url (map unat r))
   }"

definition b64_val :: "nat \<Rightarrow> nat" where
  "b64_val i = (if i < 26 then 65 + i else if i < 52 then 71 + i else if i < 62 then i - 4
     else if i = 62 then 45 else 95)"

lemma b64_val_less: "i < 64 \<Longrightarrow> b64_val i < 256"
  unfolding b64_val_def by (simp split: if_split) linarith

lemma b64_val_inj:
  assumes "i < 64" "j < 64" and "b64_val i = b64_val j"
  shows "i = j"
proof -
  have "distinct (map b64_val [0..<64])"
    by code_simp
  then have "inj_on b64_val {0..<64}"
    unfolding distinct_map by simp
  then show ?thesis
    by (rule inj_onD) (use assms in simp_all)
qed

lemma b64_char_inj:
  assumes "i < 64" "j < 64" and "b64_char i = b64_char j"
  shows "i = j"
proof -
  have "b64_val i mod 256 = b64_val j mod 256"
    using arg_cong [OF assms(3), of "of_char :: char \<Rightarrow> nat"] unfolding b64_char_def b64_val_def [symmetric] of_char_of
    by simp
  then have "b64_val i = b64_val j"
    using b64_val_less assms(1,2) by simp
  then show ?thesis
    using b64_val_inj assms(1,2) by blast
qed

lemma mixed_radix:
  fixes x y k :: nat
  assumes "y < k" "y' < k" and "x * k + y = x' * k + y'"
  shows "x = x' \<and> y = y'"
proof -
  have "(x * k + y) div k = x" "(x' * k + y') div k = x'"
    using assms(1,2) by simp_all
  then have "x = x'"
    using assms(3) by simp
  then show ?thesis
    using assms(3) by simp
qed

lemma b64_digits:
  assumes "(b :: nat) < 256" "c < 256" "b' < 256" "c' < 256"
    and "a div 4 = a' div 4" "(a mod 4) * 16 + b div 16 = (a' mod 4) * 16 + b' div 16"
      "(b mod 16) * 4 + c div 64 = (b' mod 16) * 4 + c' div 64" "c mod 64 = c' mod 64"
  shows "a = a' \<and> b = b' \<and> c = c'"
proof -
  have "b div 16 < 16" "b' div 16 < 16" "c div 64 < 4" "c' div 64 < 4"
    using assms(1-4) by (simp_all add: less_mult_imp_div_less)
  then have "a mod 4 = a' mod 4" "b div 16 = b' div 16" "b mod 16 = b' mod 16" "c div 64 = c' div 64"
    using mixed_radix assms(6,7) by blast+
  then show ?thesis
    using assms(5,8) by (metis div_mult_mod_eq)
qed

lemma b64_small:
  assumes "(a :: nat) < 256" "b < 256" "c < 256"
  shows "a div 4 < 64" "(a mod 4) * 16 + b div 16 < 64" "(b mod 16) * 4 + c div 64 < 64" "c mod 64 < 64"
proof -
  have "a mod 4 < 4" "b div 16 < 16" "b mod 16 < 16" "c div 64 < 4"
    using assms by (simp_all add: less_mult_imp_div_less)
  then show "(a mod 4) * 16 + b div 16 < 64" "(b mod 16) * 4 + c div 64 < 64"
    by linarith+
  show "a div 4 < 64" "c mod 64 < 64"
    using assms by (simp_all add: less_mult_imp_div_less)
qed

lemma b64_group:
  assumes "(a :: nat) < 256" "b < 256" "c < 256" "a' < 256" "b' < 256" "c' < 256"
    and "b64_char (a div 4) = b64_char (a' div 4)"
      "b64_char ((a mod 4) * 16 + b div 16) = b64_char ((a' mod 4) * 16 + b' div 16)"
      "b64_char ((b mod 16) * 4 + c div 64) = b64_char ((b' mod 16) * 4 + c' div 64)"
      "b64_char (c mod 64) = b64_char (c' mod 64)"
  shows "a = a' \<and> b = b' \<and> c = c'"
proof -
  note lt = b64_small [OF assms(1-3)] b64_small [OF assms(4-6)]
  show ?thesis
    using b64_digits [OF assms(2,3,5,6) b64_char_inj [OF lt(1,5) assms(7)] b64_char_inj [OF lt(2,6) assms(8)]
        b64_char_inj [OF lt(3,7) assms(9)] b64_char_inj [OF lt(4,8) assms(10)]] .
qed

lemma b64_url_inj:
  assumes "length xs = length ys" and "\<forall>x \<in> set xs. x < 256" "\<forall>y \<in> set ys. y < 256" and "b64_url xs = b64_url ys"
  shows "xs = ys"
  using assms
proof (induction xs arbitrary: ys rule: b64_url.induct)
  case (1 a b c xs)
  then obtain a' b' c' zs where ys: "ys = a' # b' # c' # zs"
    by (cases ys rule: b64_url.cases) auto
  show ?case
    using b64_group [of a b c a' b' c'] 1 unfolding ys by simp
next
  case (2 a b)
  then obtain a' b' where ys: "ys = [a', b']"
    by (cases ys rule: b64_url.cases) auto
  show ?case
    using b64_group [of a b 0 a' b' 0] 2 unfolding ys by simp
next
  case (3 a)
  then obtain a' where ys: "ys = [a']"
    by (cases ys rule: b64_url.cases) auto
  show ?case
    using b64_group [of a 0 0 a' 0 0] 3 unfolding ys by simp
qed simp

text \<open>
  A node that is created for every id starts counting anew: ids made within one millisecond are equal.
\<close>

definition GetSnowflakeId :: "(int \<Rightarrow> string) \<Rightarrow> 'w crypto_api \<Rightarrow> ('w, string) state" where
  "GetSnowflakeId fmt api = do { i \<leftarrow> c_Snowflake api 1; State_Monad.return (fmt i) }"

text \<open>
  Tokens are as unpredictable as the random bytes they are made of: two tokens are equal only if the
  same 32 bytes were drawn.
\<close>
theorem GetRandomToken_injective:
  assumes "run_state (c_ReadRandom api n) w = (r, w1)" and "run_state (c_ReadRandom api n) v = (s, v1)"
    and "length r = n" "length s = n"
    and "fst (run_state (GetRandomToken api n) w) = fst (run_state (GetRandomToken api n) v)"
  shows "r = s"
proof -
  have "b64_url (map unat r) = b64_url (map unat s)"
    using assms by (simp add: GetRandomToken_def)
  moreover have "unat x < 256" for x :: byte
    using unsigned_less [of x, where 'a = nat] by simp
  ultimately have "map unat r = map unat s"
    using assms(3,4) by (intro b64_url_inj) auto
  then show ?thesis
    by (rule map_injective) (simp add: inj_def word_unat_eq_iff)
qed

definition fixed_random :: "byte list crypto_api" where
  "fixed_random = \<lparr>c_GenerateFromPassword = (\<lambda>p c. State_Monad.return (Inr (''#'' @ p))),
     c_CompareHashAndPassword = (\<lambda>h p. h = ''#'' @ p),
     c_ReadRandom = (\<lambda>n. State (\<lambda>w. (take n (w @ replicate n 0), drop n w))), c_Snowflake = (\<lambda>n. State_Monad.return 0)\<rparr>"

theorem GetRandomToken_injective_witness:
  "fst (run_state (GetRandomToken fixed_random 3) [77, 97, 110]) = ''TWFu'' \<and>
   fst (run_state (c_ReadRandom fixed_random 3) [77, 97, 110]) = [77, 97, 110]"
proof -
  have run: "run_state (c_ReadRandom fixed_random 3) [77, 97, 110, 1] = ([77, 97, 110], [1])"
    "run_state (c_ReadRandom fixed_random 3) [77, 97, 110] = ([77, 97, 110], [])"
    by (simp_all add: fixed_random_def)
  have tok: "fst (run_state (GetRandomToken fixed_random 3) [77, 97, 110]) = ''TWFu''"
    "fst (run_state (GetRandomToken fixed_random 3) [77, 97, 110, 1]) = ''TWFu''"
    by (simp_all add: GetRandomToken_def run b64_char_def char_of_eq_iff)
  show ?thesis
    using tok run GetRandomToken_injective [OF run] by simp
qed

end
