(* ===== verification/Publish.thy ===== *)
theory Publish
  imports Kafka RedisStore
begin

text \<open>
  Publishing (\<^verbatim>\<open>logic/publish.go\<close>): chat messages go to the Kafka topic of a user or group, status messages to
  the Redis list that the task layer reads. A payload behind an \<^verbatim>\<open>interface{}\<close> is its JSON value.
\<close>

datatype publish_error = PushFailed

definition msg_body :: "int \<Rightarrow> json \<Rightarrow> string" where
  "msg_body op payload = json_print (enc_MsgSend \<lparr>ms_Op = op, ms_Msg = payload\<rparr>)"

text \<open>A failed attempt is repeated once.\<close>

definition produce_twice :: "(int \<Rightarrow> string \<Rightarrow> string \<Rightarrow> ('s, 'e option) state) \<Rightarrow> int \<Rightarrow> string \<Rightarrow> string \<Rightarrow> ('s, publish_error + unit) state" where
  "produce_twice produce objectId ty body = do {
     err \<leftarrow> produce objectId ty body;
     (case err of
        None \<Rightarrow> State_Monad.return (Inr ())
      | Some _ \<Rightarrow> do {
          err \<leftarrow> produce objectId ty body;
          State_Monad.return (case err of None \<Rightarrow> Inr () | Some _ \<Rightarrow> Inl PushFailed)
        })
   }"

text \<open>An operation other than the two leaves the message nil, which encodes as \<^verbatim>\<open>null\<close>, for a user's topic.\<close>

definition logic_Push ::
  "'w kafka_api \<Rightarrow> string \<Rightarrow> int \<Rightarrow> json \<Rightarrow> int \<Rightarrow> ('w \<times> KafkaProducerConn, publish_error + unit) state" where
  "logic_Push api address objectId payload op =
     (if op = OpGroupMsgSend then produce_twice (TopicProduce api address) objectId ''group'' (msg_body OpGroupMsgSend payload)
      else if op = OpFriendMsgSend then produce_twice (TopicProduce api address) objectId ''friend'' (msg_body OpFriendMsgSend payload)
      else produce_twice (TopicProduce api address) objectId ''friend'' (json_print JNull))"

definition PushUserInfo ::
  "'w redis_api \<Rightarrow> RedisEnv \<Rightarrow> int \<Rightarrow> string \<Rightarrow> int \<Rightarrow> int \<Rightarrow> ('w, redis_error + unit) state" where
  "PushUserInfo api env userid username friendId op = RedisLPUSH api env StatusMsgQueue
     (if op = OpFriendOnlineSend then
        msg_body op (enc_FriendOnlineMsg
          \<lparr>fo_FriendId = userid, fo_FriendName = username, fo_Op = OpFriendOnlineSend, fo_Belong = friendId\<rparr>)
      else if op = OPFriendOffOnlineSend then
        msg_body op (enc_FriendOfflineMsg \<lparr>ff_FriendId = userid, ff_Op = OPFriendOffOnlineSend, ff_Belong = friendId\<rparr>)
      else json_print JNull)"

definition PushGroupInfo ::
  "'w redis_api \<Rightarrow> RedisEnv \<Rightarrow> int \<Rightarrow> int \<Rightarrow> int \<Rightarrow> TUser list option \<Rightarrow> int list \<Rightarrow> ('w, redis_error + unit) state" where
  "PushGroupInfo api env userid groupId onlineCount userList onlineUserId = RedisLPUSH api env StatusMsgQueue
     (msg_body OpGroupInfoSend (enc_GroupInfoMsg
        \<lparr>gi_GroupId = groupId, gi_Count = onlineCount, gi_UserArr = userList, gi_OnlineUserIds = onlineUserId,
         gi_Op = OpGroupInfoSend\<rparr>))"

definition PushGroupCount :: "'w redis_api \<Rightarrow> RedisEnv \<Rightarrow> int \<Rightarrow> int \<Rightarrow> ('w, redis_error + unit) state" where
  "PushGroupCount api env groupId cnt = RedisLPUSH api env StatusMsgQueue
     (msg_body OpGroupOlineUserCountSend (enc_GroupCountMsg
        \<lparr>gc_GroupId = groupId, gc_Count = cnt, gc_Op = OpGroupOlineUserCountSend\<rparr>))"

section \<open>A publication ends up in the log\<close>

text \<open>What one successful publication with its retry adds to the topic: the message, or the message twice.\<close>

definition published :: "('w \<Rightarrow> klog) \<Rightarrow> string \<Rightarrow> string \<Rightarrow> 'w \<Rightarrow> 'w \<Rightarrow> bool" where
  "published log t v w w' \<longleftrightarrow> (\<exists>n \<in> {1, 2}. log w' = (log w)((t, 0) := log w (t, 0) @ replicate n v))"

context topic_producer
begin

lemma produce_retry:
  assumes "ok s" and "run_state (produce i ty v) s = (Some e, s1)" and "run_state (produce i ty v) s1 = (None, s2)"
  shows "ok s2 \<and> (\<exists>t. topic_for i ty = Some t \<and> published log t v s s2)"
proof -
  have ok1: "ok s1" "ok s2"
    using produce_ok assms by blast+
  obtain t where t: "topic_for i ty = Some t" "log s2 = (log s1)((t, 0) := log s1 (t, 0) @ [v])"
    using produce_done [OF ok1(1) assms(3)] by auto
  have "log s1 = log s \<or> log s1 = (log s)((t, 0) := log s (t, 0) @ [v])"
    using produce_failed [OF assms(1,2)] t(1) by auto
  then have "published log t v s s2"
    using t(2) by (auto simp: published_def numeral_2_eq_2)
  then show ?thesis
    using ok1 t(1) by auto
qed

lemma produce_first:
  assumes "ok s" and "run_state (produce i ty v) s = (None, s1)"
  shows "ok s1 \<and> (\<exists>t. topic_for i ty = Some t \<and> published log t v s s1)"
  using produce_ok [OF assms] produce_done [OF assms] by (auto simp: published_def)

lemma produce_twice_done:
  assumes "ok s" and "run_state (produce_twice produce i ty v) s = (Inr u, s')"
  shows "ok s' \<and> (\<exists>t. topic_for i ty = Some t \<and> published log t v s s')"
proof -
  obtain e s1 where e: "run_state (produce i ty v) s = (e, s1)"
    by (cases "run_state (produce i ty v) s")
  obtain e2 s2 where e2: "run_state (produce i ty v) s1 = (e2, s2)"
    by (cases "run_state (produce i ty v) s1")
  show ?thesis
  proof (cases e)
    case None
    then show ?thesis
      using produce_first [OF assms(1)] e assms(2) by (simp add: produce_twice_def)
  next
    case (Some x)
    then have "e2 = None" "s2 = s'"
      using assms(2) e e2 by (auto simp: produce_twice_def split: option.splits)
    then show ?thesis
      using produce_retry [OF assms(1)] Some e e2 by simp
  qed
qed

end

context kafka_broker
begin

lemma published_fst: "published (\<lambda>s. log (fst s)) t v s s' = published log t v (fst s) (fst s')"
  by (simp add: published_def)

lemma produce_twice_topic:
  assumes "pool_ok conn_of s" and "run_state (produce_twice (TopicProduce api a) i ty v) s = (Inr u, s')"
    and "topic_for i ty = Some t"
  shows "pool_ok conn_of s' \<and> published log t v (fst s) (fst s')"
  using producers.produce_twice_done [OF assms(1,2)] assms(3) unfolding published_fst by (elim conjE exE) simp

lemma logic_Push_group:
  assumes "pool_ok conn_of s" and "run_state (logic_Push api a i payload OpGroupMsgSend) s = (Inr u, s')"
  shows "pool_ok conn_of s' \<and> published log (GroupQueue i) (msg_body OpGroupMsgSend payload) (fst s) (fst s')"
proof -
  have "run_state (produce_twice (TopicProduce api a) i ''group'' (msg_body OpGroupMsgSend payload)) s = (Inr u, s')"
    using assms(2) by (simp add: logic_Push_def)
  then show ?thesis
    by (rule produce_twice_topic [OF assms(1)]) (simp add: topic_for_def)
qed

lemma logic_Push_friend:
  assumes "pool_ok conn_of s" and "run_state (logic_Push api a i payload OpFriendMsgSend) s = (Inr u, s')"
  shows "pool_ok conn_of s' \<and> published log (FriendQueue i) (msg_body OpFriendMsgSend payload) (fst s) (fst s')"
proof -
  have "OpFriendMsgSend \<noteq> OpGroupMsgSend"
    by (simp add: op_defs)
  then have "run_state (produce_twice (TopicProduce api a) i ''friend'' (msg_body OpFriendMsgSend payload)) s = (Inr u, s')"
    using assms(2) by (simp add: logic_Push_def)
  then show ?thesis
    by (rule produce_twice_topic [OF assms(1)]) (simp add: topic_for_def)
qed

end

end
