(* ===== verification/Logic.thy ===== *)
theory Logic
  imports Publish Db Utils
begin

text \<open>
  The logic layer (\<^verbatim>\<open>logic/rpc.go\<close>): sessions, presence, groups, friends, pages of messages and the publication
  of chat messages. A handler returns its reply or an error; gRPC drops the reply of a call with an error.
  Reading a field of a nil message is a panic, here the error \<open>NilPointer\<close>.
\<close>

section \<open>Environment, errors and replies\<close>

record 'w logic_env =
  le_redis :: "'w redis_api"
  le_servers :: RedisEnv
  le_db :: "'w gorm_api"
  le_crypto :: "'w crypto_api"
  le_kafka :: "'w kafka_api"
  le_kafka_address :: string
  le_avatar :: string

abbreviation get_string :: "'w logic_env \<Rightarrow> string \<Rightarrow> ('w, redis_error + string) state" where
  "get_string e \<equiv> RedisGetString (le_redis e) (le_servers e)"
abbreviation set_string :: "'w logic_env \<Rightarrow> string \<Rightarrow> string \<Rightarrow> int \<Rightarrow> ('w, redis_error + unit) state" where
  "set_string e \<equiv> RedisSetString (le_redis e) (le_servers e)"
abbreviation del_string :: "'w logic_env \<Rightarrow> string \<Rightarrow> ('w, redis_error + unit) state" where
  "del_string e \<equiv> RedisDelString (le_redis e) (le_servers e)"
abbreviation hset :: "'w logic_env \<Rightarrow> string \<Rightarrow> string \<Rightarrow> string \<Rightarrow> ('w, redis_error + unit) state" where
  "hset e \<equiv> RedisHSet (le_redis e) (le_servers e)"
abbreviation hset_new :: "'w logic_env \<Rightarrow> string \<Rightarrow> string \<Rightarrow> string \<Rightarrow> ('w, redis_error + bool) state" where
  "hset_new e \<equiv> RedisIsNotExistHSet (le_redis e) (le_servers e)"
abbreviation hdel :: "'w logic_env \<Rightarrow> string \<Rightarrow> string \<Rightarrow> ('w, redis_error + bool) state" where
  "hdel e \<equiv> RedisHDel (le_redis e) (le_servers e)"
abbreviation hincrby :: "'w logic_env \<Rightarrow> string \<Rightarrow> string \<Rightarrow> int \<Rightarrow> ('w, redis_error + unit) state" where
  "hincrby e \<equiv> RedisHINCRBY (le_redis e) (le_servers e)"
abbreviation hget :: "'w logic_env \<Rightarrow> string \<Rightarrow> string \<Rightarrow> ('w, redis_error + string) state" where
  "hget e \<equiv> RedisHGet (le_redis e) (le_servers e)"
abbreviation hgetall :: "'w logic_env \<Rightarrow> string \<Rightarrow> ('w, redis_error + (string \<times> string) list) state" where
  "hgetall e \<equiv> RedisHGetAll (le_redis e) (le_servers e)"

datatype logic_error = SystemError | BadAccessToken | UserExists | NoSuchUser | WrongPassword | LogoutFailed string
  | NoUserInfo string | PasswordsDiffer | GroupNameUsed | CreateGroupFailed | AddFailed | SessionError redis_error | NilPointer

definition RedisBaseValidTime :: int where "RedisBaseValidTime = 86400"

text \<open>A day, in nanoseconds: \<^verbatim>\<open>config.RedisBaseValidTime*time.Second\<close>.\<close>

definition one_day :: int where "one_day = RedisBaseValidTime * 1000000000"

definition SuccessReplyCode :: int where "SuccessReplyCode = 0"

record RegisterReply =
  rr_Code :: int
  rr_AccessToken :: string
  rr_Userid :: int

record LoginReply =
  lr_Code :: int
  lr_AccessToken :: string

record ChatMessage =
  cm_Id :: int
  cm_Userid :: int
  cm_GroupId :: int
  cm_FriendId :: int
  cm_Content :: string
  cm_MessageType :: string
  cm_CreateAt :: string
  cm_FromUsername :: string
  cm_FriendName :: string
  cm_GroupName :: string
  cm_Avatar :: string
  cm_SnowId :: string
  cm_Watermark :: int

record FriendData =
  fd_Userid :: int
  fd_Username :: string
  fd_Tag :: string
  fd_Role :: int
  fd_Status :: int
  fd_Avatar :: string
  fd_CreateAt :: string
  fd_Messages :: "ChatMessage list"

record GroupData =
  gd_GroupId :: int
  gd_GroupName :: string
  gd_Notice :: string
  gd_Userid :: int
  gd_CreateAt :: string
  gd_Messages :: "ChatMessage list"

record UserData =
  ud_Userid :: int
  ud_Avatar :: string
  ud_Role :: int
  ud_Status :: int
  ud_Tag :: string
  ud_Username :: string
  ud_CreateAt :: string

record AfterLoginReply =
  al_FriendData :: "FriendData list"
  al_GroupData :: "GroupData list"
  al_UserData :: "UserData list"

record Group =
  pg_Id :: int
  pg_Userid :: int
  pg_GroupName :: string
  pg_Notice :: string
  pg_CreateAt :: string
  pg_UpdateAt :: string

record GetUserInfoReply =
  ui_Code :: int
  ui_User :: "User option"

record GetGroupMsgByPageReply =
  gp_Code :: int
  gp_MessageArr :: "ChatMessage list"
  gp_UserArr :: "User list"

record GetFriendMsgByPageReply =
  fp_Code :: int
  fp_MessageArr :: "ChatMessage list"

section \<open>Conversions\<close>

definition zero_User :: User where
  "zero_User = \<lparr>pu_Id = 0, pu_Username = [], pu_Avatar = [], pu_Role = 0, pu_Status = 0, pu_Tag = [], pu_CreateAt = [],
     pu_UpdateAt = []\<rparr>"

definition dec_proto_User :: "User decoder" where
  "dec_proto_User = dec_struct
     [fld ''id'' dec_int pu_Id (\<lambda>v u. u\<lparr>pu_Id := v\<rparr>),
      fld ''username'' dec_string pu_Username (\<lambda>v u. u\<lparr>pu_Username := v\<rparr>),
      fld ''avatar'' dec_string pu_Avatar (\<lambda>v u. u\<lparr>pu_Avatar := v\<rparr>),
      fld ''role'' dec_int32 pu_Role (\<lambda>v u. u\<lparr>pu_Role := v\<rparr>),
      fld ''status'' dec_int32 pu_Status (\<lambda>v u. u\<lparr>pu_Status := v\<rparr>),
      fld ''tag'' dec_string pu_Tag (\<lambda>v u. u\<lparr>pu_Tag := v\<rparr>),
      fld ''createAt'' dec_string pu_CreateAt (\<lambda>v u. u\<lparr>pu_CreateAt := v\<rparr>),
      fld ''updateAt'' dec_string pu_UpdateAt (\<lambda>v u. u\<lparr>pu_UpdateAt := v\<rparr>)]"

text \<open>Decoding through a pointer: \<^verbatim>\<open>null\<close> makes it nil, anything else allocates the struct.\<close>

fun dec_pointer :: "'a decoder \<Rightarrow> 'a \<Rightarrow> 'a option decoder" where
  "dec_pointer d zero JNull x = (None, True)"
| "dec_pointer d zero j x = (let (y, ok) = d j (case x of None \<Rightarrow> zero | Some z \<Rightarrow> z) in (Some y, ok))"

definition user_reply :: "TUser \<Rightarrow> User" where
  "user_reply user = \<lparr>pu_Id = u_ID user, pu_Username = u_Username user, pu_Avatar = u_Avatar user,
     pu_Role = to_int32 (u_Role user), pu_Status = to_int32 (u_Status user), pu_Tag = u_Tag user,
     pu_CreateAt = format_rfc3339 (u_CreateAt user), pu_UpdateAt = format_rfc3339 (u_UpdateAt user)\<rparr>"

definition friend_chat :: "VFriendMessage \<Rightarrow> ChatMessage" where
  "friend_chat m = \<lparr>cm_Id = vf_ID m, cm_Userid = vf_Userid m, cm_GroupId = 0, cm_FriendId = vf_FriendId m,
     cm_Content = vf_Content m, cm_MessageType = vf_MessageType m, cm_CreateAt = format_rfc3339 (vf_CreateAt m),
     cm_FromUsername = vf_FromUsername m, cm_FriendName = vf_FriendName m, cm_GroupName = [], cm_Avatar = vf_Avatar m,
     cm_SnowId = vf_SnowId m, cm_Watermark = 0\<rparr>"

definition group_chat :: "VGroupMessage \<Rightarrow> ChatMessage" where
  "group_chat m = \<lparr>cm_Id = vg_ID m, cm_Userid = vg_Userid m, cm_GroupId = vg_GroupId m, cm_FriendId = 0,
     cm_Content = vg_Content m, cm_MessageType = vg_MessageType m, cm_CreateAt = format_rfc3339 (vg_CreateAt m),
     cm_FromUsername = vg_FromUsername m, cm_FriendName = [], cm_GroupName = vg_GroupName m, cm_Avatar = vg_Avatar m,
     cm_SnowId = vg_SnowId m, cm_Watermark = 0\<rparr>"

text \<open>\<^verbatim>\<open>json.Marshal\<close> of a slice of ids, which may be nil.\<close>

definition marshal_ids :: "int list option \<Rightarrow> string" where
  "marshal_ids xs = json_print (case xs of None \<Rightarrow> JNull | Some ys \<Rightarrow> enc_ints ys)"

definition unmarshal_ids :: "string \<Rightarrow> int list" where
  "unmarshal_ids s = fst (Unmarshal dec_ints s [])"

definition ids_of :: "(string \<times> string) list \<Rightarrow> int list" where
  "ids_of kvs = map (\<lambda>kv. fst (Atoi (fst kv))) kvs"

section \<open>Presence\<close>

text \<open>
  The status of a group as every change of it is published: the members from the database, the number of
  those online and their ids from Redis.
\<close>

definition push_group_status :: "'w logic_env \<Rightarrow> int \<Rightarrow> int \<Rightarrow> ('w, logic_error + unit) state" where
  "push_group_status e userid val = do {
     userList \<leftarrow> QueryGroupAllUser (le_db e) val None;
     countStr \<leftarrow> or_zero (hget e GroupOnlineUserCount (fmt_d val)) [];
     or_fail (hgetall e (GroupOnlineUser val)) SystemError (\<lambda>userMap.
     or_fail (PushGroupInfo (le_redis e) (le_servers e) userid val (fst (Atoi countStr)) userList (ids_of userMap)) SystemError
       (\<lambda>_. State_Monad.return (Inr ())))
   }"

definition connect_group :: "'w logic_env \<Rightarrow> int \<Rightarrow> string \<Rightarrow> int \<Rightarrow> ('w, logic_error + unit) state" where
  "connect_group e userid serverId val =
     or_fail (hset_new e (GroupOnlineUser val) (fmt_d userid) serverId) SystemError (\<lambda>has.
     or_fail (if \<not> has then hincrby e GroupOnlineUserCount (fmt_d val) 1 else State_Monad.return (Inr ())) SystemError (\<lambda>_.
     push_group_status e userid val))"

definition logic_Connect :: "'w logic_env \<Rightarrow> string \<Rightarrow> string \<Rightarrow> ('w, logic_error + int) state" where
  "logic_Connect e accessToken serverId =
     or_fail (get_string e (SESSION accessToken)) SystemError (\<lambda>res.
     if res = [] then State_Monad.return (Inl BadAccessToken)
     else let user = fst (Unmarshal dec_user res zero_user) in
     or_fail (set_string e (UseridMapServerId (u_ID user)) serverId 0) SystemError (\<lambda>_. do {
       groupIdList \<leftarrow> QueryUserAllGroupId (le_db e) (u_ID user);
       friendIdList \<leftarrow> QueryUserAllFriendId (le_db e) (u_ID user);
       or_fail (hset e AllOnlineUser (fmt_d (u_ID user)) ''on'') SystemError (\<lambda>_.
       or_fail (for_each (connect_group e (u_ID user) serverId) (rows_of groupIdList)) SystemError (\<lambda>_.
       or_fail (set_string e (UserGroupList (u_ID user)) (marshal_ids groupIdList) 0) SystemError (\<lambda>_.
       or_fail (for_each (\<lambda>val. PushUserInfo (le_redis e) (le_servers e) (u_ID user) (u_Username user) val OpFriendOnlineSend)
                 (rows_of friendIdList)) SystemError (\<lambda>_.
       or_fail (set_string e (UserFriendList (u_ID user)) (marshal_ids friendIdList) 0) SystemError (\<lambda>_.
       State_Monad.return (Inr (u_ID user)))))))
     }))"

definition disconnect_group :: "'w logic_env \<Rightarrow> int \<Rightarrow> int \<Rightarrow> ('w, logic_error + unit) state" where
  "disconnect_group e userid val =
     or_fail (hdel e (GroupOnlineUser val) (fmt_d userid)) SystemError (\<lambda>has.
     or_fail (if has then hincrby e GroupOnlineUserCount (fmt_d val) (-1) else State_Monad.return (Inr ())) SystemError (\<lambda>_.
     push_group_status e userid val))"

definition logic_DisConnect :: "'w logic_env \<Rightarrow> int \<Rightarrow> ('w, logic_error + unit) state" where
  "logic_DisConnect e userid = do {
     groupIdList \<leftarrow> QueryUserAllGroupId (le_db e) userid;
     friendIdList \<leftarrow> QueryUserAllFriendId (le_db e) userid;
     or_fail (hset e AllOnlineUser (fmt_d userid) ''off'') SystemError (\<lambda>_.
     or_fail (for_each (disconnect_group e userid) (rows_of groupIdList)) SystemError (\<lambda>_.
     or_fail (for_each (\<lambda>val. PushUserInfo (le_redis e) (le_servers e) userid [] val OPFriendOffOnlineSend)
               (rows_of friendIdList)) SystemError (\<lambda>_.
     State_Monad.return (Inr ()))))
   }"

section \<open>Sessions\<close>

definition logic_Register :: "'w logic_env \<Rightarrow> string \<Rightarrow> string \<Rightarrow> ('w, logic_error + RegisterReply) state" where
  "logic_Register e username password = do {
     user \<leftarrow> QueryUserByUserName (le_db e) username zero_user;
     (if u_ID user > 0 then State_Monad.return (Inl UserExists)
      else do {
        pwd \<leftarrow> EncPassword (le_crypto e) password;
        (if pwd = [] then State_Monad.return (Inl SystemError)
         else do {
           user \<leftarrow> CreateUser (le_db e) (user\<lparr>u_Username := username, u_Password := pwd, u_Avatar := le_avatar e\<rparr>);
           (if u_ID user = 0 then State_Monad.return (Inl SystemError)
            else do {
              accessToken \<leftarrow> GetRandomToken (le_crypto e) 32;
              res \<leftarrow> set_string e (SESSION accessToken) (json_print (enc_user user)) one_day;
              State_Monad.return (case res of
                 Inl err \<Rightarrow> Inl (SessionError err)
               | Inr _ \<Rightarrow> Inr \<lparr>rr_Code = SuccessReplyCode, rr_AccessToken = accessToken, rr_Userid = u_ID user\<rparr>)
            })
         })
      })
   }"

text \<open>The token under which the user was logged in before is looked up and its session deleted.\<close>

definition logic_Login :: "'w logic_env \<Rightarrow> string \<Rightarrow> string \<Rightarrow> ('w, logic_error + LoginReply) state" where
  "logic_Login e username password = do {
     user \<leftarrow> QueryUserByUserName (le_db e) username zero_user;
     (if u_ID user = 0 then State_Monad.return (Inl NoSuchUser)
      else if \<not> VerifyPwd (le_crypto e) (u_Password user) password then State_Monad.return (Inl WrongPassword)
      else do {
        newAccessToken \<leftarrow> GetRandomToken (le_crypto e) 32;
        or_fail (get_string e (UseridMapToken (u_ID user))) SystemError (\<lambda>token.
        or_fail (if token \<noteq> [] then del_string e (SESSION token) else State_Monad.return (Inr ())) (LogoutFailed token) (\<lambda>_.
        or_fail (set_string e (SESSION newAccessToken) (json_print (enc_user user)) one_day) SystemError (\<lambda>_.
        or_fail (set_string e (UseridMapToken (u_ID user)) newAccessToken one_day) SystemError (\<lambda>_.
        State_Monad.return (Inr \<lparr>lr_Code = SuccessReplyCode, lr_AccessToken = newAccessToken\<rparr>)))))
      })
   }"

definition logic_LoginOut :: "'w logic_env \<Rightarrow> string \<Rightarrow> ('w, logic_error + unit) state" where
  "logic_LoginOut e accessToken =
     or_fail (get_string e (SESSION accessToken)) SystemError (\<lambda>res.
     let user = fst (Unmarshal dec_user res zero_user) in
     if u_ID user = 0 then State_Monad.return (Inl (NoUserInfo accessToken))
     else
       or_fail (del_string e (UseridMapToken (u_ID user))) SystemError (\<lambda>_.
       or_fail (del_string e (SESSION accessToken)) SystemError (\<lambda>_.
       State_Monad.return (Inr ()))))"

definition logic_GetUserInfoByAccessToken :: "'w logic_env \<Rightarrow> string \<Rightarrow> ('w, logic_error + GetUserInfoReply) state" where
  "logic_GetUserInfoByAccessToken e accessToken =
     or_fail (get_string e (SESSION accessToken)) SystemError (\<lambda>res.
     if res = [] then State_Monad.return (Inl BadAccessToken)
     else State_Monad.return (Inr
       \<lparr>ui_Code = SuccessReplyCode, ui_User = fst (Unmarshal (dec_pointer dec_proto_User zero_User) res None)\<rparr>))"

section \<open>After login\<close>

definition friend_data :: "'w logic_env \<Rightarrow> int \<Rightarrow> int \<Rightarrow> ('w, FriendData) state" where
  "friend_data e userid i = do {
     userInfo \<leftarrow> QueryUserById (le_db e) i zero_user;
     msgList \<leftarrow> QueryFriendMessageByPage (le_db e) userid i (Some []) 1 16;
     State_Monad.return
       \<lparr>fd_Userid = u_ID userInfo, fd_Username = u_Username userInfo, fd_Tag = u_Tag userInfo,
        fd_Role = to_int32 (u_Role userInfo), fd_Status = to_int32 (u_Status userInfo), fd_Avatar = u_Avatar userInfo,
        fd_CreateAt = format_rfc3339 (u_CreateAt userInfo), fd_Messages = map friend_chat (rows_of msgList)\<rparr>
   }"

text \<open>The field for the owner of the group is filled with the id of the group.\<close>

definition group_data :: "'w logic_env \<Rightarrow> int \<Rightarrow> ('w, GroupData) state" where
  "group_data e i = do {
     groupInfo \<leftarrow> QueryGroupById (le_db e) i zero_group;
     msgList \<leftarrow> QueryGroupMessageByPage (le_db e) i (Some []) 1 16;
     State_Monad.return
       \<lparr>gd_GroupId = g_ID groupInfo, gd_GroupName = g_GroupName groupInfo, gd_Notice = g_Notice groupInfo,
        gd_Userid = g_ID groupInfo, gd_CreateAt = format_rfc3339 (g_CreateAt groupInfo),
        gd_Messages = map group_chat (rows_of msgList)\<rparr>
   }"

definition user_data :: "'w logic_env \<Rightarrow> int \<Rightarrow> ('w, UserData) state" where
  "user_data e i = do {
     userInfo \<leftarrow> QueryUserById (le_db e) i zero_user;
     State_Monad.return
       \<lparr>ud_Userid = u_ID userInfo, ud_Avatar = u_Avatar userInfo, ud_Role = to_int32 (u_Role userInfo),
        ud_Status = to_int32 (u_Status userInfo), ud_Tag = u_Tag userInfo, ud_Username = u_Username userInfo,
        ud_CreateAt = format_rfc3339 (u_CreateAt userInfo)\<rparr>
   }"

definition logic_AfterLogin :: "'w logic_env \<Rightarrow> int \<Rightarrow> ('w, logic_error + AfterLoginReply) state" where
  "logic_AfterLogin e userid =
     or_fail (get_string e (UserFriendList userid)) SystemError (\<lambda>res1.
     or_fail (get_string e (UserGroupList userid)) SystemError (\<lambda>res2.
     or_fail (hgetall e AllOnlineUser) SystemError (\<lambda>userMap. do {
       friends \<leftarrow> collect (friend_data e userid) (unmarshal_ids res1);
       groups \<leftarrow> collect (group_data e) (unmarshal_ids res2);
       users \<leftarrow> collect (user_data e) (ids_of userMap);
       State_Monad.return (Inr \<lparr>al_FriendData = friends, al_GroupData = groups, al_UserData = users\<rparr>)
     })))"

section \<open>Users\<close>

definition logic_GetUserInfoByUserid :: "'w logic_env \<Rightarrow> int \<Rightarrow> ('w, logic_error + GetUserInfoReply) state" where
  "logic_GetUserInfoByUserid e userid = do {
     user \<leftarrow> QueryUserById (le_db e) userid zero_user;
     State_Monad.return (if u_ID user = 0 then Inl NoSuchUser
       else Inr \<lparr>ui_Code = SuccessReplyCode, ui_User = Some (user_reply user)\<rparr>)
   }"

definition logic_UpdateUserInfo :: "'w logic_env \<Rightarrow> User option \<Rightarrow> ('w, logic_error + GetUserInfoReply) state" where
  "logic_UpdateUserInfo e req =
     (case req of
        None \<Rightarrow> State_Monad.return (Inl NilPointer)
      | Some u \<Rightarrow> do {
          user \<leftarrow> UpdateUser (le_db e) (zero_user\<lparr>u_ID := pu_Id u, u_Username := pu_Username u, u_Avatar := pu_Avatar u,
             u_Role := pu_Role u, u_Status := pu_Status u, u_Tag := pu_Tag u\<rparr>);
          State_Monad.return (if u_ID user = 0 then Inl NoSuchUser
            else Inr \<lparr>ui_Code = SuccessReplyCode, ui_User = Some (user_reply user)\<rparr>)
        })"

definition logic_UpdatePassword :: "'w logic_env \<Rightarrow> int \<Rightarrow> string \<Rightarrow> string \<Rightarrow> string \<Rightarrow> ('w, logic_error + unit) state" where
  "logic_UpdatePassword e userid oldPassword newPassword1 newPassword2 =
     (if newPassword2 \<noteq> newPassword1 then State_Monad.return (Inl PasswordsDiffer)
      else do {
        user \<leftarrow> QueryUserById (le_db e) userid zero_user;
        (if u_ID user = 0 then State_Monad.return (Inl NoSuchUser)
         else if \<not> VerifyPwd (le_crypto e) (u_Password user) oldPassword then State_Monad.return (Inl WrongPassword)
         else do {
           pwd \<leftarrow> EncPassword (le_crypto e) newPassword1;
           (if pwd = [] then State_Monad.return (Inl SystemError)
            else or_fail (UpdateUserPassword (le_db e) (u_ID user) pwd) SystemError (\<lambda>_. State_Monad.return (Inr ())))
         })
      })"

definition logic_SearchUser :: "'w logic_env \<Rightarrow> string \<Rightarrow> ('w, logic_error + User list) state" where
  "logic_SearchUser e username = do {
     userList \<leftarrow> SearchUserByUsername (le_db e) username None;
     State_Monad.return (Inr (map user_reply (rows_of userList)))
   }"

section \<open>Groups, friends and pages\<close>

definition logic_SearchGroup :: "'w logic_env \<Rightarrow> string \<Rightarrow> ('w, logic_error + Group list) state" where
  "logic_SearchGroup e groupName = do {
     groupList \<leftarrow> SearchGroupByGroupName (le_db e) groupName None;
     State_Monad.return (Inr (map (\<lambda>val. \<lparr>pg_Id = g_ID val, pg_Userid = g_ID val, pg_GroupName = g_GroupName val,
        pg_Notice = g_Notice val, pg_CreateAt = format_rfc3339 (g_CreateAt val), pg_UpdateAt = format_rfc3339 (g_UpdateAt val)\<rparr>)
        (rows_of groupList)))
   }"

definition logic_GetGroupMsgByPage ::
  "'w logic_env \<Rightarrow> int \<Rightarrow> int \<Rightarrow> int \<Rightarrow> ('w, logic_error + GetGroupMsgByPageReply) state" where
  "logic_GetGroupMsgByPage e groupId current pageSize = do {
     msgList \<leftarrow> QueryGroupMessageByPage (le_db e) groupId None current pageSize;
     userList \<leftarrow> QueryGroupAllUser (le_db e) groupId None;
     State_Monad.return (Inr \<lparr>gp_Code = SuccessReplyCode, gp_MessageArr = map group_chat (rows_of msgList),
       gp_UserArr = map user_reply (rows_of userList)\<rparr>)
   }"

definition logic_GetFriendMsgByPage ::
  "'w logic_env \<Rightarrow> int \<Rightarrow> int \<Rightarrow> int \<Rightarrow> int \<Rightarrow> ('w, logic_error + GetFriendMsgByPageReply) state" where
  "logic_GetFriendMsgByPage e friendId userid current pageSize = do {
     msgList \<leftarrow> QueryFriendMessageByPage (le_db e) userid friendId None current pageSize;
     State_Monad.return (Inr \<lparr>fp_Code = SuccessReplyCode, fp_MessageArr = map friend_chat (rows_of msgList)\<rparr>)
   }"

text \<open>The notice of a new group is its name.\<close>

definition logic_CreateGroup :: "'w logic_env \<Rightarrow> Group \<Rightarrow> ('w, logic_error + Group) state" where
  "logic_CreateGroup e request = do {
     oldGroup \<leftarrow> QueryGroupByGroupName (le_db e) (pg_GroupName request) zero_group;
     (if g_ID oldGroup \<noteq> 0 then State_Monad.return (Inl GroupNameUsed)
      else do {
        newGroup \<leftarrow> db_CreateGroup (le_db e) (zero_group\<lparr>g_Userid := pg_Userid request, g_GroupName := pg_GroupName request,
           g_Notice := pg_GroupName request\<rparr>);
        State_Monad.return (if g_ID newGroup = 0 then Inl CreateGroupFailed
          else Inr \<lparr>pg_Id = g_ID newGroup, pg_Userid = g_Userid newGroup, pg_GroupName = g_GroupName newGroup,
            pg_Notice = g_Notice newGroup, pg_CreateAt = format_rfc3339 (g_CreateAt newGroup),
            pg_UpdateAt = format_rfc3339 (g_UpdateAt newGroup)\<rparr>)
      })
   }"

definition logic_AddGroup :: "'w logic_env \<Rightarrow> int \<Rightarrow> int \<Rightarrow> ('w, logic_error + unit) state" where
  "logic_AddGroup e userid groupId =
     or_fail (get_string e (UseridMapServerId userid)) AddFailed (\<lambda>serverIdByte. do {
       user \<leftarrow> QueryUserById (le_db e) userid zero_user;
       relation \<leftarrow> CreateRelation (le_db e) (zero_relation\<lparr>r_Type := ''group'', r_ObjectA := userid, r_ObjectB := groupId\<rparr>);
       (if r_ID relation = 0 then State_Monad.return (Inl AddFailed)
        else do {
          groupIdList \<leftarrow> QueryUserAllGroupId (le_db e) (u_ID user);
          or_fail (connect_group e (u_ID user) serverIdByte groupId) SystemError (\<lambda>_.
          or_fail (set_string e (UserGroupList (u_ID user)) (marshal_ids groupIdList) 0) SystemError (\<lambda>_.
          State_Monad.return (Inr ())))
        })
     })"

definition logic_AddFriend :: "'w logic_env \<Rightarrow> int \<Rightarrow> int \<Rightarrow> ('w, logic_error + unit) state" where
  "logic_AddFriend e userid friendId = do {
     relation \<leftarrow> CreateRelation (le_db e) (zero_relation\<lparr>r_Type := ''friend'', r_ObjectA := userid, r_ObjectB := friendId\<rparr>);
     State_Monad.return (if r_ID relation = 0 then Inl AddFailed else Inr ())
   }"

section \<open>Publication of chat messages\<close>

definition friend_payload :: "ChatMessage \<Rightarrow> int \<Rightarrow> FriendMsg" where
  "friend_payload m belong = \<lparr>fm_Userid = cm_Userid m, fm_FriendId = cm_FriendId m, fm_Content = cm_Content m,
     fm_MessageType = cm_MessageType m, fm_CreateAt = cm_CreateAt m, fm_FriendName = cm_FriendName m,
     fm_FromUsername = cm_FromUsername m, fm_Avatar = cm_Avatar m, fm_Op = OpFriendMsgSend, fm_Belong = belong,
     fm_Watermark = cm_Watermark m\<rparr>"

definition group_payload :: "ChatMessage \<Rightarrow> GroupMsg" where
  "group_payload m = \<lparr>gm_Userid = cm_Userid m, gm_GroupId = cm_GroupId m, gm_Content = cm_Content m,
     gm_MessageType = cm_MessageType m, gm_CreateAt = cm_CreateAt m, gm_GroupName = cm_GroupName m,
     gm_FromUsername = cm_FromUsername m, gm_Avatar = cm_Avatar m, gm_Op = OpGroupMsgSend, gm_Watermark = cm_Watermark m\<rparr>"

definition rpc_Push :: "'w logic_env \<Rightarrow> ChatMessage option \<Rightarrow> ('w \<times> KafkaProducerConn, logic_error + unit) state" where
  "rpc_Push e msg =
     (case msg of
        None \<Rightarrow> State_Monad.return (Inl NilPointer)
      | Some m \<Rightarrow>
          or_fail (logic_Push (le_kafka e) (le_kafka_address e) (cm_FriendId m)
                    (enc_FriendMsg (friend_payload m (cm_FriendId m))) OpFriendMsgSend) SystemError (\<lambda>_.
          or_fail (logic_Push (le_kafka e) (le_kafka_address e) (cm_Userid m)
                    (enc_FriendMsg (friend_payload m (cm_Userid m))) OpFriendMsgSend) SystemError (\<lambda>_.
          State_Monad.return (Inr ()))))"

definition rpc_PushRoom :: "'w logic_env \<Rightarrow> ChatMessage option \<Rightarrow> ('w \<times> KafkaProducerConn, logic_error + unit) state" where
  "rpc_PushRoom e msg =
     (case msg of
        None \<Rightarrow> State_Monad.return (Inl NilPointer)
      | Some m \<Rightarrow>
          or_fail (logic_Push (le_kafka e) (le_kafka_address e) (cm_GroupId m) (enc_GroupMsg (group_payload m)) OpGroupMsgSend)
            SystemError (\<lambda>_. State_Monad.return (Inr ())))"

definition rpc_PushRoomCount :: "'w logic_env \<Rightarrow> int \<Rightarrow> ('w, logic_error + unit) state" where
  "rpc_PushRoomCount e groupId = do {
     countStr \<leftarrow> or_zero (hget e GroupOnlineUserCount (fmt_d groupId)) [];
     or_fail (PushGroupCount (le_redis e) (le_servers e) groupId (fst (Atoi countStr))) SystemError
       (\<lambda>_. State_Monad.return (Inr ()))
   }"

definition rpc_PushRoomInfo :: "'w logic_env \<Rightarrow> int \<Rightarrow> ('w, logic_error + unit) state" where
  "rpc_PushRoomInfo e groupId = push_group_status e 0 groupId"

end
