(* ===== verification/RedisFrame.thy ===== *)
theory RedisFrame
  imports RedisStore Effects
begin

text \<open>What the commands on Redis leave alone: a write every key but its own, a read everything.\<close>

text \<open>A lookup in a hash is answered, by a value or by nil.\<close>

definition hget_answers :: "'w redis_api \<Rightarrow> ('w \<Rightarrow> rstore) \<Rightarrow> bool" where
  "hget_answers api view \<longleftrightarrow> (\<forall>a k f w r w'. run_state (cmd_hget api a k f) w = (r, w') \<longrightarrow> is_hash (view w a k) \<longrightarrow>
     (\<forall>err. r \<noteq> ErrReply err))"

lemma hget_answersD:
  "hget_answers api view \<Longrightarrow> run_state (cmd_hget api a k f) w = (r, w') \<Longrightarrow> is_hash (view w a k) \<Longrightarrow> r \<noteq> ErrReply err"
  unfolding hget_answers_def by blast

context redis_server
begin

lemma keeps_other:
  assumes "l \<noteq> k"
  shows "keeps (\<lambda>w. store view env w l) (RedisLPUSH api env k v)"
    "keeps (\<lambda>w. store view env w l) (RedisSetString api env k v t)"
    "keeps (\<lambda>w. store view env w l) (RedisDelString api env k)"
    "keeps (\<lambda>w. store view env w l) (RedisHSet api env k f v)"
    "keeps (\<lambda>w. store view env w l) (RedisHINCRBY api env k f i)"
    "keeps (\<lambda>w. store view env w l) (RedisIsNotExistHSet api env k f v)"
    "keeps (\<lambda>w. store view env w l) (RedisHDel api env k f)"
proof -
  have chain: "view w1 = view w \<Longrightarrow> only_at view a k w1 w2 \<Longrightarrow> only_at view a k w w2" for w w1 w2 a
    by (simp add: only_at_def)
  have same: "view w1 = view w \<Longrightarrow> only_at view a k w w1" for w w1 a
    by (simp add: only_at_def)
  show "keeps (\<lambda>w. store view env w l) (RedisIsNotExistHSet api env k f v)"
    unfolding RedisIsNotExistHSet_def
    by (rule keepsI, erule with_client_other, rule assms)
       (auto dest!: hset_law dest: hget_law intro: chain same split: prod.splits if_splits)
  show "keeps (\<lambda>w. store view env w l) (RedisHDel api env k f)"
    unfolding RedisHDel_def
    by (rule keepsI, erule with_client_other, rule assms)
       (auto dest!: hdel_law dest: hget_law intro: chain same split: prod.splits if_splits)
  show "keeps (\<lambda>w. store view env w l) (RedisLPUSH api env k v)"
    unfolding RedisLPUSH_def
    by (rule keepsI, erule with_client_other, rule assms) (auto dest!: lpush_law split: prod.splits)
  show "keeps (\<lambda>w. store view env w l) (RedisSetString api env k v t)"
    unfolding RedisSetString_def
    by (rule keepsI, erule with_client_other, rule assms) (auto dest!: set_law split: prod.splits)
  show "keeps (\<lambda>w. store view env w l) (RedisDelString api env k)"
    unfolding RedisDelString_def
    by (rule keepsI, erule with_client_other, rule assms) (auto dest!: del_law split: prod.splits)
  show "keeps (\<lambda>w. store view env w l) (RedisHSet api env k f v)"
    unfolding RedisHSet_def
    by (rule keepsI, erule with_client_other, rule assms) (auto dest!: hset_law split: prod.splits)
  show "keeps (\<lambda>w. store view env w l) (RedisHINCRBY api env k f i)"
    unfolding RedisHINCRBY_def
    by (rule keepsI, erule with_client_other, rule assms) (auto dest!: hincrby_law split: prod.splits)
qed

lemma keeps_view:
  "keeps view (RedisGetString api env k)" "keeps view (RedisHGet api env k f)" "keeps view (RedisHGetAll api env k)"
  by (auto intro!: keepsI simp: RedisGetString_def RedisHGet_def RedisHGetAll_def with_client_def
      dest!: get_law hget_law hgetall_law split: sum.splits prod.splits)

lemma keeps_store: "keeps view m \<Longrightarrow> keeps (\<lambda>w. store view env w l) m"
  by (auto simp: keeps_def store_def split: sum.split)

lemma hset_new_exact:
  assumes "run_state (RedisIsNotExistHSet api env k f v) w = (Inr b, w')" and "hget_answers api view"
    and "is_hash (store view env w k)"
  shows "b \<longleftrightarrow> hashes view env w k f \<noteq> None \<and> hashes view env w k f \<noteq> Some []" and "is_hash (store view env w' k)"
    and "l \<noteq> k \<Longrightarrow> store view env w' l = store view env w l"
proof -
  obtain a old w1 where a: "GetRedisClientByKey env k = Inr a" and g: "run_state (cmd_hget api a k f) w = (old, w1)"
    and h: "run_state (cmd_hset api a k f v) w1 = (Val (), w')" and b: "b = (reply_val old \<noteq> [])"
    using assms(1) by (rule IsNotExistHSet_Inr)
  have ans: "old \<noteq> ErrReply err" for err
    using hget_answersD [OF assms(2) g] assms(3) a by (simp add: store_def)
  show "b \<longleftrightarrow> hashes view env w k f \<noteq> None \<and> hashes view env w k f \<noteq> Some []"
    using hget_law [OF g] ans b a by (cases old) (auto simp: reply_val_def hashes_route)
  show "is_hash (store view env w' k)"
    using hset_law [OF h] a by (simp add: store_def)
  show "l \<noteq> k \<Longrightarrow> store view env w' l = store view env w l"
    using hset_law [OF h] hget_law [OF g] only_at_store [OF _ a, of w w' l] by (simp add: only_at_def)
qed

lemma hdel_exact:
  assumes "run_state (RedisHDel api env k f) w = (Inr b, w')" and "hget_answers api view"
    and "is_hash (store view env w k)"
  shows "b \<longleftrightarrow> hashes view env w k f \<noteq> None \<and> hashes view env w k f \<noteq> Some []" and "is_hash (store view env w' k)"
    and "hashes view env w' = (if b then (hashes view env w)(k := (hashes view env w k)(f := None)) else hashes view env w)"
    and "l \<noteq> k \<Longrightarrow> store view env w' l = store view env w l"
proof -
  obtain a old w1 where a: "GetRedisClientByKey env k = Inr a" and g: "run_state (cmd_hget api a k f) w = (old, w1)"
    and b: "b = (reply_val old \<noteq> [])" and h: "if b then run_state (cmd_hdel api a k f) w1 = (Val (), w') else w' = w1"
    using assms(1) by (rule HDel_Inr)
  have same: "view w1 = view w"
    using hget_law [OF g] by simp
  have ans: "old \<noteq> ErrReply err" for err
    using hget_answersD [OF assms(2) g] assms(3) a by (simp add: store_def)
  show "b \<longleftrightarrow> hashes view env w k f \<noteq> None \<and> hashes view env w k f \<noteq> Some []"
    using hget_law [OF g] ans b a by (cases old) (auto simp: reply_val_def hashes_route)
  show "is_hash (store view env w' k)"
    using hdel_law [of a k f w1 "Val ()" w'] h a assms(3) same by (cases b) (auto simp: store_def)
  show "l \<noteq> k \<Longrightarrow> store view env w' l = store view env w l"
    using hdel_law [of a k f w1 "Val ()" w'] h same only_at_store [OF _ a, of w w' l] store_same [OF same]
    by (cases b) (auto simp: only_at_def)
  show "hashes view env w' = (if b then (hashes view env w)(k := (hashes view env w k)(f := None)) else hashes view env w)"
    using hashes.hdel_value [of env k f w w'] hashes.hdel_none [of env k f w w'] assms(1) by (cases b) simp_all
qed

end

end
