(* ===== verification/Presence.thy ===== *)
theory Presence
  imports Logic RedisFrame
begin

text \<open>
  The number of online members that the logic layer keeps for every group in Redis, beside the hash of the
  members that are online: what connecting and disconnecting users change of the two, exactly, from any state, and that
  a join of a user who was never connected puts them out of step.
\<close>

section \<open>What the logic layer relies on\<close>

locale logic_layer = rs: redis_server "le_redis e" view for e :: "'w logic_env" and view :: "'w \<Rightarrow> rstore" +
  assumes First_user_keeps [kept]: "keeps view (g_First_user (le_db e) q u)"
    and First_group_keeps [kept]: "keeps view (g_First_group (le_db e) q g)"
    and First_relation_keeps [kept]: "keeps view (g_First_relation (le_db e) q r)"
    and Find_users_keeps [kept]: "keeps view (g_Find_users (le_db e) q us)"
    and Find_relations_keeps [kept]: "keeps view (g_Find_relations (le_db e) q rs)"
    and Create_user_keeps [kept]: "keeps view (g_Create_user (le_db e) u)"
    and Create_relation_keeps [kept]: "keeps view (g_Create_relation (le_db e) r)"
    and Generate_keeps [kept]: "keeps view (c_GenerateFromPassword (le_crypto e) pwd c)"
    and Random_keeps [kept]: "keeps view (c_ReadRandom (le_crypto e) n)"




section \<open>Members online\<close>

text \<open>The part of Redis that holds the presence of group members.\<close>

definition online :: "('w \<Rightarrow> rstore) \<Rightarrow> RedisEnv \<Rightarrow> 'w \<Rightarrow> int \<Rightarrow> string \<rightharpoonup> string" where
  "online view env w g = hashes view env w (GroupOnlineUser g)"

definition online_count :: "('w \<Rightarrow> rstore) \<Rightarrow> RedisEnv \<Rightarrow> 'w \<Rightarrow> int \<Rightarrow> int" where
  "online_count view env w g = field_num (hashes view env w GroupOnlineUserCount) (fmt_d g)"

text \<open>
  A user, identified by the decimal form of the id, is online on a connect server when it is filed with a
  server id that is not empty: the code takes an empty entry for an absent one.
\<close>

definition filed :: "string option \<Rightarrow> bool" where
  "filed v \<longleftrightarrow> v \<noteq> None \<and> v \<noteq> Some []"

text \<open>The counts are far from the limits of \<^verbatim>\<open>int64\<close> and the keys of the groups hold hashes.\<close>

definition presence_typed :: "('w \<Rightarrow> rstore) \<Rightarrow> RedisEnv \<Rightarrow> 'w \<Rightarrow> bool" where
  "presence_typed view env w \<longleftrightarrow> (\<forall>g. is_hash (store view env w (GroupOnlineUser g)) \<and> \<bar>online_count view env w g\<bar> < 2 ^ 62)"

lemma presence_keys [simp]:
  "GroupOnlineUser g = GroupOnlineUser g' \<longleftrightarrow> g = g'" "GroupOnlineUser g \<noteq> GroupOnlineUserCount"
  "GroupOnlineUserCount \<noteq> GroupOnlineUser g"
  "GroupOnlineUser g \<noteq> StatusMsgQueue" "GroupOnlineUserCount \<noteq> StatusMsgQueue"
  "GroupOnlineUser g \<noteq> AllOnlineUser" "GroupOnlineUserCount \<noteq> AllOnlineUser"
  "GroupOnlineUser g \<noteq> UserGroupList u" "GroupOnlineUserCount \<noteq> UserGroupList u"
  "GroupOnlineUser g \<noteq> UserFriendList u" "GroupOnlineUserCount \<noteq> UserFriendList u"
  "GroupOnlineUser g \<noteq> UseridMapServerId u" "GroupOnlineUserCount \<noteq> UseridMapServerId u"
  "StatusMsgQueue \<noteq> GroupOnlineUser g" "StatusMsgQueue \<noteq> GroupOnlineUserCount"
  "AllOnlineUser \<noteq> GroupOnlineUser g" "AllOnlineUser \<noteq> GroupOnlineUserCount"
  "UserGroupList u \<noteq> GroupOnlineUser g" "UserGroupList u \<noteq> GroupOnlineUserCount"
  "UserFriendList u \<noteq> GroupOnlineUser g" "UserFriendList u \<noteq> GroupOnlineUserCount"
  "UseridMapServerId u \<noteq> GroupOnlineUser g" "UseridMapServerId u \<noteq> GroupOnlineUserCount"
  by (simp_all add: key_defs)

definition presence :: "('w \<Rightarrow> rstore) \<Rightarrow> RedisEnv \<Rightarrow> 'w \<Rightarrow> (int \<Rightarrow> rval option) \<times> rval option" where
  "presence view env w = (\<lambda>g. store view env w (GroupOnlineUser g), store view env w GroupOnlineUserCount)"

lemma presence_online: "presence view env w' = presence view env w \<Longrightarrow> online view env w' = online view env w"
  by (simp add: presence_def online_def hashes_def fun_eq_iff)

lemma presence_count: "presence view env w' = presence view env w \<Longrightarrow> online_count view env w' = online_count view env w"
  by (simp add: presence_def online_count_def hashes_def fun_eq_iff)

lemma presence_hash: "presence view env w' = presence view env w \<Longrightarrow> store view env w' (GroupOnlineUser g) = store view env w (GroupOnlineUser g)"
  by (simp add: presence_def fun_eq_iff)

lemma presence_typed_eq: "presence view env w' = presence view env w \<Longrightarrow> presence_typed view env w' = presence_typed view env w"
  using presence_hash [of view env w' w] presence_count [of view env w' w] by (simp add: presence_typed_def)

lemma keeps_presence:
  assumes "\<And>l. (\<exists>g. l = GroupOnlineUser g) \<or> l = GroupOnlineUserCount \<Longrightarrow> keeps (\<lambda>w. store view env w l) m"
  shows "keeps (presence view env) m"
  using assms unfolding keeps_def presence_def by (simp add: fun_eq_iff)

definition offline_notice :: "int \<Rightarrow> int \<Rightarrow> string" where
  "offline_notice u f = msg_body OPFriendOffOnlineSend
     (enc_FriendOfflineMsg \<lparr>ff_FriendId = u, ff_Op = OPFriendOffOnlineSend, ff_Belong = f\<rparr>)"

context logic_layer
begin

abbreviation env :: RedisEnv where "env \<equiv> le_servers e"

lemma view_presence: "keeps view m \<Longrightarrow> keeps (presence view env) m"
  by (rule keeps_presence) (rule rs.keeps_store)

lemma push_keeps [kept]:
  "keeps (presence view env) (PushUserInfo (le_redis e) env u n f op)"
  "keeps (presence view env) (PushGroupInfo (le_redis e) env u g c us ids)"
  "keeps (presence view env) (PushGroupCount (le_redis e) env g c)"
proof -
  have "keeps (presence view env) (RedisLPUSH (le_redis e) env StatusMsgQueue v)" for v
    by (rule keeps_presence, rule rs.keeps_other(1)) (elim disjE exE; simp)
  then show
    "keeps (presence view env) (PushUserInfo (le_redis e) env u n f op)"
    "keeps (presence view env) (PushGroupInfo (le_redis e) env u g c us ids)"
    "keeps (presence view env) (PushGroupCount (le_redis e) env g c)"
    unfolding PushUserInfo_def PushGroupInfo_def PushGroupCount_def by simp_all
qed

lemma queries_keep [kept]:
  "keeps view (QueryGroupAllUser (le_db e) g us)" "keeps view (QueryUserAllGroupId (le_db e) u)"
  "keeps view (QueryUserAllFriendId (le_db e) u)" "keeps view (QueryUserById (le_db e) i us')"
  "keeps view (QueryUserByUserName (le_db e) n us')" "keeps view (CreateRelation (le_db e) r)"
  unfolding QueryGroupAllUser_def QueryUserAllGroupId_def QueryUserAllFriendId_def QueryUserById_def
    QueryUserByUserName_def CreateRelation_def Let_def case_prod_beta
  by (intro kept allI impI)+

lemma push_group_status_keeps [kept]: "keeps (presence view env) (push_group_status e u g)"
  unfolding push_group_status_def
  by (intro kept view_presence [OF queries_keep(1)] view_presence [OF rs.keeps_view(2)] view_presence [OF rs.keeps_view(3)])

lemma hincrby_count:
  assumes "run_state (hincrby e GroupOnlineUserCount (fmt_d g) d) w = (Inr x, w')"
  shows "online view env w' = online view env w"
    and "is_hash (store view env w' (GroupOnlineUser h)) = is_hash (store view env w (GroupOnlineUser h))"
    and "online_count view env w' h = (if h = g then fst (Atoi (fmt_d (online_count view env w g + d))) else online_count view env w h)"
proof -
  note v = rs.hashes.hincr_value [OF assms]
  show "online view env w' = online view env w"
    by (simp add: online_def fun_eq_iff v)
  show "is_hash (store view env w' (GroupOnlineUser h)) = is_hash (store view env w (GroupOnlineUser h))"
    using keepsD [OF rs.keeps_other(5) assms, of "GroupOnlineUser h"] by simp
  show "online_count view env w' h = (if h = g then fst (Atoi (fmt_d (online_count view env w g + d))) else online_count view env w h)"
    by (simp add: online_count_def v field_num_def)
qed

text \<open>One change of the hash of a group, followed by the change of its count that goes with it.\<close>

lemma count_step:
  assumes "online view env w1 = (online view env w)(g := m)" and "online_count view env w1 = online_count view env w"
    and "\<And>h. is_hash (store view env w1 (GroupOnlineUser h))" and "\<bar>online_count view env w g\<bar> \<le> 2 ^ 62" "\<bar>d\<bar> \<le> 1"
    and "run_state (if c then hincrby e GroupOnlineUserCount (fmt_d g) d else State_Monad.return (Inr ())) w1 = (Inr (), w2)"
    and "run_state (push_group_status e u g) w2 = (Inr x, w')"
  shows "online view env w' = (online view env w)(g := m)"
    and "online_count view env w' = (online_count view env w)(g := online_count view env w g + (if c then d else 0))"
    and "\<And>h. is_hash (store view env w' (GroupOnlineUser h))"
proof -
  have same: "presence view env w' = presence view env w2"
    using keepsD [OF push_group_status_keeps assms(7)] .
  have inc: "run_state (hincrby e GroupOnlineUserCount (fmt_d g) d) w1 = (Inr (), w2)" if c
    using assms(6) that by simp
  have "online view env w2 = online view env w1"
    using assms(6) hincrby_count(1) [OF inc] by (cases c) simp_all
  then show "online view env w' = (online view env w)(g := m)"
    using presence_online [OF same] assms(1) by simp
  have "Atoi (fmt_d (online_count view env w g + d)) = (online_count view env w g + d, True)"
    using assms(4,5) by (intro Atoi_fmt_d) auto
  then have "online_count view env w2 h = (if h = g then online_count view env w g + (if c then d else 0) else online_count view env w h)" for h
    using assms(2,6) hincrby_count(3) [OF inc, of h] by (cases c) auto
  then show "online_count view env w' = (online_count view env w)(g := online_count view env w g + (if c then d else 0))"
    unfolding presence_count [OF same] by (simp add: fun_eq_iff)
  show "is_hash (store view env w' (GroupOnlineUser h))" for h
    using assms(3,6) hincrby_count(2) [OF inc, of h] presence_hash [OF same, of h] by (cases c) simp_all
qed

lemma connect_group_presence:
  assumes "run_state (connect_group e u srv g) w = (Inr x, w')" and "hget_answers (le_redis e) view"
    and "\<And>h. is_hash (store view env w (GroupOnlineUser h))" and "\<bar>online_count view env w g\<bar> \<le> 2 ^ 62"
  shows "online view env w' = (online view env w)(g := (online view env w g)(fmt_d u \<mapsto> srv))"
    and "online_count view env w' = (online_count view env w)(g := online_count view env w g + (if filed (online view env w g (fmt_d u)) then 0 else 1))"
    and "\<And>h. is_hash (store view env w' (GroupOnlineUser h))"
proof -
  obtain b w1 w2 where h: "run_state (hset_new e (GroupOnlineUser g) (fmt_d u) srv) w = (Inr b, w1)"
    and i: "run_state (if \<not> b then hincrby e GroupOnlineUserCount (fmt_d g) 1 else State_Monad.return (Inr ())) w1 = (Inr (), w2)"
    and p: "run_state (push_group_status e u g) w2 = (Inr x, w')"
    using assms(1) by (auto simp: connect_group_def or_fail_Inr)
  let ?m = "(online view env w g)(fmt_d u \<mapsto> srv)"
  note ex = rs.hset_new_exact [OF h assms(2,3)]
  note val = rs.hashes.hset_new_value [OF h]
  have on: "online view env w1 = (online view env w)(g := ?m)" and cnt: "online_count view env w1 = online_count view env w"
    by (rule ext, simp add: online_def val, rule ext, simp add: online_count_def val)
  have hash: "is_hash (store view env w1 (GroupOnlineUser h))" for h
    using ex(2) ex(3) [of "GroupOnlineUser h"] assms(3) by (cases "h = g") simp_all
  have b: "b = filed (online view env w g (fmt_d u))"
    using ex(1) by (simp add: filed_def online_def)
  note step = count_step [OF on cnt hash assms(4) _ i p]
  show "online view env w' = (online view env w)(g := ?m)" "\<And>h. is_hash (store view env w' (GroupOnlineUser h))"
    "online_count view env w' = (online_count view env w)(g := online_count view env w g + (if filed (online view env w g (fmt_d u)) then 0 else 1))"
    using step b by simp_all
qed

lemma disconnect_group_presence:
  assumes "run_state (disconnect_group e u g) w = (Inr x, w')" and "hget_answers (le_redis e) view"
    and "\<And>h. is_hash (store view env w (GroupOnlineUser h))" and "\<bar>online_count view env w g\<bar> \<le> 2 ^ 62"
  shows "online view env w' = (if filed (online view env w g (fmt_d u)) then (online view env w)(g := (online view env w g)(fmt_d u := None))
      else online view env w)"
    and "online_count view env w' = (online_count view env w)(g := online_count view env w g - (if filed (online view env w g (fmt_d u)) then 1 else 0))"
    and "\<And>h. is_hash (store view env w' (GroupOnlineUser h))"
proof -
  obtain b w1 w2 where h: "run_state (hdel e (GroupOnlineUser g) (fmt_d u)) w = (Inr b, w1)"
    and i: "run_state (if b then hincrby e GroupOnlineUserCount (fmt_d g) (-1) else State_Monad.return (Inr ())) w1 = (Inr (), w2)"
    and p: "run_state (push_group_status e u g) w2 = (Inr x, w')"
    using assms(1) by (auto simp: disconnect_group_def or_fail_Inr)
  let ?m = "if b then (online view env w g)(fmt_d u := None) else online view env w g"
  note ex = rs.hdel_exact [OF h assms(2,3)]
  have on: "online view env w1 = (online view env w)(g := ?m)" and cnt: "online_count view env w1 = online_count view env w"
    by (rule ext, simp add: online_def ex(3), rule ext, simp add: online_count_def ex(3))
  have hash: "is_hash (store view env w1 (GroupOnlineUser h))" for h
    using ex(2) ex(4) [of "GroupOnlineUser h"] assms(3) by (cases "h = g") simp_all
  have b: "b = filed (online view env w g (fmt_d u))"
    using ex(1) by (simp add: filed_def online_def)
  note step = count_step [OF on cnt hash assms(4) _ i p]
  show "\<And>h. is_hash (store view env w' (GroupOnlineUser h))"
    "online view env w' = (if filed (online view env w g (fmt_d u)) then (online view env w)(g := (online view env w g)(fmt_d u := None))
      else online view env w)"
    "online_count view env w' = (online_count view env w)(g := online_count view env w g - (if filed (online view env w g (fmt_d u)) then 1 else 0))"
    using step b by (auto simp: fun_eq_iff)
qed

lemma groups_keep:
  assumes "l \<noteq> GroupOnlineUser g" "l \<noteq> GroupOnlineUserCount" "l \<noteq> StatusMsgQueue"
  shows "keeps (\<lambda>w. store view env w l) (connect_group e u srv g)"
    "keeps (\<lambda>w. store view env w l) (disconnect_group e u g)"
proof -
  have "keeps (\<lambda>w. store view env w l) (push_group_status e u g)"
    unfolding push_group_status_def PushGroupInfo_def
    by (intro kept rs.keeps_store [OF queries_keep(1)] rs.keeps_store [OF rs.keeps_view(2)]
        rs.keeps_store [OF rs.keeps_view(3)] rs.keeps_other(1) assms)
  then show "keeps (\<lambda>w. store view env w l) (connect_group e u srv g)"
    "keeps (\<lambda>w. store view env w l) (disconnect_group e u g)"
    unfolding connect_group_def disconnect_group_def
    by (intro kept rs.keeps_other(5) rs.keeps_other(6) rs.keeps_other(7) assms; simp)+
qed

text \<open>The loops over the groups of a user; a group that comes again is found as the first visit left it.\<close>

lemma connect_loop:
  assumes "run_state (for_each (connect_group e u srv) gs) w = (Inr x, w')" and "hget_answers (le_redis e) view"
    and "presence_typed view env w" and "srv \<noteq> []"
  shows "online view env w' = (\<lambda>g. if g \<in> set gs then (online view env w g)(fmt_d u \<mapsto> srv) else online view env w g)
    \<and> online_count view env w' = (\<lambda>g. online_count view env w g + (if g \<in> set gs \<and> \<not> filed (online view env w g (fmt_d u)) then 1 else 0))"
proof -
  let ?on = "\<lambda>ys g. if g \<in> set ys then (online view env w g)(fmt_d u \<mapsto> srv) else online view env w g"
  let ?cnt = "\<lambda>ys g. online_count view env w g + (if g \<in> set ys \<and> \<not> filed (online view env w g (fmt_d u)) then 1 else 0)"
  have srv: "filed (Some srv)"
    using assms(4) by (simp add: filed_def)
  have typed: "is_hash (store view env w (GroupOnlineUser g))" "\<bar>online_count view env w g\<bar> < 2 ^ 62" for g
    using assms(3) by (simp_all add: presence_typed_def)
  have "online view env w' = ?on gs \<and> online_count view env w' = ?cnt gs \<and> (\<forall>h. is_hash (store view env w' (GroupOnlineUser h)))"
  proof (rule for_each_inv [OF assms(1), where P = "\<lambda>ys v. online view env v = ?on ys \<and> online_count view env v = ?cnt ys
        \<and> (\<forall>h. is_hash (store view env v (GroupOnlineUser h)))"])
    fix ys g v w1 w2
    assume P: "online view env w1 = ?on ys \<and> online_count view env w1 = ?cnt ys \<and> (\<forall>h. is_hash (store view env w1 (GroupOnlineUser h)))"
      and run: "run_state (connect_group e u srv g) w1 = (Inr v, w2)"
    have "\<bar>online_count view env w1 g\<bar> \<le> 2 ^ 62"
      using P typed(2) [of g] by auto
    note step = connect_group_presence [OF run assms(2) _ this]
    show "online view env w2 = ?on (ys @ [g]) \<and> online_count view env w2 = ?cnt (ys @ [g]) \<and> (\<forall>h. is_hash (store view env w2 (GroupOnlineUser h)))"
      using P step srv by (auto simp: fun_eq_iff)
  qed (use typed in simp)
  then show ?thesis
    by blast
qed

lemma disconnect_loop:
  assumes "run_state (for_each (disconnect_group e u) gs) w = (Inr x, w')" and "hget_answers (le_redis e) view"
    and "presence_typed view env w"
  shows "online view env w' = (\<lambda>g. if g \<in> set gs \<and> filed (online view env w g (fmt_d u))
        then (online view env w g)(fmt_d u := None) else online view env w g)
    \<and> online_count view env w' = (\<lambda>g. online_count view env w g - (if g \<in> set gs \<and> filed (online view env w g (fmt_d u)) then 1 else 0))"
proof -
  let ?on = "\<lambda>ys g. if g \<in> set ys \<and> filed (online view env w g (fmt_d u)) then (online view env w g)(fmt_d u := None) else online view env w g"
  let ?cnt = "\<lambda>ys g. online_count view env w g - (if g \<in> set ys \<and> filed (online view env w g (fmt_d u)) then 1 else 0)"
  have typed: "is_hash (store view env w (GroupOnlineUser g))" "\<bar>online_count view env w g\<bar> < 2 ^ 62" for g
    using assms(3) by (simp_all add: presence_typed_def)
  have "online view env w' = ?on gs \<and> online_count view env w' = ?cnt gs \<and> (\<forall>h. is_hash (store view env w' (GroupOnlineUser h)))"
  proof (rule for_each_inv [OF assms(1), where P = "\<lambda>ys v. online view env v = ?on ys \<and> online_count view env v = ?cnt ys
        \<and> (\<forall>h. is_hash (store view env v (GroupOnlineUser h)))"])
    fix ys g v w1 w2
    assume P: "online view env w1 = ?on ys \<and> online_count view env w1 = ?cnt ys \<and> (\<forall>h. is_hash (store view env w1 (GroupOnlineUser h)))"
      and run: "run_state (disconnect_group e u g) w1 = (Inr v, w2)"
    have "\<bar>online_count view env w1 g\<bar> \<le> 2 ^ 62"
      using P typed(2) [of g] by auto
    note step = disconnect_group_presence [OF run assms(2) _ this]
    show "online view env w2 = ?on (ys @ [g]) \<and> online_count view env w2 = ?cnt (ys @ [g]) \<and> (\<forall>h. is_hash (store view env w2 (GroupOnlineUser h)))"
      using P step by (auto simp: fun_eq_iff filed_def)
  qed (use typed in simp)
  then show ?thesis
    by blast
qed

lemma set_keeps:
  "(\<And>g. l \<noteq> GroupOnlineUser g) \<Longrightarrow> l \<noteq> GroupOnlineUserCount \<Longrightarrow> keeps (presence view env) (set_string e l v t)"
  "(\<And>g. l \<noteq> GroupOnlineUser g) \<Longrightarrow> l \<noteq> GroupOnlineUserCount \<Longrightarrow> keeps (presence view env) (hset e l f v)"
  by (rule keeps_presence, rule rs.keeps_other, metis)+

lemma get_string_value: "run_state (get_string e k) w = (Inr s, w') \<Longrightarrow> s = str_at (store view env w k)"
  by (rule rs.strings.get_value)

lemma logic_Connect_run:
  assumes "run_state (logic_Connect e tok srv) w = (Inr uid, w')"
  obtains res groups friends name w0 w1 w2 w3 w4 w5 w6 w7 where
    "run_state (get_string e (SESSION tok)) w = (Inr res, w0)"
    "uid = u_ID (fst (Unmarshal dec_user res zero_user))"
    "run_state (set_string e (UseridMapServerId uid) srv 0) w0 = (Inr (), w1)"
    "run_state (QueryUserAllGroupId (le_db e) uid) w1 = (groups, w2)"
    "run_state (QueryUserAllFriendId (le_db e) uid) w2 = (friends, w3)"
    "run_state (hset e AllOnlineUser (fmt_d uid) ''on'') w3 = (Inr (), w4)"
    "run_state (for_each (connect_group e uid srv) (rows_of groups)) w4 = (Inr (), w5)"
    "run_state (set_string e (UserGroupList uid) (marshal_ids groups) 0) w5 = (Inr (), w6)"
    "run_state (for_each (\<lambda>val. PushUserInfo (le_redis e) env uid name val OpFriendOnlineSend) (rows_of friends)) w6 = (Inr (), w7)"
    "run_state (set_string e (UserFriendList uid) (marshal_ids friends) 0) w7 = (Inr (), w')"
  using assms by (auto simp: logic_Connect_def or_fail_Inr bind_run Let_def simp del: run_state_bind split: if_splits)

text \<open>What the loop over the groups changes is all that \<^verbatim>\<open>Connect\<close> changes of the presence of group members.\<close>

lemma connect_presence:
  assumes "run_state (logic_Connect e tok srv) w = (Inr uid, w')"
    and "hget_answers (le_redis e) view" and "presence_typed view env w" and "srv \<noteq> []"
  obtains groups w0 w1 w2 res where
    "run_state (get_string e (SESSION tok)) w = (Inr res, w0)" "uid = u_ID (fst (Unmarshal dec_user res zero_user))"
    "run_state (set_string e (UseridMapServerId uid) srv 0) w0 = (Inr (), w1)"
    "run_state (QueryUserAllGroupId (le_db e) uid) w1 = (groups, w2)"
    "hashes view env w' AllOnlineUser (fmt_d uid) = Some ''on''"
    "store view env w' (UserGroupList uid) = Some (RStr (marshal_ids groups))"
    "online view env w' = (\<lambda>g. if g \<in> set (rows_of groups) then (online view env w g)(fmt_d uid \<mapsto> srv) else online view env w g)"
    "online_count view env w' = (\<lambda>g. online_count view env w g + (if g \<in> set (rows_of groups) \<and> \<not> filed (online view env w g (fmt_d uid)) then 1 else 0))"
proof -
  obtain res groups friends name w0 w1 w2 w3 w4 w5 w6 w7 where r:
    "run_state (get_string e (SESSION tok)) w = (Inr res, w0)"
    "uid = u_ID (fst (Unmarshal dec_user res zero_user))"
    "run_state (set_string e (UseridMapServerId uid) srv 0) w0 = (Inr (), w1)"
    "run_state (QueryUserAllGroupId (le_db e) uid) w1 = (groups, w2)"
    "run_state (QueryUserAllFriendId (le_db e) uid) w2 = (friends, w3)"
    "run_state (hset e AllOnlineUser (fmt_d uid) ''on'') w3 = (Inr (), w4)"
    "run_state (for_each (connect_group e uid srv) (rows_of groups)) w4 = (Inr (), w5)"
    "run_state (set_string e (UserGroupList uid) (marshal_ids groups) 0) w5 = (Inr (), w6)"
    "run_state (for_each (\<lambda>val. PushUserInfo (le_redis e) env uid name val OpFriendOnlineSend) (rows_of friends)) w6 = (Inr (), w7)"
    "run_state (set_string e (UserFriendList uid) (marshal_ids friends) 0) w7 = (Inr (), w')"
    using assms(1) by (rule logic_Connect_run)
  have before: "presence view env w4 = presence view env w"
    using keepsD [OF view_presence [OF rs.keeps_view(1)] r(1)] keepsD [OF set_keeps(1) r(3)]
      keepsD [OF view_presence [OF queries_keep(2)] r(4)] keepsD [OF view_presence [OF queries_keep(3)] r(5)]
      keepsD [OF set_keeps(2) r(6)] by simp
  have after: "presence view env w' = presence view env w5"
    using keepsD [OF set_keeps(1) r(8)] keepsD [OF keeps_for_each [OF push_keeps(1)] r(9)] keepsD [OF set_keeps(1) r(10)] by simp
  have loop: "online view env w5 = (\<lambda>g. if g \<in> set (rows_of groups) then (online view env w g)(fmt_d uid \<mapsto> srv) else online view env w g)"
    "online_count view env w5 = (\<lambda>g. online_count view env w g + (if g \<in> set (rows_of groups) \<and> \<not> filed (online view env w g (fmt_d uid)) then 1 else 0))"
    using connect_loop [OF r(7) assms(2) presence_typed_eq [OF before, THEN iffD2, OF assms(3)] assms(4)]
    unfolding presence_online [OF before] presence_count [OF before] by simp_all
  have push: "keeps (\<lambda>w. store view env w l) (PushUserInfo (le_redis e) env a n f op)" if "l \<noteq> StatusMsgQueue" for l a n f op
    unfolding PushUserInfo_def using that by (rule rs.keeps_other(1))
  have list: "store view env w' (UserGroupList uid) = Some (RStr (marshal_ids groups))"
    using rs.strings.put_value [OF r(8)] keepsD [OF keeps_for_each [OF push] r(9), of "UserGroupList uid"]
      keepsD [OF rs.keeps_other(2) r(10), of "UserGroupList uid"] by (simp add: key_defs)
  have "store view env w' AllOnlineUser = store view env w4 AllOnlineUser"
    using keepsD [OF keeps_for_each [OF groups_keep(1)] r(7), of AllOnlineUser]
      keepsD [OF rs.keeps_other(2) r(8), of AllOnlineUser] keepsD [OF keeps_for_each [OF push] r(9), of AllOnlineUser]
      keepsD [OF rs.keeps_other(2) r(10), of AllOnlineUser] by (simp add: key_defs)
  then have "hashes view env w' AllOnlineUser (fmt_d uid) = Some ''on''"
    using rs.hashes.hset_value [OF r(6)] by (simp add: hashes_def fun_eq_iff)
  then show ?thesis
    using that [OF r(1-4) _ list] loop unfolding presence_online [OF after] presence_count [OF after] by blast
qed

text \<open>The queue of status messages.\<close>

abbreviation statuses :: "'w \<Rightarrow> string list" where
  "statuses \<equiv> queue_at view env StatusMsgQueue"

lemma statuses_keep: "keeps (\<lambda>w. store view env w StatusMsgQueue) m \<Longrightarrow> run_state m w = (r, w') \<Longrightarrow> statuses w' = statuses w"
  using keepsD by (fastforce simp: queue_at_def)

lemma push_group_status_one:
  assumes "run_state (push_group_status e u g) w = (Inr x, w')"
  shows "\<exists>m. statuses w' = statuses w @ [m]"
proof -
  obtain us w1 c w2 kvs w3 where r: "run_state (QueryGroupAllUser (le_db e) g None) w = (us, w1)"
    "run_state (or_zero (hget e GroupOnlineUserCount (fmt_d g)) []) w1 = (c, w2)"
    "run_state (hgetall e (GroupOnlineUser g)) w2 = (Inr kvs, w3)"
    "run_state (PushGroupInfo (le_redis e) env u g (fst (Atoi c)) us (ids_of kvs)) w3 = (Inr (), w')"
    using assms by (auto simp: push_group_status_def or_fail_Inr bind_run simp del: run_state_bind)
  have "statuses w3 = statuses w"
    using statuses_keep [OF rs.keeps_store [OF queries_keep(1)] r(1)]
      statuses_keep [OF keeps_or_zero [OF rs.keeps_store [OF rs.keeps_view(2)]] r(2)]
      statuses_keep [OF rs.keeps_store [OF rs.keeps_view(3)] r(3)] by simp
  then show ?thesis
    using rs.queue.push_pending [OF r(4) [unfolded PushGroupInfo_def]] by auto
qed

lemma disconnect_group_one:
  assumes "run_state (disconnect_group e u g) w = (Inr x, w')"
  shows "\<exists>m. statuses w' = statuses w @ [m]"
proof -
  obtain b w1 w2 where h: "run_state (hdel e (GroupOnlineUser g) (fmt_d u)) w = (Inr b, w1)"
    and i: "run_state (if b then hincrby e GroupOnlineUserCount (fmt_d g) (-1) else State_Monad.return (Inr ())) w1 = (Inr (), w2)"
    and p: "run_state (push_group_status e u g) w2 = (Inr x, w')"
    using assms by (auto simp: disconnect_group_def or_fail_Inr)
  have "statuses w1 = statuses w"
    by (rule statuses_keep [OF rs.keeps_other(7) h]) simp
  moreover have "statuses w2 = statuses w1"
    by (rule statuses_keep [OF _ i]) (intro kept rs.keeps_other(5), simp)
  ultimately show ?thesis
    using push_group_status_one [OF p] by simp
qed

lemma disconnect_loop_messages:
  assumes "run_state (for_each (disconnect_group e u) gs) w = (Inr x, w')"
  shows "\<exists>ms. length ms = length gs \<and> statuses w' = statuses w @ ms"
proof (rule for_each_inv [OF assms, where P = "\<lambda>ys v. \<exists>ms. length ms = length ys \<and> statuses v = statuses w @ ms"])
  fix ys :: "int list" and g v w1 w2
  assume P: "\<exists>ms. length ms = length ys \<and> statuses w1 = statuses w @ ms"
    and run: "run_state (disconnect_group e u g) w1 = (Inr v, w2)"
  then obtain ms m where "length ms = length ys" "statuses w1 = statuses w @ ms" "statuses w2 = statuses w1 @ [m]"
    using disconnect_group_one by blast
  then show "\<exists>ms. length ms = length (ys @ [g]) \<and> statuses w2 = statuses w @ ms"
    by (intro exI [of _ "ms @ [m]"]) simp
qed simp

lemma offline_loop:
  assumes "run_state (for_each (\<lambda>val. PushUserInfo (le_redis e) env u [] val OPFriendOffOnlineSend) fs) w = (Inr x, w')"
  shows "statuses w' = statuses w @ map (offline_notice u) fs"
proof (rule for_each_inv [OF assms, where P = "\<lambda>ys v. statuses v = statuses w @ map (offline_notice u) ys"])
  fix ys f v w1 w2
  assume P: "statuses w1 = statuses w @ map (offline_notice u) ys"
    and run: "run_state (PushUserInfo (le_redis e) env u [] f OPFriendOffOnlineSend) w1 = (Inr v, w2)"
  have "OPFriendOffOnlineSend \<noteq> OpFriendOnlineSend"
    by (simp add: op_defs)
  then have "run_state (RedisLPUSH (le_redis e) env StatusMsgQueue (offline_notice u f)) w1 = (Inr v, w2)"
    using run by (simp add: PushUserInfo_def offline_notice_def)
  from rs.queue.push_pending [OF this] P show "statuses w2 = statuses w @ map (offline_notice u) (ys @ [f])"
    by simp
qed simp

lemma logic_DisConnect_run:
  assumes "run_state (logic_DisConnect e uid) w = (Inr x, w')"
  obtains groups friends w1 w2 w3 w4 where
    "run_state (QueryUserAllGroupId (le_db e) uid) w = (groups, w1)"
    "run_state (QueryUserAllFriendId (le_db e) uid) w1 = (friends, w2)"
    "run_state (hset e AllOnlineUser (fmt_d uid) ''off'') w2 = (Inr (), w3)"
    "run_state (for_each (disconnect_group e uid) (rows_of groups)) w3 = (Inr (), w4)"
    "run_state (for_each (\<lambda>val. PushUserInfo (le_redis e) env uid [] val OPFriendOffOnlineSend) (rows_of friends)) w4 = (Inr (), w')"
  using assms by (auto simp: logic_DisConnect_def or_fail_Inr bind_run simp del: run_state_bind)

lemma disconnect_presence:
  assumes "run_state (logic_DisConnect e uid) w = (Inr x, w')"
    and "hget_answers (le_redis e) view" and "presence_typed view env w"
  obtains groups friends w1 w2 infos where
    "run_state (QueryUserAllGroupId (le_db e) uid) w = (groups, w1)"
    "run_state (QueryUserAllFriendId (le_db e) uid) w1 = (friends, w2)"
    "hashes view env w' AllOnlineUser (fmt_d uid) = Some ''off''"
    "online view env w' = (\<lambda>g. if g \<in> set (rows_of groups) \<and> filed (online view env w g (fmt_d uid))
       then (online view env w g)(fmt_d uid := None) else online view env w g)"
    "online_count view env w' = (\<lambda>g. online_count view env w g - (if g \<in> set (rows_of groups) \<and> filed (online view env w g (fmt_d uid)) then 1 else 0))"
    "length infos = length (rows_of groups)"
    "statuses w' = statuses w @ infos @ map (offline_notice uid) (rows_of friends)"
proof -
  obtain groups friends w1 w2 w3 w4 where r:
    "run_state (QueryUserAllGroupId (le_db e) uid) w = (groups, w1)"
    "run_state (QueryUserAllFriendId (le_db e) uid) w1 = (friends, w2)"
    "run_state (hset e AllOnlineUser (fmt_d uid) ''off'') w2 = (Inr (), w3)"
    "run_state (for_each (disconnect_group e uid) (rows_of groups)) w3 = (Inr (), w4)"
    "run_state (for_each (\<lambda>val. PushUserInfo (le_redis e) env uid [] val OPFriendOffOnlineSend) (rows_of friends)) w4 = (Inr (), w')"
    using assms(1) by (rule logic_DisConnect_run)
  have before: "presence view env w3 = presence view env w"
    using keepsD [OF view_presence [OF queries_keep(2)] r(1)] keepsD [OF view_presence [OF queries_keep(3)] r(2)]
      keepsD [OF set_keeps(2) r(3)] by simp
  have after: "presence view env w' = presence view env w4"
    using keepsD [OF keeps_for_each [OF push_keeps(1)] r(5)] by simp
  have loop: "online view env w4 = (\<lambda>g. if g \<in> set (rows_of groups) \<and> filed (online view env w g (fmt_d uid))
       then (online view env w g)(fmt_d uid := None) else online view env w g)"
    "online_count view env w4 = (\<lambda>g. online_count view env w g - (if g \<in> set (rows_of groups) \<and> filed (online view env w g (fmt_d uid)) then 1 else 0))"
    using disconnect_loop [OF r(4) assms(2) presence_typed_eq [OF before, THEN iffD2, OF assms(3)]]
    unfolding presence_online [OF before] presence_count [OF before] by simp_all
  have "statuses w3 = statuses w"
    using statuses_keep [OF rs.keeps_store [OF queries_keep(2)] r(1)] statuses_keep [OF rs.keeps_store [OF queries_keep(3)] r(2)]
      statuses_keep [OF rs.keeps_other(4) r(3)] by (simp add: key_defs)
  then obtain infos where infos: "length infos = length (rows_of groups)" "statuses w' = statuses w @ infos @ map (offline_notice uid) (rows_of friends)"
    using disconnect_loop_messages [OF r(4)] offline_loop [OF r(5)] by auto
  have push: "keeps (\<lambda>w. store view env w AllOnlineUser) (PushUserInfo (le_redis e) env a n f op)" for a n f op
    unfolding PushUserInfo_def by (rule rs.keeps_other(1)) (simp add: key_defs)
  have "store view env w' AllOnlineUser = store view env w3 AllOnlineUser"
    using keepsD [OF keeps_for_each [OF groups_keep(2)] r(4), of AllOnlineUser] keepsD [OF keeps_for_each [OF push] r(5)] by (simp add: key_defs)
  then have "hashes view env w' AllOnlineUser (fmt_d uid) = Some ''off''"
    using rs.hashes.hset_value [OF r(3)] by (simp add: hashes_def fun_eq_iff)
  then show ?thesis
    using that [OF r(1,2)] loop infos unfolding presence_online [OF after] presence_count [OF after] by blast
qed

text \<open>A member that is filed with an empty server id counts as absent and is counted again.\<close>

lemma empty_server_recounts:
  assumes "run_state (connect_group e u srv g) w = (Inr x, w')" and "online view env w g (fmt_d u) = Some []"
    and "- (2 ^ 63) \<le> online_count view env w g" "online_count view env w g < 2 ^ 63 - 1"
  shows "online_count view env w' g = online_count view env w g + 1 \<and> dom (online view env w' g) = dom (online view env w g)"
proof -
  obtain b w1 w2 where h: "run_state (hset_new e (GroupOnlineUser g) (fmt_d u) srv) w = (Inr b, w1)"
    and i: "run_state (if \<not> b then hincrby e GroupOnlineUserCount (fmt_d g) 1 else State_Monad.return (Inr ())) w1 = (Inr (), w2)"
    and p: "run_state (push_group_status e u g) w2 = (Inr x, w')"
    using assms(1) by (auto simp: connect_group_def or_fail_Inr)
  have "\<not> b"
    using h assms(2) by (cases b) (auto elim!: rs.IsNotExistHSet_Inr dest!: rs.hget_law
        simp: online_def rs.hashes_route reply_val_def split: reply.splits)
  then have i': "run_state (hincrby e GroupOnlineUserCount (fmt_d g) 1) w1 = (Inr (), w2)"
    using i by simp
  note val = rs.hashes.hset_new_value [OF h]
  have w1: "online view env w1 g = (online view env w g)(fmt_d u \<mapsto> srv)" "online_count view env w1 g = online_count view env w g"
    by (simp_all add: online_def online_count_def val)
  have "presence view env w' = presence view env w2"
    using keepsD [OF push_group_status_keeps p] .
  then have "online view env w' = online view env w2" "online_count view env w' = online_count view env w2"
    by (rule presence_online, rule presence_count)
  then show ?thesis
    using hincrby_count(1,3) [OF i'] w1 assms(2-4) Atoi_fmt_d [of "online_count view env w g + 1"]
    by (auto simp: insert_absorb domIff)
qed

lemma connect_group_files:
  assumes "run_state (connect_group e u srv g) w = (Inr x, w')"
  shows "online view env w' g (fmt_d u) = Some srv"
proof -
  obtain b w1 w2 where h: "run_state (hset_new e (GroupOnlineUser g) (fmt_d u) srv) w = (Inr b, w1)"
    and i: "run_state (if \<not> b then hincrby e GroupOnlineUserCount (fmt_d g) 1 else State_Monad.return (Inr ())) w1 = (Inr (), w2)"
    and p: "run_state (push_group_status e u g) w2 = (Inr x, w')"
    using assms by (auto simp: connect_group_def or_fail_Inr)
  have "online view env w1 g (fmt_d u) = Some srv"
    by (simp add: online_def rs.hashes.hset_new_value [OF h])
  moreover have "online view env w2 = online view env w1"
    using i hincrby_count(1) [of g 1 w1 "()" w2] by (cases b) simp_all
  moreover have "online view env w' = online view env w2"
    using keepsD [OF push_group_status_keeps p] by (rule presence_online)
  ultimately show ?thesis
    by simp
qed

lemma AddGroup_files_empty:
  assumes "run_state (logic_AddGroup e userid g) w = (Inr x, w')" and "store view env w (UseridMapServerId userid) = None"
  shows "\<exists>uid. online view env w' g (fmt_d uid) = Some []"
proof -
  obtain sid w1 user w2 rel w3 gl w4 w5 where r:
    "run_state (get_string e (UseridMapServerId userid)) w = (Inr sid, w1)"
    "run_state (QueryUserById (le_db e) userid zero_user) w1 = (user, w2)"
    "run_state (CreateRelation (le_db e) (zero_relation\<lparr>r_Type := ''group'', r_ObjectA := userid, r_ObjectB := g\<rparr>)) w2 = (rel, w3)"
    "run_state (QueryUserAllGroupId (le_db e) (u_ID user)) w3 = (gl, w4)"
    "run_state (connect_group e (u_ID user) sid g) w4 = (Inr (), w5)"
    "run_state (set_string e (UserGroupList (u_ID user)) (marshal_ids gl) 0) w5 = (Inr (), w')"
    using assms(1) by (auto simp: logic_AddGroup_def or_fail_Inr bind_run simp del: run_state_bind split: if_splits)
  have "sid = []"
    using rs.strings.get_value [OF r(1)] assms(2) by (simp add: str_at_def)
  moreover have "online view env w' = online view env w5"
    using keepsD [OF set_keeps(1) r(6)] by (intro presence_online) simp
  ultimately show ?thesis
    using connect_group_files [OF r(5)] by metis
qed

end


section \<open>Properties\<close>



text \<open>
  \<^verbatim>\<open>AddGroup\<close> files the user with the server id found in Redis, which is empty for a user that has never been
  connected. An empty entry is taken for an absent one, so the first connection of that user counts it once more:
  the number of online members then exceeds the members.
\<close>
theorem never_connected_member_counted_twice:
  assumes "logic_layer e view" and "run_state (logic_AddGroup e userid g) w = (Inr x, w')"
    and "store view (le_servers e) w (UseridMapServerId userid) = None"
  shows "\<exists>uid. online view (le_servers e) w' g (fmt_d uid) = Some [] \<and>
    (\<forall>serverId y w2. run_state (connect_group e uid serverId g) w' = (Inr y, w2)
       \<and> \<bar>online_count view (le_servers e) w' g\<bar> < 2 ^ 62 \<longrightarrow>
       online_count view (le_servers e) w2 g = online_count view (le_servers e) w' g + 1
       \<and> dom (online view (le_servers e) w2 g) = dom (online view (le_servers e) w' g))"
proof -
  obtain uid where uid: "online view (le_servers e) w' g (fmt_d uid) = Some []"
    using logic_layer.AddGroup_files_empty [OF assms] by blast
  then show ?thesis
    using logic_layer.empty_server_recounts [OF assms(1) _ uid] by (intro exI [of _ uid]) force
qed

end
