(* ===== verification/Sessions.thy ===== *)
theory Sessions
  imports Presence
begin

text \<open>
  Sessions: a token stands for a user from the login that created it to the logout or the next login.
\<close>

section \<open>What a session holds\<close>

text \<open>Rows of the user table: ids are 64-bit and the deletion mark is JSON that Go writes.\<close>

definition user_row :: "TUser \<Rightarrow> bool" where
  "user_row u \<longleftrightarrow> int64_range (u_ID u) \<and> integral (u_DeleteAt u)"

locale session_layer = logic_layer +
  assumes First_user_row: "run_state (g_First_user (le_db e) q u) w = ((err, u'), w') \<Longrightarrow> user_row u \<Longrightarrow> user_row u'"

lemma user_row_zero: "user_row zero_user"
  by (simp add: user_row_def zero_user_def int64_range_def)

lemma integral_user: "user_row u \<Longrightarrow> integral (enc_user u)"
  by (simp add: user_row_def enc_user_def enc_time_def integral_JObj del: integral.simps(7))

lemma dec_proto_User_get:
  "pu_Id (fst (dec_proto_User (JObj kvs) x)) = read_field ''id'' dec_int kvs (pu_Id x)"
  "pu_Username (fst (dec_proto_User (JObj kvs) x)) = read_field ''username'' dec_string kvs (pu_Username x)"
  unfolding dec_proto_User_def by (rule dec_struct_get, simp add: field_eval)+

lemma dec_user_ID: "u_ID (fst (dec_user (JObj kvs) x)) = read_field ''id'' dec_int kvs (u_ID x)"
  unfolding dec_user_def by (rule dec_struct_get) (simp add: field_eval)

lemma session_user:
  assumes "user_row u"
  shows "\<exists>v. fst (Unmarshal (dec_pointer dec_proto_User zero_User) (json_print (enc_user u)) None) = Some v
     \<and> pu_Id v = u_ID u \<and> pu_Username v = u_Username u"
proof -
  obtain kvs where kvs: "enc_user u = JObj kvs"
    by (simp add: enc_user_def)
  have "pu_Id (fst (dec_proto_User (enc_user u) zero_User)) = u_ID u"
    "pu_Username (fst (dec_proto_User (enc_user u) zero_User)) = u_Username u"
    using assms unfolding enc_user_def dec_proto_User_get
    by (simp_all add: user_row_def zero_User_def equalFold_eval lower_def)
  moreover have "Unmarshal (dec_pointer dec_proto_User zero_User) (json_print (enc_user u)) None
      = dec_pointer dec_proto_User zero_User (enc_user u) None"
    by (rule Unmarshal_print [OF integral_user [OF assms]])
  ultimately show ?thesis
    unfolding kvs by (simp add: case_prod_beta)
qed

lemma json_print_obj_not_Nil: "json_print (enc_user u) \<noteq> []"
  by (simp add: enc_user_def json_print_JObj)

lemma session_keys [simp]:
  "SESSION t = SESSION t' \<longleftrightarrow> t = t'" "SESSION t \<noteq> UseridMapToken u" "UseridMapToken u \<noteq> SESSION t"
  "UseridMapToken u = UseridMapToken u' \<longleftrightarrow> u = u'"
  by (simp_all add: key_defs)

context session_layer
begin

lemma QueryUserByUserName_row:
  "run_state (QueryUserByUserName (le_db e) n u) w = (u', w') \<Longrightarrow> user_row u \<Longrightarrow> user_row u'"
  by (auto simp: QueryUserByUserName_def bind_run simp del: run_state_bind dest: First_user_row split: prod.splits)

lemma utils_keep: "keeps view (EncPassword (le_crypto e) p)" "keeps view (GetRandomToken (le_crypto e) n)"
  "keeps view (CreateUser (le_db e) u)"
  unfolding EncPassword_def GetRandomToken_def CreateUser_def case_prod_beta by (intro kept)+

lemma info_of_token:
  assumes "run_state (logic_GetUserInfoByAccessToken e t) w = (Inr reply, w')"
  shows "\<exists>s. s \<noteq> [] \<and> s = str_at (store view env w (SESSION t)) \<and>
     ui_User reply = fst (Unmarshal (dec_pointer dec_proto_User zero_User) s None)"
  using assms rs.strings.get_value
  by (auto simp: logic_GetUserInfoByAccessToken_def or_fail_Inr split: if_splits)

lemma no_session:
  "store view env w (SESSION t) = None \<Longrightarrow> run_state (logic_GetUserInfoByAccessToken e t) w \<noteq> (Inr reply, w')"
  using info_of_token by (fastforce simp: str_at_def)

lemma login_run:
  assumes "run_state (logic_Login e n p) w = (Inr r, w')"
  obtains user :: TUser and old w1 w2 where
    "fst (run_state (QueryUserByUserName (le_db e) n zero_user) w) = user" "u_ID user \<noteq> 0" "user_row user"
    "VerifyPwd (le_crypto e) (u_Password user) p" "old = str_at (store view env w (UseridMapToken (u_ID user)))"
    "store view env w' (SESSION (lr_AccessToken r)) = Some (RStr (json_print (enc_user user)))"
    "store view env w' (UseridMapToken (u_ID user)) = Some (RStr (lr_AccessToken r))"
    "old \<noteq> [] \<Longrightarrow> old \<noteq> lr_AccessToken r \<Longrightarrow> store view env w' (SESSION old) = None"
    "\<And>t. t \<noteq> lr_AccessToken r \<Longrightarrow> t \<noteq> old \<or> old = [] \<Longrightarrow> store view env w' (SESSION t) = store view env w (SESSION t)"
proof -
  obtain user w1 tok w2 old w3 w4 w5 where r:
    "run_state (QueryUserByUserName (le_db e) n zero_user) w = (user, w1)"
    "u_ID user \<noteq> 0" "VerifyPwd (le_crypto e) (u_Password user) p"
    "run_state (GetRandomToken (le_crypto e) 32) w1 = (tok, w2)"
    "run_state (get_string e (UseridMapToken (u_ID user))) w2 = (Inr old, w3)"
    "run_state (if old \<noteq> [] then del_string e (SESSION old) else State_Monad.return (Inr ())) w3 = (Inr (), w4)"
    "run_state (set_string e (SESSION tok) (json_print (enc_user user)) one_day) w4 = (Inr (), w5)"
    "run_state (set_string e (UseridMapToken (u_ID user)) tok one_day) w5 = (Inr (), w')"
    "lr_AccessToken r = tok"
    using assms by (auto simp: logic_Login_def or_fail_Inr bind_run simp del: run_state_bind split: if_splits)
  have "view w2 = view w"
    using keepsD [OF queries_keep(5) r(1)] keepsD [OF utils_keep(2) r(4)] by simp
  then have same: "store view env w3 l = store view env w l" for l
    using keepsD [OF rs.keeps_view(1) r(5)] rs.store_same by metis
  have old: "old = str_at (store view env w (UseridMapToken (u_ID user)))"
    using rs.strings.get_value [OF r(5)] same rs.store_same [OF \<open>view w2 = view w\<close>] by metis
  have w4: "store view env w4 l = (if old \<noteq> [] \<and> l = SESSION old then None else store view env w l)" for l
    using r(6) same rs.strings.del_value [of env "SESSION old" w3 "()" w4] rs.strings.del_other [of env "SESSION old" w3 "Inr ()" w4 l]
    by (cases "old = []") auto
  have w': "store view env w' l = (if l = UseridMapToken (u_ID user) then Some (RStr tok)
      else if l = SESSION tok then Some (RStr (json_print (enc_user user))) else store view env w4 l)" for l
    using rs.strings.put_value [OF r(8)] rs.strings.put_other [OF r(8), of l] rs.strings.put_value [OF r(7)]
      rs.strings.put_other [OF r(7), of l] by auto
  show ?thesis
    by (rule that [of user old]) (use r old QueryUserByUserName_row [OF r(1) user_row_zero] w4 w' in auto)
qed

lemma login_valid:
  assumes "run_state (logic_Login e n p) w = (Inr r, w')"
  shows "\<exists>user :: TUser. fst (run_state (QueryUserByUserName (le_db e) n zero_user) w) = user
    \<and> VerifyPwd (le_crypto e) (u_Password user) p
    \<and> (\<forall>reply w2. run_state (logic_GetUserInfoByAccessToken e (lr_AccessToken r)) w' = (Inr reply, w2) \<longrightarrow>
         (\<exists>v. ui_User reply = Some v \<and> pu_Id v = u_ID user \<and> pu_Username v = u_Username user))
    \<and> (\<forall>old reply w2. old = str_at (store view env w (UseridMapToken (u_ID user))) \<and> old \<noteq> [] \<and> old \<noteq> lr_AccessToken r \<longrightarrow>
         run_state (logic_GetUserInfoByAccessToken e old) w' \<noteq> (Inr reply, w2))"
proof -
  obtain user :: TUser and old where r:
    "fst (run_state (QueryUserByUserName (le_db e) n zero_user) w) = user" "user_row user"
    "VerifyPwd (le_crypto e) (u_Password user) p" "old = str_at (store view env w (UseridMapToken (u_ID user)))"
    "store view env w' (SESSION (lr_AccessToken r)) = Some (RStr (json_print (enc_user user)))"
    "old \<noteq> [] \<Longrightarrow> old \<noteq> lr_AccessToken r \<Longrightarrow> store view env w' (SESSION old) = None"
    using assms by (rule login_run) blast
  have "\<exists>v. ui_User reply = Some v \<and> pu_Id v = u_ID user \<and> pu_Username v = u_Username user"
    if "run_state (logic_GetUserInfoByAccessToken e (lr_AccessToken r)) w' = (Inr reply, w2)" for reply w2
    using info_of_token [OF that] session_user [OF r(2)] r(5) by (auto simp: str_at_def)
  then show ?thesis
    using r no_session by blast
qed

lemma logout_run:
  assumes "run_state (logic_LoginOut e t) w = (Inr x, w')"
  shows "store view env w' (SESSION t) = None"
proof -
  obtain w1 where "run_state (del_string e (SESSION t)) w1 = (Inr (), w')"
    using assms by (auto simp: logic_LoginOut_def or_fail_Inr Let_def split: if_splits)
  then show ?thesis
    by (rule rs.strings.del_value)
qed

lemma revoked:
  assumes "store view env w (SESSION t) = None"
  shows "fst (run_state (logic_GetUserInfoByAccessToken e t) w) \<noteq> Inr reply"
    and "fst (run_state (logic_Connect e t srv) w) \<noteq> Inr uid"
proof -
  show "fst (run_state (logic_GetUserInfoByAccessToken e t) w) \<noteq> Inr reply"
    using no_session [OF assms] by (metis prod.collapse)
  have "run_state (logic_Connect e t srv) w \<noteq> (Inr uid, w')" for w'
    using rs.strings.get_value [of env "SESSION t" w] assms
    by (auto simp: logic_Connect_def or_fail_Inr str_at_def split: if_splits)
  then show "fst (run_state (logic_Connect e t srv) w) \<noteq> Inr uid"
    by (metis prod.collapse)
qed

lemma register_run:
  assumes "run_state (logic_Register e n p) w = (Inr r, w')"
  shows "(\<exists>user. store view env w' (SESSION (rr_AccessToken r)) = Some (RStr (json_print (enc_user user))) \<and> u_ID user = rr_Userid r)
    \<and> (\<forall>u. store view env w' (UseridMapToken u) = store view env w (UseridMapToken u))"
proof -
  obtain user w1 pwd w2 user2 w3 tok w4 where r:
    "run_state (QueryUserByUserName (le_db e) n zero_user) w = (user, w1)"
    "run_state (EncPassword (le_crypto e) p) w1 = (pwd, w2)"
    "run_state (CreateUser (le_db e) (user\<lparr>u_Username := n, u_Password := pwd, u_Avatar := le_avatar e\<rparr>)) w2 = (user2, w3)"
    "run_state (GetRandomToken (le_crypto e) 32) w3 = (tok, w4)"
    "run_state (set_string e (SESSION tok) (json_print (enc_user user2)) one_day) w4 = (Inr (), w')"
    "rr_AccessToken r = tok" "rr_Userid r = u_ID user2"
    using assms
    by (auto simp: logic_Register_def bind_run simp del: run_state_bind split: if_splits sum.splits)
      (metis sum.exhaust old.unit.exhaust)
  have "view w4 = view w"
    using keepsD [OF queries_keep(5) r(1)] keepsD [OF utils_keep(1) r(2)] keepsD [OF utils_keep(3) r(3)]
      keepsD [OF utils_keep(2) r(4)] by simp
  then have "store view env w4 = store view env w"
    by (rule rs.store_same)
  then show ?thesis
    using rs.strings.put_value [OF r(5)] rs.strings.put_other [OF r(5)] r(6,7) by auto
qed

end

section \<open>Properties\<close>

text \<open>
  C11: a successful login is one with the password of the user of that name, and its token then stands for exactly
  that user; the token of the user's previous login is no longer accepted.
\<close>
theorem login_replaces_session:
  assumes "session_layer e view" and "run_state (logic_Login e username password) w = (Inr r, w')"
  shows "\<exists>user :: TUser. fst (run_state (QueryUserByUserName (le_db e) username zero_user) w) = user
    \<and> VerifyPwd (le_crypto e) (u_Password user) password
    \<and> (\<forall>reply w2. run_state (logic_GetUserInfoByAccessToken e (lr_AccessToken r)) w' = (Inr reply, w2) \<longrightarrow>
         (\<exists>v. ui_User reply = Some v \<and> pu_Id v = u_ID user \<and> pu_Username v = u_Username user))
    \<and> (\<forall>old reply w2. old = str_at (store view (le_servers e) w (UseridMapToken (u_ID user))) \<and> old \<noteq> [] \<and> old \<noteq> lr_AccessToken r \<longrightarrow>
         run_state (logic_GetUserInfoByAccessToken e old) w' \<noteq> (Inr reply, w2))"
  using session_layer.login_valid [OF assms] .

text \<open>
  C12: after a successful logout the token is not accepted any more, neither for user information nor for a
  connection.
\<close>
theorem logout_revokes:
  assumes "session_layer e view" and "run_state (logic_LoginOut e accessToken) w = (Inr x, w')"
  shows "fst (run_state (logic_GetUserInfoByAccessToken e accessToken) w') \<noteq> Inr reply \<and>
    fst (run_state (logic_Connect e accessToken serverId) w') \<noteq> Inr userid"
  using session_layer.revoked [OF assms(1) session_layer.logout_run [OF assms]] by blast

text \<open>
  C33: \<^verbatim>\<open>Register\<close> opens a session without filing its token under the user, so the login that follows does not
  find it: the first token keeps standing for the user beside the new one.
\<close>
theorem register_token_survives_login:
  assumes "session_layer e view" and "run_state (logic_Register e username password) w = (Inr r, w1)"
    and "store view (le_servers e) w (UseridMapToken (rr_Userid r)) = None"
    and "run_state (logic_Login e username password) w1 = (Inr l, w2)"
    and "u_ID (fst (run_state (QueryUserByUserName (le_db e) username zero_user) w1)) = rr_Userid r"
    and "lr_AccessToken l \<noteq> rr_AccessToken r"
  shows "store view (le_servers e) w2 (SESSION (rr_AccessToken r)) = store view (le_servers e) w1 (SESSION (rr_AccessToken r))
    \<and> store view (le_servers e) w2 (SESSION (rr_AccessToken r)) \<noteq> None"
proof -
  have reg: "store view (le_servers e) w1 (SESSION (rr_AccessToken r)) \<noteq> None"
    "store view (le_servers e) w1 (UseridMapToken (rr_Userid r)) = None"
    using session_layer.register_run [OF assms(1,2)] assms(3) by auto
  have "store view (le_servers e) w2 (SESSION (rr_AccessToken r)) = store view (le_servers e) w1 (SESSION (rr_AccessToken r))"
    using session_layer.login_run [OF assms(1,4)] assms(5,6) reg(2) by (metis str_at_def option.simps(4))
  then show ?thesis
    using reg(1) by simp
qed

end
