(* ===== verification/Publication.thy ===== *)
theory Publication
  imports Logic
begin

text \<open>Publication of chat messages by the logic layer: which topics receive what.\<close>

lemma rpc_Push_run:
  assumes "run_state (rpc_Push e (Some m)) s = (Inr x, s')"
  obtains s1 where
    "run_state (logic_Push (le_kafka e) (le_kafka_address e) (cm_FriendId m) (enc_FriendMsg (friend_payload m (cm_FriendId m))) OpFriendMsgSend) s = (Inr (), s1)"
    "run_state (logic_Push (le_kafka e) (le_kafka_address e) (cm_Userid m) (enc_FriendMsg (friend_payload m (cm_Userid m))) OpFriendMsgSend) s1 = (Inr (), s')"
  using assms by (auto simp: rpc_Push_def or_fail_Inr)

text \<open>
  C13: a private message that \<^verbatim>\<open>Push\<close> accepts has been appended to the topic of the receiver, marked as
  belonging to the receiver's letter box, and then to the topic of the sender, marked as belonging to the
  sender's: once each, or twice when a failed attempt had reached the log before the retry. No other topic
  has changed. A group message that \<^verbatim>\<open>PushRoom\<close> accepts has been appended to the topic of its group.
\<close>
theorem chat_message_published:
  assumes "kafka_broker (le_kafka e) log conn_of" and "pool_ok conn_of (w, p)"
  shows "(run_state (rpc_Push e (Some m)) (w, p) = (Inr x, w', p') \<longrightarrow> pool_ok conn_of (w', p') \<and>
      (\<exists>w1. published log (FriendQueue (cm_FriendId m))
               (msg_body OpFriendMsgSend (enc_FriendMsg (friend_payload m (cm_FriendId m)))) w w1 \<and>
            published log (FriendQueue (cm_Userid m))
               (msg_body OpFriendMsgSend (enc_FriendMsg (friend_payload m (cm_Userid m)))) w1 w'))
    \<and> (run_state (rpc_PushRoom e (Some m)) (w, p) = (Inr x, w', p') \<longrightarrow> pool_ok conn_of (w', p') \<and>
        published log (GroupQueue (cm_GroupId m)) (msg_body OpGroupMsgSend (enc_GroupMsg (group_payload m))) w w')"
proof (intro conjI impI)
  assume "run_state (rpc_Push e (Some m)) (w, p) = (Inr x, w', p')"
  then obtain s1 where r:
    "run_state (logic_Push (le_kafka e) (le_kafka_address e) (cm_FriendId m) (enc_FriendMsg (friend_payload m (cm_FriendId m))) OpFriendMsgSend) (w, p) = (Inr (), s1)"
    "run_state (logic_Push (le_kafka e) (le_kafka_address e) (cm_Userid m) (enc_FriendMsg (friend_payload m (cm_Userid m))) OpFriendMsgSend) s1 = (Inr (), w', p')"
    by (rule rpc_Push_run)
  note first = kafka_broker.logic_Push_friend [OF assms r(1)]
  note second = kafka_broker.logic_Push_friend [OF assms(1) conjunct1 [OF first] r(2)]
  show "pool_ok conn_of (w', p')"
    using second by simp
  show "\<exists>w1. published log (FriendQueue (cm_FriendId m)) (msg_body OpFriendMsgSend (enc_FriendMsg (friend_payload m (cm_FriendId m)))) w w1 \<and>
      published log (FriendQueue (cm_Userid m)) (msg_body OpFriendMsgSend (enc_FriendMsg (friend_payload m (cm_Userid m)))) w1 w'"
    using first second by auto
next
  assume "run_state (rpc_PushRoom e (Some m)) (w, p) = (Inr x, w', p')"
  then have r: "run_state (logic_Push (le_kafka e) (le_kafka_address e) (cm_GroupId m) (enc_GroupMsg (group_payload m)) OpGroupMsgSend) (w, p) = (Inr (), w', p')"
    by (auto simp: rpc_PushRoom_def or_fail_Inr)
  note appended = kafka_broker.logic_Push_group [OF assms r]
  show "pool_ok conn_of (w', p')"
    "published log (GroupQueue (cm_GroupId m)) (msg_body OpGroupMsgSend (enc_GroupMsg (group_payload m))) w w'"
    using appended by simp_all
qed

end
