(* ===== verification/Reference.thy ===== *)
theory Reference
  imports Sessions Publication
begin

text \<open>
  A world in memory that keeps the laws the logic layer relies on: Redis, Kafka and the tables of users and
  relations. The properties of the logic layer are instantiated here.
\<close>

section \<open>The world\<close>

record chat_world =
  cw_redis :: rstore
  cw_kafka :: kworld
  cw_users :: "TUser list"
  cw_relations :: "TRelation list"
  cw_random :: "byte list"

definition user_matches :: "query \<Rightarrow> TUser \<Rightarrow> bool" where
  "user_matches q u = (if q_Where q = ''id = ?'' then q_Args q = [AInt (u_ID u)]
     else if q_Where q = ''username = ?'' then q_Args q = [AStr (u_Username u)]
     else if q_Where q = ''id IN ?'' then (case q_Args q of [AInts is] \<Rightarrow> u_ID u \<in> set is | _ \<Rightarrow> False) else False)"

definition relation_matches :: "query \<Rightarrow> TRelation \<Rightarrow> bool" where
  "relation_matches q r =
     (if q_Where q = ''object_a = ? AND type = ?'' then q_Args q = [AInt (r_ObjectA r), AStr (r_Type r)]
      else if q_Where q = ''(object_a = ? OR object_b = ?) AND type = ?'' then
        (case q_Args q of [AInt a, AInt b, AStr t] \<Rightarrow> (r_ObjectA r = a \<or> r_ObjectB r = b) \<and> r_Type r = t | _ \<Rightarrow> False)
      else if q_Where q = ''type = ? AND object_b = ?'' then q_Args q = [AStr (r_Type r), AInt (r_ObjectB r)]
      else if q_Where q = ''object_a = ? AND object_b = ? AND type = ?'' then
        q_Args q = [AInt (r_ObjectA r), AInt (r_ObjectB r), AStr (r_Type r)]
      else False)"

definition first_of :: "'a list \<Rightarrow> 'a \<Rightarrow> db_error option \<times> 'a" where
  "first_of xs d = (case xs of [] \<Rightarrow> (Some ErrRecordNotFound, d) | x # _ \<Rightarrow> (None, x))"

definition unsupported :: "'a \<Rightarrow> ('w, db_error option \<times> 'a) state" where
  "unsupported d = State_Monad.return (Some (DbError ''not supported''), d)"

definition mem_gorm :: "chat_world gorm_api" where
  "mem_gorm =
     \<lparr>g_First_user = (\<lambda>q d. State (\<lambda>w. (first_of (filter (\<lambda>u. user_row u \<and> user_matches q u) (cw_users w)) d, w))),
      g_First_group = (\<lambda>q d. unsupported d),
      g_First_relation = (\<lambda>q d. State (\<lambda>w. (first_of (filter (relation_matches q) (cw_relations w)) d, w))),
      g_Find_users = (\<lambda>q d. State (\<lambda>w. ((None, Some (filter (user_matches q) (cw_users w))), w))),
      g_Find_groups = (\<lambda>q d. unsupported d),
      g_Find_relations = (\<lambda>q d. State (\<lambda>w. ((None, Some (filter (relation_matches q) (cw_relations w))), w))),
      g_Find_friend_messages = (\<lambda>q d. unsupported d),
      g_Find_group_messages = (\<lambda>q d. unsupported d),
      g_Create_user = (\<lambda>u. State (\<lambda>w. let v = u\<lparr>u_ID := int (length (cw_users w)) + 1\<rparr> in
        ((None, v), w\<lparr>cw_users := cw_users w @ [v]\<rparr>))),
      g_Create_group = unsupported,
      g_Create_relation = (\<lambda>r. State (\<lambda>w. let s = r\<lparr>r_ID := int (length (cw_relations w)) + 1\<rparr> in
        ((None, s), w\<lparr>cw_relations := cw_relations w @ [s]\<rparr>))),
      g_Updates_Find_user = unsupported,
      g_Updates_group = unsupported,
      g_Update_user = (\<lambda>q c v. State_Monad.return (Some (DbError ''not supported''))),
      g_CreateInBatches = (\<lambda>ms n. State_Monad.return None)\<rparr>"

definition mem_crypto :: "chat_world crypto_api" where
  "mem_crypto = \<lparr>c_GenerateFromPassword = (\<lambda>p c. State_Monad.return (Inr (''#'' @ p))),
     c_CompareHashAndPassword = (\<lambda>h p. h = ''#'' @ p),
     c_ReadRandom = (\<lambda>n. State (\<lambda>w. (take n (cw_random w), w\<lparr>cw_random := drop n (cw_random w)\<rparr>))),
     c_Snowflake = (\<lambda>n. State_Monad.return 0)\<rparr>"

definition ref_env :: "chat_world logic_env" where
  "ref_env = \<lparr>le_redis = mem_redis cw_redis (\<lambda>s w. w\<lparr>cw_redis := s\<rparr>), le_servers = env1, le_db = mem_gorm,
     le_crypto = mem_crypto, le_kafka = mem_kafka cw_kafka (\<lambda>k w. w\<lparr>cw_kafka := k\<rparr>), le_kafka_address = ''h'',
     le_avatar = ''a''\<rparr>"

lemma ref_redis: "lock_server (mem_redis cw_redis (\<lambda>s w. w\<lparr>cw_redis := s\<rparr>)) cw_redis"
  by (rule mem_redis_lock_server) simp

lemma ref_kafka: "kafka_broker (mem_kafka cw_kafka (\<lambda>k w. w\<lparr>cw_kafka := k\<rparr>)) (\<lambda>w. kw_log (cw_kafka w)) (\<lambda>w. mem_conn (cw_kafka w))"
  by (rule mem_kafka_broker) simp

lemma first_of_row: "first_of (filter (\<lambda>u. user_row u \<and> P u) us) d = (err, u) \<Longrightarrow> user_row d \<Longrightarrow> user_row u"
  by (auto simp: first_of_def filter_eq_Cons_iff split: list.splits)

lemma ref_sessions: "session_layer ref_env cw_redis"
proof -
  have r: "redis_server (le_redis ref_env) cw_redis"
    using lock_server.axioms(1) [OF ref_redis] by (simp add: ref_env_def)
  have l: "logic_layer ref_env cw_redis"
    using r by (intro logic_layer.intro logic_layer_axioms.intro)
      (auto simp: ref_env_def mem_gorm_def mem_crypto_def keeps_def unsupported_def Let_def)
  show ?thesis
    by (intro session_layer.intro session_layer_axioms.intro l)
       (auto simp: ref_env_def mem_gorm_def intro: first_of_row)
qed

interpretation ref: session_layer ref_env cw_redis
  by (rule ref_sessions)



section \<open>Runs that do not fail\<close>

text \<open>The Redis keys of the presence of users have the types that the commands expect.\<close>

abbreviation at_h :: "chat_world \<Rightarrow> string \<Rightarrow> rval option" where
  "at_h w \<equiv> cw_redis w ''h:1''"

definition typed :: "chat_world \<Rightarrow> bool" where
  "typed w \<longleftrightarrow> (\<forall>g. is_hash (at_h w (GroupOnlineUser g))) \<and> is_hash (at_h w GroupOnlineUserCount)
     \<and> is_hash (at_h w AllOnlineUser) \<and> (\<exists>xs. at_h w StatusMsgQueue \<in> {None, Some (RList xs)})"

lemma typed_keys [simp]:
  "AllOnlineUser \<noteq> StatusMsgQueue" "StatusMsgQueue \<noteq> AllOnlineUser"
  "UserGroupList u \<noteq> AllOnlineUser" "UserFriendList u \<noteq> AllOnlineUser" "UseridMapServerId u \<noteq> AllOnlineUser"
  "AllOnlineUser \<noteq> UserGroupList u" "AllOnlineUser \<noteq> UserFriendList u" "AllOnlineUser \<noteq> UseridMapServerId u"
  "UserGroupList u \<noteq> StatusMsgQueue" "UserFriendList u \<noteq> StatusMsgQueue" "UseridMapServerId u \<noteq> StatusMsgQueue"
  "StatusMsgQueue \<noteq> UserGroupList u" "StatusMsgQueue \<noteq> UserFriendList u" "StatusMsgQueue \<noteq> UseridMapServerId u"
  by (simp_all add: key_defs)

lemma proceeds_bind [going]:
  assumes "keeps cw_redis m" and "\<And>a. proceeds typed (k a)"
  shows "proceeds typed (State_Monad.bind m k)"
proof (rule proceedsI)
  fix w assume "typed w"
  obtain a w1 where m: "run_state m w = (a, w1)"
    by (cases "run_state m w")
  have "typed w1"
    using keepsD [OF assms(1) m] \<open>typed w\<close> by (simp add: typed_def)
  then show "\<exists>x w'. run_state (State_Monad.bind m k) w = (Inr x, w') \<and> typed w'"
    using assms(2) [of a] m by (auto elim: proceedsE)
qed

lemmas ref_defs = ref_env_def with_client_def env1_routes mem_redis_def mem_read_def mem_set_def mem_hash_def err_of_def
  nil_as_def upd_store_def

lemma ref_set [going]:
  "k \<in> {UserGroupList u, UserFriendList u, UseridMapServerId u} \<Longrightarrow> proceeds typed (set_string ref_env k v t)"
  by (rule proceedsI) (auto simp: RedisSetString_def ref_defs typed_def)

lemma is_hash_cases: "is_hash v \<Longrightarrow> v = None \<or> (\<exists>kvs. v = Some (RHash kvs))"
  by (auto simp: is_hash_def split: option.splits rval.splits)

lemma is_hash_RHash [simp]: "is_hash (Some (RHash kvs))" "is_hash None"
  by (simp_all add: is_hash_def)

abbreviation presence_key :: "string \<Rightarrow> bool" where
  "presence_key k \<equiv> (\<exists>g. k = GroupOnlineUser g) \<or> k = GroupOnlineUserCount \<or> k = AllOnlineUser"

lemma typed_hash: "typed w \<Longrightarrow> presence_key k \<Longrightarrow> at_h w k = None \<or> (\<exists>kvs. at_h w k = Some (RHash kvs))"
  by (rule is_hash_cases) (auto simp: typed_def)

lemma typed_upd:
  "typed w \<Longrightarrow> presence_key k \<Longrightarrow> typed (w\<lparr>cw_redis := upd_store ''h:1'' k (Some (RHash kvs)) (cw_redis w)\<rparr>)"
  by (auto simp: typed_def upd_store_def)

lemma ref_hash [going]:
  assumes "presence_key k"
  shows "proceeds typed (hset ref_env k f v)" "proceeds typed (hset_new ref_env k f v)"
    "proceeds typed (hincrby ref_env k f i)" "proceeds typed (hdel ref_env k f)" "proceeds typed (hgetall ref_env k)"
  using typed_hash [OF _ assms] typed_upd [OF _ assms]
  by (auto intro!: proceedsI simp: RedisHSet_def RedisIsNotExistHSet_def RedisHINCRBY_def RedisHDel_def RedisHGetAll_def
      ref_env_def with_client_def env1_routes mem_redis_def mem_read_def mem_hash_def err_of_def nil_as_def reply_val_def
      split: option.splits) (fastforce split: option.splits)+

lemma ref_lpush [going]: "proceeds typed (RedisLPUSH (le_redis ref_env) (le_servers ref_env) StatusMsgQueue v)"
  by (rule proceedsI) (auto simp: RedisLPUSH_def ref_defs typed_def)

lemma ref_push [going]:
  "proceeds typed (PushUserInfo (le_redis ref_env) (le_servers ref_env) u n f op)"
  "proceeds typed (PushGroupInfo (le_redis ref_env) (le_servers ref_env) u g c us is)"
  unfolding PushUserInfo_def PushGroupInfo_def by (rule ref_lpush)+

lemma ref_keeps: "keeps cw_redis (or_zero (hget ref_env k f) z)"
  by (intro kept ref.rs.keeps_view(2))

lemma ref_status [going]: "proceeds typed (push_group_status ref_env u g)"
  unfolding push_group_status_def by (intro going ref.queries_keep ref_keeps) auto

lemma ref_group [going]: "proceeds typed (connect_group ref_env u srv g)" "proceeds typed (disconnect_group ref_env u g)"
  unfolding connect_group_def disconnect_group_def by (intro going; auto)+


section \<open>A small server\<close>

definition ada :: TUser where
  "ada = zero_user\<lparr>u_ID := 5, u_Username := ''ada'', u_Password := ''#pw''\<rparr>"

definition in_group :: TRelation where
  "in_group = zero_relation\<lparr>r_ID := 1, r_Type := ''group'', r_ObjectA := 5, r_ObjectB := 7\<rparr>"

definition world :: "(string \<rightharpoonup> rval) \<Rightarrow> chat_world" where
  "world m = \<lparr>cw_redis = (\<lambda>a. m), cw_kafka = empty_broker, cw_users = [ada], cw_relations = [in_group],
     cw_random = replicate 32 65 @ replicate 32 66\<rparr>"

text \<open>The user with id 5 is logged in with the token \<^verbatim>\<open>t\<close>; nobody is connected.\<close>

definition logged_in :: chat_world where
  "logged_in = world [SESSION ''t'' \<mapsto> RStr (json_print (enc_user ada)), UseridMapToken 5 \<mapsto> RStr ''t'']"

definition nobody :: chat_world where
  "nobody = world Map.empty"

lemma world_at [simp]: "at_h (world m) k = m k" "store cw_redis (le_servers ref_env) (world m) k = m k"
  by (simp_all add: world_def store_def ref_env_def env1_routes)

lemma session_apart [simp]:
  "SESSION t \<noteq> GroupOnlineUser g" "SESSION t \<noteq> GroupOnlineUserCount" "SESSION t \<noteq> AllOnlineUser" "SESSION t \<noteq> StatusMsgQueue"
  "GroupOnlineUser g \<noteq> SESSION t" "GroupOnlineUserCount \<noteq> SESSION t" "AllOnlineUser \<noteq> SESSION t" "StatusMsgQueue \<noteq> SESSION t"
  "UseridMapToken u \<noteq> GroupOnlineUser g" "UseridMapToken u \<noteq> GroupOnlineUserCount" "UseridMapToken u \<noteq> AllOnlineUser"
  "UseridMapToken u \<noteq> StatusMsgQueue"
  "GroupOnlineUser g \<noteq> UseridMapToken u" "GroupOnlineUserCount \<noteq> UseridMapToken u" "AllOnlineUser \<noteq> UseridMapToken u"
  "StatusMsgQueue \<noteq> UseridMapToken u"
  by (simp_all add: key_defs)

lemma worlds_typed: "typed logged_in" "typed nobody"
  by (simp_all add: typed_def logged_in_def nobody_def)


lemma ada_row: "user_row ada"
  by (simp add: user_row_def ada_def zero_user_def int64_range_def)

lemma ada_decoded: "u_ID (fst (Unmarshal dec_user (json_print (enc_user ada)) zero_user)) = 5"
proof -
  have "u_ID (fst (dec_user (enc_user ada) zero_user)) = u_ID ada"
    using ada_row unfolding enc_user_def dec_user_ID by (simp add: user_row_def zero_user_def equalFold_eval lower_def)
  then show ?thesis
    using Unmarshal_print [OF integral_user [OF ada_row], of dec_user zero_user] by (simp add: ada_def)
qed

lemma session_get: "run_state (get_string ref_env (SESSION ''t'')) logged_in = (Inr (json_print (enc_user ada)), logged_in)"
  by (simp add: RedisGetString_def ref_defs logged_in_def world_def)

lemma connect_runs: "\<exists>w'. run_state (logic_Connect ref_env ''t'' ''s'') logged_in = (Inr 5, w')"
proof -
  let ?u = "fst (Unmarshal dec_user (json_print (enc_user ada)) zero_user)"
  define rest where "rest = or_fail (set_string ref_env (UseridMapServerId (u_ID ?u)) ''s'' 0) SystemError (\<lambda>_. do {
       groupIdList \<leftarrow> QueryUserAllGroupId (le_db ref_env) (u_ID ?u);
       friendIdList \<leftarrow> QueryUserAllFriendId (le_db ref_env) (u_ID ?u);
       or_fail (hset ref_env AllOnlineUser (fmt_d (u_ID ?u)) ''on'') SystemError (\<lambda>_.
       or_fail (for_each (connect_group ref_env (u_ID ?u) ''s'') (rows_of groupIdList)) SystemError (\<lambda>_.
       or_fail (set_string ref_env (UserGroupList (u_ID ?u)) (marshal_ids groupIdList) 0) SystemError (\<lambda>_.
       or_fail (for_each (\<lambda>val. PushUserInfo (le_redis ref_env) (le_servers ref_env) (u_ID ?u) (u_Username ?u) val OpFriendOnlineSend)
                 (rows_of friendIdList)) SystemError (\<lambda>_.
       or_fail (set_string ref_env (UserFriendList (u_ID ?u)) (marshal_ids friendIdList) 0) SystemError (\<lambda>_.
       State_Monad.return (Inr ()))))))
     })"
  have "proceeds typed rest"
    unfolding rest_def by (intro going ref.queries_keep) auto
  then obtain x w' where "run_state rest logged_in = (Inr x, w')"
    using worlds_typed(1) by (rule proceedsE)
  then have "run_state (logic_Connect ref_env ''t'' ''s'') logged_in = (Inr 5, w')"
    unfolding rest_def logic_Connect_def
    by (simp add: or_fail_Inr session_get json_print_obj_not_Nil ada_decoded bind_run Let_def del: run_state_bind)
  then show ?thesis ..
qed





lemma add_group_runs: "\<exists>w'. run_state (logic_AddGroup ref_env 5 9) nobody = (Inr (), w')"
proof -
  define w1 where "w1 = nobody\<lparr>cw_relations := [in_group, zero_relation\<lparr>r_ID := 2, r_Type := ''group'', r_ObjectA := 5, r_ObjectB := 9\<rparr>]\<rparr>"
  have get: "run_state (get_string ref_env (UseridMapServerId 5)) nobody = (Inr [], nobody)"
    by (simp add: RedisGetString_def ref_defs nobody_def world_def)
  have user: "run_state (QueryUserById (le_db ref_env) 5 zero_user) nobody = (ada, nobody)"
    using ada_row by (simp add: QueryUserById_def ref_env_def mem_gorm_def user_matches_def Where_def nobody_def world_def ada_def first_of_def)
  have rel: "run_state (CreateRelation (le_db ref_env) (zero_relation\<lparr>r_Type := ''group'', r_ObjectA := 5, r_ObjectB := 9\<rparr>)) nobody =
     (zero_relation\<lparr>r_ID := 2, r_Type := ''group'', r_ObjectA := 5, r_ObjectB := 9\<rparr>, w1)"
    by (simp add: CreateRelation_def ref_env_def mem_gorm_def relation_matches_def Where_def nobody_def world_def in_group_def
        first_of_def zero_relation_def w1_def Let_def)
  have "proceeds typed (do {
          groupIdList \<leftarrow> QueryUserAllGroupId (le_db ref_env) (u_ID ada);
          or_fail (connect_group ref_env (u_ID ada) [] 9) SystemError (\<lambda>_.
          or_fail (set_string ref_env (UserGroupList (u_ID ada)) (marshal_ids groupIdList) 0) SystemError (\<lambda>_.
          State_Monad.return (Inr ())))
        })" (is "proceeds _ ?rest")
    by (intro going ref.queries_keep) auto
  moreover have "typed w1"
    using worlds_typed(2) by (simp add: typed_def w1_def)
  ultimately obtain x w' where "run_state ?rest w1 = (Inr x, w')"
    by (rule proceedsE)
  then have "run_state (logic_AddGroup ref_env 5 9) nobody = (Inr (), w')"
    unfolding logic_AddGroup_def
    by (simp add: or_fail_Inr get user rel bind_run del: run_state_bind)
  then show ?thesis ..
qed

theorem never_connected_member_counted_twice_witness:
  "\<exists>w' uid. run_state (logic_AddGroup ref_env 5 9) nobody = (Inr (), w') \<and>
     online cw_redis (le_servers ref_env) w' 9 (fmt_d uid) = Some []"
proof -
  obtain w' where w': "run_state (logic_AddGroup ref_env 5 9) nobody = (Inr (), w')"
    using add_group_runs ..
  have "store cw_redis (le_servers ref_env) nobody (UseridMapServerId 5) = None"
    by (simp add: nobody_def)
  then show ?thesis
    using w' never_connected_member_counted_twice [OF ref.logic_layer_axioms w'] by blast
qed

section \<open>Sessions of the small server\<close>

definition token :: "byte \<Rightarrow> string" where
  "token b = b64_url (map unat (replicate 32 b))"

lemma tokens_differ: "token 65 \<noteq> token 66" "token 65 \<noteq> ''t''" "token 66 \<noteq> ''t''"
proof -
  have "map unat (replicate 32 (65 :: byte)) \<noteq> map unat (replicate 32 (66 :: byte))"
    by simp
  moreover have "\<forall>x \<in> set (map unat (replicate 32 b)). x < 256" for b :: byte
    using unsigned_less [of b, where 'a = nat] by simp
  ultimately show "token 65 \<noteq> token 66"
    unfolding token_def using b64_url_inj [of "map unat (replicate 32 (65 :: byte))" "map unat (replicate 32 (66 :: byte))"] by auto
  have "4 \<le> length (b64_url xs)" if "xs \<noteq> []" for xs
    using that by (cases xs rule: b64_url.cases) auto
  then have long: "4 \<le> length (token b)" for b
    by (simp add: token_def)
  have "token b \<noteq> ''t''" for b
    using long [of b] by auto
  then show "token 65 \<noteq> ''t''" "token 66 \<noteq> ''t''"
    by blast+
qed

definition put_h :: "string \<Rightarrow> rval option \<Rightarrow> chat_world \<Rightarrow> chat_world" where
  "put_h k v w = w\<lparr>cw_redis := upd_store ''h:1'' k v (cw_redis w)\<rparr>"

lemma put_h_at [simp]: "at_h (put_h k v w) l = (if l = k then v else at_h w l)"
  "cw_users (put_h k v w) = cw_users w" "cw_random (put_h k v w) = cw_random w"
  by (simp_all add: put_h_def upd_store_def)

lemma ref_strings:
  "run_state (get_string ref_env k) w =
     (case at_h w k of None \<Rightarrow> Inr [] | Some (RStr s) \<Rightarrow> Inr s | _ \<Rightarrow> Inl (ReplyError ''WRONGTYPE''), w)"
  "run_state (set_string ref_env k v t) w = (Inr (), put_h k (Some (RStr v)) w)"
  "run_state (del_string ref_env k) w = (Inr (), put_h k None w)"
  by (simp_all add: RedisGetString_def RedisSetString_def RedisDelString_def ref_env_def with_client_def env1_routes mem_redis_def
      mem_read_def mem_set_def err_of_def nil_as_def put_h_def split: option.splits rval.splits)

lemma ref_user:
  "run_state (QueryUserByUserName (le_db ref_env) n u) w =
     (snd (first_of (filter (\<lambda>x. user_row x \<and> u_Username x = n) (cw_users w)) u), w)"
  by (simp add: QueryUserByUserName_def ref_env_def mem_gorm_def user_matches_def Where_def case_prod_beta eq_commute)

lemma ref_token:
  "run_state (GetRandomToken (le_crypto ref_env) n) w =
     (b64_url (map unat (take n (cw_random w))), w\<lparr>cw_random := drop n (cw_random w)\<rparr>)"
  by (simp add: GetRandomToken_def ref_env_def mem_crypto_def)

lemma ref_password:
  "VerifyPwd (le_crypto ref_env) h p \<longleftrightarrow> h = ''#'' @ p"
  "run_state (EncPassword (le_crypto ref_env) p) w = (''#'' @ p, w)"
  by (simp_all add: VerifyPwd_def EncPassword_def ref_env_def mem_crypto_def)

lemmas ref_session = ref_strings ref_user ref_token ref_password

lemma worlds_fields [simp]:
  "cw_users logged_in = [ada]" "cw_random logged_in = replicate 32 65 @ replicate 32 66"
  "at_h logged_in (UseridMapToken 5) = Some (RStr ''t'')" "at_h logged_in (SESSION ''t'') = Some (RStr (json_print (enc_user ada)))"
  "cw_users nobody = [ada]" "cw_random nobody = replicate 32 65 @ replicate 32 66" "at_h nobody k = None"
  by (simp_all add: logged_in_def nobody_def world_def)

lemma ada_fields [simp]: "u_ID ada = 5" "u_Username ada = ''ada''" "u_Password ada = ''#pw''" "user_row ada"
  using ada_row by (simp_all add: ada_def)

lemma login_runs:
  "\<exists>w'. run_state (logic_Login ref_env ''ada'' ''pw'') logged_in = (Inr \<lparr>lr_Code = 0, lr_AccessToken = token 65\<rparr>, w')
     \<and> at_h w' (SESSION (token 65)) = Some (RStr (json_print (enc_user ada)))"
  by (simp add: logic_Login_def or_fail_def ref_session first_of_def SuccessReplyCode_def token_def)

theorem login_replaces_session_witness:
  "\<exists>w' w2 reply v. run_state (logic_Login ref_env ''ada'' ''pw'') logged_in = (Inr \<lparr>lr_Code = 0, lr_AccessToken = token 65\<rparr>, w')
     \<and> run_state (logic_GetUserInfoByAccessToken ref_env (token 65)) w' = (Inr reply, w2)
     \<and> ui_User reply = Some v \<and> pu_Id v = 5 \<and> pu_Username v = ''ada''
     \<and> run_state (logic_GetUserInfoByAccessToken ref_env ''t'') w' \<noteq> (Inr reply, w2)"
proof -
  obtain w' where w': "run_state (logic_Login ref_env ''ada'' ''pw'') logged_in = (Inr \<lparr>lr_Code = 0, lr_AccessToken = token 65\<rparr>, w')"
    "at_h w' (SESSION (token 65)) = Some (RStr (json_print (enc_user ada)))"
    using login_runs by blast
  obtain reply w2 where info: "run_state (logic_GetUserInfoByAccessToken ref_env (token 65)) w' = (Inr reply, w2)"
    using w'(2) by (simp add: logic_GetUserInfoByAccessToken_def or_fail_def ref_strings json_print_obj_not_Nil)
  have user: "fst (run_state (QueryUserByUserName (le_db ref_env) ''ada'' zero_user) logged_in) = ada"
    by (simp add: ref_user first_of_def)
  have old: "str_at (store cw_redis (le_servers ref_env) logged_in (UseridMapToken 5)) = ''t''"
    by (simp add: logged_in_def str_at_def)
  show ?thesis
    using w'(1) info tokens_differ(2) login_replaces_session [OF ref.session_layer_axioms w'(1)] unfolding user
    by (force simp: old)
qed

theorem logout_revokes_witness:
  "\<exists>w'. run_state (logic_LoginOut ref_env ''t'') logged_in = (Inr (), w') \<and>
     fst (run_state (logic_Connect ref_env ''t'' ''s'') logged_in) = Inr 5 \<and>
     fst (run_state (logic_Connect ref_env ''t'' ''s'') w') \<noteq> Inr 5"
proof -
  obtain w' where w': "run_state (logic_LoginOut ref_env ''t'') logged_in = (Inr (), w')"
    by (simp add: logic_LoginOut_def or_fail_def ref_strings ada_decoded)
  show ?thesis
    using w' connect_runs logout_revokes [OF ref.session_layer_axioms w'] by fastforce
qed

definition bob :: TUser where
  "bob = zero_user\<lparr>u_ID := 2, u_Username := ''bob'', u_Password := ''#pw'', u_Avatar := ''a''\<rparr>"

lemma bob_fields [simp]: "u_ID bob = 2" "u_Username bob = ''bob''" "u_Password bob = ''#pw''" "user_row bob"
  by (simp_all add: bob_def user_row_def zero_user_def int64_range_def)

lemma ref_create: "run_state (CreateUser (le_db ref_env) u) w =
  (u\<lparr>u_ID := int (length (cw_users w)) + 1\<rparr>, w\<lparr>cw_users := cw_users w @ [u\<lparr>u_ID := int (length (cw_users w)) + 1\<rparr>]\<rparr>)"
  by (simp add: CreateUser_def ref_env_def mem_gorm_def Let_def)

definition registered :: chat_world where
  "registered = put_h (SESSION (token 65)) (Some (RStr (json_print (enc_user bob))))
     (nobody\<lparr>cw_users := [ada, bob], cw_random := replicate 32 66\<rparr>)"

lemma registered_fields [simp]: "cw_users registered = [ada, bob]" "cw_random registered = replicate 32 66"
  "at_h registered (UseridMapToken 2) = None"
  by (simp_all add: registered_def nobody_def world_def)

lemma register_runs:
  "run_state (logic_Register ref_env ''bob'' ''pw'') nobody = (Inr \<lparr>rr_Code = 0, rr_AccessToken = token 65, rr_Userid = 2\<rparr>, registered)"
  by (simp add: logic_Register_def ref_session ref_create first_of_def zero_user_def SuccessReplyCode_def token_def registered_def bob_def
      ref_env_def [THEN arg_cong, of le_avatar] put_h_def upd_store_def)

lemma login_after_register:
  "\<exists>w'. run_state (logic_Login ref_env ''bob'' ''pw'') registered = (Inr \<lparr>lr_Code = 0, lr_AccessToken = token 66\<rparr>, w')"
  by (simp add: logic_Login_def or_fail_def ref_session first_of_def SuccessReplyCode_def token_def)

theorem register_token_survives_login_witness:
  "\<exists>w'. run_state (logic_Register ref_env ''bob'' ''pw'') nobody
       = (Inr \<lparr>rr_Code = 0, rr_AccessToken = token 65, rr_Userid = 2\<rparr>, registered)
     \<and> run_state (logic_Login ref_env ''bob'' ''pw'') registered = (Inr \<lparr>lr_Code = 0, lr_AccessToken = token 66\<rparr>, w')
     \<and> store cw_redis (le_servers ref_env) w' (SESSION (token 65)) \<noteq> None"
proof -
  obtain w' where w': "run_state (logic_Login ref_env ''bob'' ''pw'') registered = (Inr \<lparr>lr_Code = 0, lr_AccessToken = token 66\<rparr>, w')"
    using login_after_register ..
  have "store cw_redis (le_servers ref_env) nobody (UseridMapToken 2) = None"
    by (simp add: nobody_def)
  moreover have "u_ID (fst (run_state (QueryUserByUserName (le_db ref_env) ''bob'' zero_user) registered)) = 2"
    by (simp add: ref_user first_of_def)
  ultimately show ?thesis
    using register_runs w' register_token_survives_login [OF ref.session_layer_axioms register_runs _ w'] tokens_differ(1)
    by (metis RegisterReply.select_convs(2,3) LoginReply.select_convs(2))
qed

section \<open>A message of the small server\<close>

definition hello :: ChatMessage where
  "hello = \<lparr>cm_Id = 0, cm_Userid = 5, cm_GroupId = 7, cm_FriendId = 2, cm_Content = ''hello'', cm_MessageType = ''text'',
     cm_CreateAt = ''now'', cm_FromUsername = ''ada'', cm_FriendName = ''bob'', cm_GroupName = ''g'', cm_Avatar = ''a'',
     cm_SnowId = ''1'', cm_Watermark = 0\<rparr>"

theorem chat_message_published_witness:
  "\<exists>w' p'. run_state (rpc_PushRoom ref_env (Some hello)) (nobody, no_producers) = (Inr (), w', p') \<and>
     published (\<lambda>w. kw_log (cw_kafka w)) (GroupQueue 7) (msg_body OpGroupMsgSend (enc_GroupMsg (group_payload hello))) nobody w'"
proof -
  have broker: "kafka_broker (le_kafka ref_env) (\<lambda>w. kw_log (cw_kafka w)) (\<lambda>w. mem_conn (cw_kafka w))"
    using ref_kafka by (simp add: ref_env_def)
  have ok: "pool_ok (\<lambda>w. mem_conn (cw_kafka w)) (nobody, no_producers)"
    by (simp add: pool_ok_def no_producers_def)
  obtain w' p' where run: "run_state (rpc_PushRoom ref_env (Some hello)) (nobody, no_producers) = (Inr (), w', p')"
    by (simp add: rpc_PushRoom_def or_fail_def logic_Push_def produce_twice_def TopicProduce_def getProducerConn_def topic_for_def
        mem_kafka_def no_producers_def mem_conn_def Let_def ref_env_def)
  show ?thesis
    using run chat_message_published [OF broker ok, of hello "()" w' p'] by (auto simp: hello_def)
qed

end
