(* ===== verification/Task.thy ===== *)
theory Task
  imports WsServer RedisStore Discovery Publish Utils
begin

text \<open>
  The task layer's way from the queues to the connect layer: the buffered channels and their workers
  (\<^verbatim>\<open>task/push.go\<close>), the status queue in Redis (\<^verbatim>\<open>task/redis_queue.go\<close>) and the calls to the connect servers
  (\<^verbatim>\<open>task/rpc.go\<close>). The gRPC client of a connection is a parameter.
\<close>

section \<open>Calling a connect server\<close>

record ('w, 'c) connect_client =
  cc_PushGroupInfoMsg :: "'c \<Rightarrow> PushGroupInfoMsgReq_Msg \<Rightarrow> ('w, string option) state"
  cc_PushGroupCountMsg :: "'c \<Rightarrow> PushGroupCountMsgReq_Msg \<Rightarrow> ('w, string option) state"
  cc_PushFriendOnlineMsg :: "'c \<Rightarrow> PushFriendOnlineMsgReq_Msg \<Rightarrow> ('w, string option) state"
  cc_PushFriendOfflineMsg :: "'c \<Rightarrow> PushFriendOfflineMsgReq_Msg \<Rightarrow> ('w, string option) state"
  cc_PushGroupMsg :: "'c \<Rightarrow> PushGroupMsgReq_Msg \<times> kafkaMsgInfo \<Rightarrow> ('w, string option) state"
  cc_PushFriendMsg :: "'c \<Rightarrow> PushFriendMsgReq_Msg \<times> kafkaMsgInfo \<Rightarrow> ('w, string option) state"

record ('w, 'c) task_env =
  te_redis :: "'w redis_api"
  te_servers :: RedisEnv
  te_crypto :: "'w crypto_api"
  te_id :: "int \<Rightarrow> string" \<comment> \<open>the text of a snowflake id\<close>
  te_client :: "('w, 'c) connect_client"
  te_range :: "string list \<Rightarrow> string list" \<comment> \<open>the order in which \<^verbatim>\<open>range\<close> visits the keys of a map\<close>

text \<open>
  The discovery of the connect servers, and \<^verbatim>\<open>connectRpcInstance.ins\<close>: one variable of the process that every call
  writes and then reads.
\<close>

record 'c task_state =
  ts_discovery :: "'c ServiceDiscovery"
  ts_ins :: "'c option"

text \<open>A worker goes on, ends, or brings the process down.\<close>

datatype worker_end = WorkerReturned | TaskPanic

type_synonym ('w, 'c, 'a) tasks = "('w \<times> 'c task_state, worker_end + 'a) state"

text \<open>
  The first half of a call: looking up an instance. An error leaves the variable nil and is returned, here
  as \<^term>\<open>False\<close>.
\<close>

definition find_server :: "string \<Rightarrow> ('w, 'c, bool) tasks" where
  "find_server serverId = inside (\<lambda>s.
     case GetServiceByServerId serverId (ts_discovery s) of
       None \<Rightarrow> (Inl TaskPanic, s)
     | Some (Inl _, d) \<Rightarrow> (Inr False, s\<lparr>ts_discovery := d, ts_ins := None\<rparr>)
     | Some (Inr ins, d) \<Rightarrow> (Inr True, s\<lparr>ts_discovery := d, ts_ins := Some ins\<rparr>))"

text \<open>The second half: the call over the connection found in the variable. An error is logged only.\<close>

definition call_server :: "('c \<Rightarrow> ('w, string option) state) \<Rightarrow> ('w, 'c, unit) tasks" where
  "call_server rpc = do {
     ins \<leftarrow> inside (\<lambda>s. (ts_ins s, s));
     (case ins of
        None \<Rightarrow> State_Monad.return (Inl TaskPanic)
      | Some c \<Rightarrow> do { err \<leftarrow> outside (rpc c); State_Monad.return (Inr ()) })
   }"

definition with_server :: "string \<Rightarrow> ('w, 'c, unit) tasks \<Rightarrow> ('w, 'c, unit) tasks" where
  "with_server serverId k = then_do (find_server serverId) (\<lambda>found. if found then k else State_Monad.return (Inr ()))"

definition proto_user :: "TUser \<Rightarrow> User" where
  "proto_user u = \<lparr>pu_Id = u_ID u, pu_Username = u_Username u, pu_Avatar = u_Avatar u,
     pu_Role = to_int32 (u_Role u), pu_Status = to_int32 (u_Status u), pu_Tag = u_Tag u,
     pu_CreateAt = format_rfc3339 (u_CreateAt u), pu_UpdateAt = format_rfc3339 (u_UpdateAt u)\<rparr>"

definition pushGroupInfoMsg :: "('w, 'c) task_env \<Rightarrow> string \<Rightarrow> GroupInfoMsg \<Rightarrow> ('w, 'c, unit) tasks" where
  "pushGroupInfoMsg te serverId msg = with_server serverId (call_server (\<lambda>c. cc_PushGroupInfoMsg (te_client te) c
     \<lparr>pgi_GroupId = gi_GroupId msg, pgi_Count = to_int32 (gi_Count msg),
      pgi_UserArr = (case gi_UserArr msg of None \<Rightarrow> [] | Some us \<Rightarrow> map proto_user us),
      pgi_Op = to_int32 (gi_Op msg), pgi_OnlineUserIds = gi_OnlineUserIds msg\<rparr>))"

definition pushGroupCountMsg :: "('w, 'c) task_env \<Rightarrow> string \<Rightarrow> GroupCountMsg \<Rightarrow> ('w, 'c, unit) tasks" where
  "pushGroupCountMsg te serverId msg = with_server serverId (call_server (\<lambda>c. cc_PushGroupCountMsg (te_client te) c
     \<lparr>pgc_GroupId = gc_GroupId msg, pgc_Count = to_int32 (gc_Count msg), pgc_Op = to_int32 (gc_Op msg)\<rparr>))"

definition pushFriendOnlineMsg :: "('w, 'c) task_env \<Rightarrow> string \<Rightarrow> FriendOnlineMsg \<Rightarrow> ('w, 'c, unit) tasks" where
  "pushFriendOnlineMsg te serverId msg = with_server serverId (call_server (\<lambda>c. cc_PushFriendOnlineMsg (te_client te) c
     \<lparr>pfo_FriendId = fo_FriendId msg, pfo_FriendName = fo_FriendName msg, pfo_Op = to_int32 (fo_Op msg),
      pfo_Belong = fo_Belong msg\<rparr>))"

definition pushFriendOfflineMsg :: "('w, 'c) task_env \<Rightarrow> string \<Rightarrow> FriendOfflineMsg \<Rightarrow> ('w, 'c, unit) tasks" where
  "pushFriendOfflineMsg te serverId msg = with_server serverId (call_server (\<lambda>c. cc_PushFriendOfflineMsg (te_client te) c
     \<lparr>pff_FriendId = ff_FriendId msg, pff_Op = to_int32 (ff_Op msg), pff_Belong = ff_Belong msg\<rparr>))"

text \<open>The position of a message in its topic, for the connect layer to commit.\<close>

definition kafka_info :: "KafkaMessage \<Rightarrow> kafkaMsgInfo" where
  "kafka_info msg = \<lparr>pk_Topic = km_Topic msg, pk_Partition = to_int32 (km_Partition msg), pk_Offset = km_Offset msg,
     pk_High_WaterMark = 0, pk_Key = [], pk_Value = [], pk_Headers = [], pk_Time = []\<rparr>"

text \<open>
  \<^verbatim>\<open>payload.Msg = new(T); json.Unmarshal(body, &payload); payload.Msg.(*T)\<close>: a message without a payload
  makes the interface nil and the type assertion panics.
\<close>

definition payload_as :: "'a decoder \<Rightarrow> 'a \<Rightarrow> string \<Rightarrow> int \<Rightarrow> 'a option MsgSend" where
  "payload_as dec zero body op = fst (Unmarshal (dec_MsgSend_into dec) body \<lparr>ms_Op = op, ms_Msg = Some zero\<rparr>)"

definition pushGroupMsg :: "('w, 'c) task_env \<Rightarrow> string \<Rightarrow> KafkaMessage \<Rightarrow> ('w, 'c, unit) tasks" where
  "pushGroupMsg te serverId msg = with_server serverId
     (case ms_Msg (payload_as dec_PushGroupMsgReq_Msg zero_PushGroupMsgReq_Msg (km_Value msg) 0) of
        None \<Rightarrow> State_Monad.return (Inl TaskPanic)
      | Some m \<Rightarrow> do {
          snowId \<leftarrow> outside (GetSnowflakeId (te_id te) (te_crypto te));
          call_server (\<lambda>c. cc_PushGroupMsg (te_client te) c (m\<lparr>pgm_SnowId := snowId\<rparr>, kafka_info msg))
        })"

definition pushFriendMsg :: "('w, 'c) task_env \<Rightarrow> string \<Rightarrow> KafkaMessage \<Rightarrow> ('w, 'c, unit) tasks" where
  "pushFriendMsg te serverId msg = with_server serverId
     (case ms_Msg (payload_as dec_PushFriendMsgReq_Msg zero_PushFriendMsgReq_Msg (km_Value msg) 0) of
        None \<Rightarrow> State_Monad.return (Inl TaskPanic)
      | Some m \<Rightarrow> do {
          snowId \<leftarrow> outside (GetSnowflakeId (te_id te) (te_crypto te));
          call_server (\<lambda>c. cc_PushFriendMsg (te_client te) c (m\<lparr>pfm_SnowId := snowId\<rparr>, kafka_info msg))
        })"

section \<open>Workers\<close>

text \<open>Each server that has members of the group online, once.\<close>

definition servers_of :: "('w, 'c) task_env \<Rightarrow> (string \<times> string) list \<Rightarrow> string list" where
  "servers_of te allOnlineUserId = te_range te (remdups (map snd allOnlineUserId))"

text \<open>
  The loop over the servers for the status of a group. The number of members is decoded anew for every server, and the
  variable \<^verbatim>\<open>payload\<close> with it.
\<close>

fun status_to_servers :: "('w, 'c) task_env \<Rightarrow> string \<Rightarrow> int \<Rightarrow> GroupInfoMsg option \<Rightarrow> string list \<Rightarrow> ('w, 'c, unit) tasks" where
  "status_to_servers te msg op info [] = State_Monad.return (Inr ())"
| "status_to_servers te msg op info (serverId # ids) =
     (if serverId = [] then status_to_servers te msg op info ids
      else if op = OpGroupInfoSend then
        (case info of
           None \<Rightarrow> State_Monad.return (Inl TaskPanic)
         | Some m \<Rightarrow> then_do (pushGroupInfoMsg te serverId m) (\<lambda>_. status_to_servers te msg op info ids))
      else if op = OpGroupOlineUserCountSend then
        (let p = payload_as dec_GroupCountMsg zero_GroupCountMsg msg op
         in case ms_Msg p of
              None \<Rightarrow> State_Monad.return (Inl TaskPanic)
            | Some m \<Rightarrow> then_do (pushGroupCountMsg te serverId m) (\<lambda>_. status_to_servers te msg (ms_Op p) None ids))
      else status_to_servers te msg op info ids)"

definition first_op :: "string \<Rightarrow> int" where
  "first_op body = ms_Op (fst (Unmarshal dec_MsgSend body zero_MsgSend))"

text \<open>
  One message off a status channel. A friend whose server is unknown ends the worker, not only the handling of the
  message.
\<close>

definition pushStatusMsgToConnect_step :: "('w, 'c) task_env \<Rightarrow> string \<Rightarrow> ('w, 'c, unit) tasks" where
  "pushStatusMsgToConnect_step te msg =
     (let op = first_op msg
      in if op = OpGroupInfoSend \<or> op = OpGroupOlineUserCountSend then
           (let p = payload_as dec_GroupInfoMsg zero_GroupInfoMsg msg op
            in case ms_Msg p of
                 None \<Rightarrow> State_Monad.return (Inl TaskPanic)
               | Some m \<Rightarrow> do {
                   res \<leftarrow> outside (RedisHGetAll (te_redis te) (te_servers te) (GroupOnlineUser (gi_GroupId m)));
                   (case res of
                      Inl _ \<Rightarrow> State_Monad.return (Inr ())
                    | Inr allOnlineUserId \<Rightarrow> status_to_servers te msg (ms_Op p) (Some m) (servers_of te allOnlineUserId))
                 })
         else if op = OpFriendOnlineSend \<or> op = OPFriendOffOnlineSend then
           (let p = payload_as dec_FriendOnlineMsg zero_FriendOnlineMsg msg op
            in case ms_Msg p of
                 None \<Rightarrow> State_Monad.return (Inl TaskPanic)
               | Some m \<Rightarrow> do {
                   res \<leftarrow> outside (RedisGetString (te_redis te) (te_servers te) (UseridMapServerId (fo_Belong m)));
                   (case res of
                      Inl _ \<Rightarrow> State_Monad.return (Inr ())
                    | Inr serverId \<Rightarrow>
                        if serverId = [] then State_Monad.return (Inl WorkerReturned)
                        else if ms_Op p = OpFriendOnlineSend then pushFriendOnlineMsg te serverId m
                        else if ms_Op p = OPFriendOffOnlineSend then
                          (case ms_Msg (payload_as dec_FriendOfflineMsg zero_FriendOfflineMsg msg (ms_Op p)) of
                             None \<Rightarrow> State_Monad.return (Inl TaskPanic)
                           | Some f \<Rightarrow> pushFriendOfflineMsg te serverId f)
                        else State_Monad.return (Inr ()))
                 })
         else State_Monad.return (Inr ()))"

text \<open>One message off a chat channel; the group is read from it as from a group info message.\<close>

definition pushMsgToConnect_step :: "('w, 'c) task_env \<Rightarrow> KafkaMessage \<Rightarrow> ('w, 'c, unit) tasks" where
  "pushMsgToConnect_step te msg =
     (let op = first_op (km_Value msg)
      in if op = OpGroupMsgSend then
           (case ms_Msg (payload_as dec_GroupInfoMsg zero_GroupInfoMsg (km_Value msg) op) of
              None \<Rightarrow> State_Monad.return (Inl TaskPanic)
            | Some m \<Rightarrow> do {
                res \<leftarrow> outside (RedisHGetAll (te_redis te) (te_servers te) (GroupOnlineUser (gi_GroupId m)));
                (case res of
                   Inl _ \<Rightarrow> State_Monad.return (Inr ())
                 | Inr allOnlineUserId \<Rightarrow> for_each (\<lambda>serverId. pushGroupMsg te serverId msg) (servers_of te allOnlineUserId))
              })
         else if op = OpFriendMsgSend then
           (case ms_Msg (payload_as dec_FriendOnlineMsg zero_FriendOnlineMsg (km_Value msg) op) of
              None \<Rightarrow> State_Monad.return (Inl TaskPanic)
            | Some m \<Rightarrow> do {
                res \<leftarrow> outside (RedisGetString (te_redis te) (te_servers te) (UseridMapServerId (fo_Belong m)));
                (case res of
                   Inl _ \<Rightarrow> State_Monad.return (Inr ())
                 | Inr serverId \<Rightarrow> pushFriendMsg te serverId msg)
              })
         else State_Monad.return (Inr ()))"

section \<open>Channels in front of the workers\<close>

record push_channels =
  pc_push :: "KafkaMessage list list"
  pc_status :: "string list list"

definition GoPush :: push_channels where
  "GoPush = \<lparr>pc_push = [[], []], pc_status = [[], []]\<rparr>"

text \<open>Sending into the channel that the random number chooses; \<^term>\<open>None\<close> while it is full.\<close>

definition send_to :: "nat \<Rightarrow> 'a \<Rightarrow> 'a list list \<Rightarrow> 'a list list option" where
  "send_to r x qs = (let i = r mod 2; q = qs ! i in if length q < 50 then Some (qs[i := q @ [x]]) else None)"

definition task_Push :: "nat \<Rightarrow> KafkaMessage \<Rightarrow> push_channels \<Rightarrow> push_channels option" where
  "task_Push r msg pc = map_option (\<lambda>qs. pc\<lparr>pc_push := qs\<rparr>) (send_to r msg (pc_push pc))"

definition PushStatusMsg :: "nat \<Rightarrow> string \<Rightarrow> push_channels \<Rightarrow> push_channels option" where
  "PushStatusMsg r msg pc = map_option (\<lambda>qs. pc\<lparr>pc_status := qs\<rparr>) (send_to r msg (pc_status pc))"

text \<open>
  One turn of \<^verbatim>\<open>fetchRedisQueueMsg\<close>: the message that goes into a channel, \<^term>\<open>None\<close> when there was none within
  the ten seconds or an error.
\<close>

definition fetchRedisQueueMsg_step :: "('w, 'c) task_env \<Rightarrow> ('w, string option) state" where
  "fetchRedisQueueMsg_step te = do {
     r \<leftarrow> RedisBRPOP (te_redis te) (te_servers te) StatusMsgQueue 10000000000;
     State_Monad.return (case r of Inl _ \<Rightarrow> None | Inr res \<Rightarrow> if length res < 2 then None else Some (res ! 1))
   }"

end
