(* ===== verification/Routing.thy ===== *)
theory Routing
  imports Task
begin

text \<open>
  Where the task layer sends what it takes off the queues: a chat message goes to every connect server that has one
  of its receivers, over a connection of that server and with its fields unchanged.
\<close>

section \<open>What is decoded\<close>

lemma integral_msgs [simp]:
  "integral (enc_GroupMsg m)" "integral (enc_FriendMsg f)" "integral (enc_FriendOfflineMsg o')" "integral (enc_FriendOnlineMsg n)"
  by (simp_all add: enc_GroupMsg_def enc_FriendMsg_def enc_FriendOfflineMsg_def enc_FriendOnlineMsg_def)

lemma first_op_body: "integral j \<Longrightarrow> int64_range op \<Longrightarrow> first_op (msg_body op j) = op"
  by (simp add: first_op_def msg_body_def enc_MsgSend_def dec_MsgSend_op equalFold_eval lower_def)

lemma payload_as_body:
  assumes "integral (JObj kvs)" and "int64_range op"
  shows "ms_Msg (payload_as dec zero (msg_body op (JObj kvs)) o') = Some (fst (dec (JObj kvs) zero))"
    and "ms_Op (payload_as dec zero (msg_body op (JObj kvs)) o') = op"
  using assms
  by (simp_all add: payload_as_def msg_body_def enc_MsgSend_def dec_MsgSend_into_def fld_def equalFold_eval lower_def case_prod_beta)

lemma op_range: "int64_range OpGroupMsgSend" "int64_range OpFriendMsgSend" "int64_range OPFriendOffOnlineSend"
  "int64_range OpFriendOnlineSend"
  by (simp_all add: op_defs int64_range_def)

lemma dec_FriendOnlineMsg_belong:
  "fo_Belong (fst (dec_FriendOnlineMsg (JObj kvs) x)) = read_field ''belong'' dec_int kvs (fo_Belong x)"
  unfolding dec_FriendOnlineMsg_def by (rule dec_struct_get) (simp add: field_eval)

text \<open>The numbers of a message are 64-bit, as all numbers that come from Go are.\<close>

definition group_msg_range :: "GroupMsg \<Rightarrow> bool" where
  "group_msg_range m \<longleftrightarrow> int64_range (gm_Userid m) \<and> int64_range (gm_GroupId m) \<and> int64_range (gm_Watermark m) \<and> gm_Op m = OpGroupMsgSend"

definition friend_msg_range :: "FriendMsg \<Rightarrow> bool" where
  "friend_msg_range m \<longleftrightarrow> int64_range (fm_Userid m) \<and> int64_range (fm_FriendId m) \<and> int64_range (fm_Belong m)
     \<and> int64_range (fm_Watermark m) \<and> fm_Op m = OpFriendMsgSend"

text \<open>What the connect server is asked to deliver.\<close>

definition group_request :: "GroupMsg \<Rightarrow> string \<Rightarrow> PushGroupMsgReq_Msg" where
  "group_request m snowId = \<lparr>pgm_Userid = gm_Userid m, pgm_GroupId = gm_GroupId m, pgm_Content = gm_Content m,
     pgm_MessageType = gm_MessageType m, pgm_GroupName = gm_GroupName m, pgm_FromUsername = gm_FromUsername m,
     pgm_CreateAt = gm_CreateAt m, pgm_Op = gm_Op m, pgm_SnowId = snowId, pgm_Avatar = gm_Avatar m, pgm_Belong = 0,
     pgm_Watermark = gm_Watermark m\<rparr>"

definition friend_request :: "FriendMsg \<Rightarrow> string \<Rightarrow> PushFriendMsgReq_Msg" where
  "friend_request m snowId = \<lparr>pfm_Userid = fm_Userid m, pfm_FriendId = fm_FriendId m, pfm_Content = fm_Content m,
     pfm_MessageType = fm_MessageType m, pfm_FriendName = fm_FriendName m, pfm_FromUsername = fm_FromUsername m,
     pfm_CreateAt = fm_CreateAt m, pfm_Op = fm_Op m, pfm_SnowId = snowId, pfm_Avatar = fm_Avatar m,
     pfm_Belong = fm_Belong m, pfm_Watermark = fm_Watermark m\<rparr>"

lemma dec_group_request:
  "group_msg_range m \<Longrightarrow>
   fst (dec_PushGroupMsgReq_Msg (enc_GroupMsg m) zero_PushGroupMsgReq_Msg) = group_request m []"
  by (simp add: group_msg_range_def enc_GroupMsg_def dec_PushGroupMsgReq_Msg_def fld_def equalFold_eval lower_def
      zero_PushGroupMsgReq_Msg_def group_request_def op_defs)

lemma dec_friend_request:
  "friend_msg_range m \<Longrightarrow>
   fst (dec_PushFriendMsgReq_Msg (enc_FriendMsg m) zero_PushFriendMsgReq_Msg) = friend_request m []"
  by (simp add: friend_msg_range_def enc_FriendMsg_def dec_PushFriendMsgReq_Msg_def fld_def equalFold_eval lower_def
      zero_PushFriendMsgReq_Msg_def friend_request_def op_defs)

lemma group_of_body:
  assumes "group_msg_range m"
  shows "\<exists>i. ms_Msg (payload_as dec_GroupInfoMsg zero_GroupInfoMsg (msg_body OpGroupMsgSend (enc_GroupMsg m)) o') = Some i
      \<and> gi_GroupId i = gm_GroupId m"
    and "ms_Msg (payload_as dec_PushGroupMsgReq_Msg zero_PushGroupMsgReq_Msg (msg_body OpGroupMsgSend (enc_GroupMsg m)) o')
      = Some (group_request m [])"
proof -
  obtain kvs where kvs: "enc_GroupMsg m = JObj kvs"
    by (simp add: enc_GroupMsg_def)
  note p = payload_as_body [of kvs, folded kvs, OF integral_msgs(1) op_range(1)]
  have "gi_GroupId (fst (dec_GroupInfoMsg (enc_GroupMsg m) zero_GroupInfoMsg)) = gm_GroupId m"
    using assms unfolding enc_GroupMsg_def dec_GroupInfoMsg_gid by (simp add: group_msg_range_def equalFold_eval lower_def)
  then show "\<exists>i. ms_Msg (payload_as dec_GroupInfoMsg zero_GroupInfoMsg (msg_body OpGroupMsgSend (enc_GroupMsg m)) o') = Some i
      \<and> gi_GroupId i = gm_GroupId m"
    unfolding p(1) by blast
  show "ms_Msg (payload_as dec_PushGroupMsgReq_Msg zero_PushGroupMsgReq_Msg (msg_body OpGroupMsgSend (enc_GroupMsg m)) o')
      = Some (group_request m [])"
    unfolding p(1) by (simp add: dec_group_request assms)
qed

lemma friend_of_body:
  assumes "friend_msg_range m"
  shows "\<exists>i. ms_Msg (payload_as dec_FriendOnlineMsg zero_FriendOnlineMsg (msg_body OpFriendMsgSend (enc_FriendMsg m)) o') = Some i
      \<and> fo_Belong i = fm_Belong m"
    and "ms_Msg (payload_as dec_PushFriendMsgReq_Msg zero_PushFriendMsgReq_Msg (msg_body OpFriendMsgSend (enc_FriendMsg m)) o')
      = Some (friend_request m [])"
proof -
  obtain kvs where kvs: "enc_FriendMsg m = JObj kvs"
    by (simp add: enc_FriendMsg_def)
  note p = payload_as_body [of kvs, folded kvs, OF integral_msgs(2) op_range(2)]
  have "fo_Belong (fst (dec_FriendOnlineMsg (enc_FriendMsg m) zero_FriendOnlineMsg)) = fm_Belong m"
    using assms unfolding enc_FriendMsg_def dec_FriendOnlineMsg_belong by (simp add: friend_msg_range_def equalFold_eval lower_def)
  then show "\<exists>i. ms_Msg (payload_as dec_FriendOnlineMsg zero_FriendOnlineMsg (msg_body OpFriendMsgSend (enc_FriendMsg m)) o') = Some i
      \<and> fo_Belong i = fm_Belong m"
    unfolding p(1) by blast
  show "ms_Msg (payload_as dec_PushFriendMsgReq_Msg zero_PushFriendMsgReq_Msg (msg_body OpFriendMsgSend (enc_FriendMsg m)) o')
      = Some (friend_request m [])"
    unfolding p(1) by (simp add: dec_friend_request assms)
qed

section \<open>Connections\<close>

definition instances :: "'c task_state \<Rightarrow> string \<Rightarrow> 'c list" where
  "instances s serverId = at_list (sd_serverList (ts_discovery s)) serverId"

lemma find_server_none:
  "instances s srv = [] \<Longrightarrow>
   run_state (find_server srv) (w, s) = (Inr False, w, s\<lparr>ts_ins := None\<rparr>)"
  by (auto simp: instances_def find_server_def GetServiceByServerId_def get_read_def at_list_def split: option.splits list.splits)

lemma find_server_some:
  assumes "instances s srv \<noteq> []"
  shows "\<exists>c s'. run_state (find_server srv) (w, s) = (Inr True, w, s') \<and> ts_ins s' = Some c \<and> c \<in> set (instances s srv)
     \<and> instances s' = instances s"
proof -
  let ?cs = "instances s srv"
  have ok: "serving srv (length ?cs) (ts_discovery s)"
    using assms by (simp add: serving_def instances_def)
  have "next_index srv (ts_discovery s) < length ?cs"
    using assms by (simp add: next_index_def instances_def)
  then have "?cs ! next_index srv (ts_discovery s) \<in> set ?cs"
    by (rule nth_mem)
  then show ?thesis
    by (auto simp: find_server_def GetServiceByServerId_serving [OF ok] instances_def fun_eq_iff)
qed

datatype connect_request = GroupInfoReq PushGroupInfoMsgReq_Msg | GroupCountReq PushGroupCountMsgReq_Msg
  | FriendOnlineReq PushFriendOnlineMsgReq_Msg | FriendOfflineReq PushFriendOfflineMsgReq_Msg
  | GroupMsgReq PushGroupMsgReq_Msg kafkaMsgInfo | FriendMsgReq PushFriendMsgReq_Msg kafkaMsgInfo

text \<open>One request of the kind \<open>Q\<close> over a connection of the server, or none when no instance is known.\<close>

definition sent_to :: "('w \<Rightarrow> ('c \<times> connect_request) list) \<Rightarrow> 'c task_state \<Rightarrow> (connect_request \<Rightarrow> bool) \<Rightarrow> string \<Rightarrow> 'w \<Rightarrow> 'w \<Rightarrow> bool" where
  "sent_to calls s Q srv w w' \<longleftrightarrow>
     (if instances s srv = [] then calls w' = calls w
      else \<exists>c r. c \<in> set (instances s srv) \<and> Q r \<and> calls w' = calls w @ [(c, r)])"

text \<open>
  \<open>calls w\<close> are the requests sent so far, each with the connection it was sent over. A call on a client sends its
  request, whatever comes back; the commands of Redis and the ids send none. \<^verbatim>\<open>range\<close> visits every key of a map once.
\<close>

locale connect_layer =
  fixes te :: "('w, 'c) task_env" and calls :: "'w \<Rightarrow> ('c \<times> connect_request) list"
  assumes GroupMsg_call: "run_state (cc_PushGroupMsg (te_client te) c gm) w = (e, w') \<Longrightarrow>
      calls w' = calls w @ [(c, GroupMsgReq (fst gm) (snd gm))]"
    and FriendMsg_call: "run_state (cc_PushFriendMsg (te_client te) c fm) w = (e, w') \<Longrightarrow>
      calls w' = calls w @ [(c, FriendMsgReq (fst fm) (snd fm))]"
    and hgetall_silent: "keeps calls (cmd_hgetall (te_redis te) a k)"
    and get_silent: "keeps calls (cmd_get (te_redis te) a k)"
    and snow_silent: "keeps calls (c_Snowflake (te_crypto te) n)"
    and range_perm: "mset (te_range te xs) = mset xs"
begin

lemma HGetAll_silent: "keeps calls (RedisHGetAll (te_redis te) (te_servers te) k)"
  using hgetall_silent by (auto simp: RedisHGetAll_def with_client_def intro!: kept split: sum.splits)

lemma GetString_silent: "keeps calls (RedisGetString (te_redis te) (te_servers te) k)"
  using get_silent by (auto simp: RedisGetString_def with_client_def intro!: kept split: sum.splits)

lemma servers_of_set: "set (servers_of te kvs) = snd ` set kvs" "distinct (servers_of te kvs)"
proof -
  have eq: "mset (servers_of te kvs) = mset (remdups (map snd kvs))"
    unfolding servers_of_def by (rule range_perm)
  show "set (servers_of te kvs) = snd ` set kvs"
    using mset_eq_setD [OF eq] by simp
  show "distinct (servers_of te kvs)"
    using mset_eq_imp_distinct_iff [OF eq] by simp
qed

lemma with_server_sent:
  assumes "\<And>s1 c. ts_ins s1 = Some c \<Longrightarrow> \<exists>w' r. run_state k (w, s1) = (Inr (), w', s1) \<and> Q r \<and> calls w' = calls w @ [(c, r)]"
  shows "\<exists>w' s'. run_state (with_server srv k) (w, s) = (Inr (), w', s') \<and> instances s' = instances s \<and> sent_to calls s Q srv w w'"
proof (cases "instances s srv = []")
  case True
  then show ?thesis
    by (auto simp: with_server_def then_do_def find_server_none sent_to_def instances_def)
next
  case False
  obtain c s1 where s1: "run_state (find_server srv) (w, s) = (Inr True, w, s1)" "ts_ins s1 = Some c" "c \<in> set (instances s srv)"
    "instances s1 = instances s"
    using find_server_some [OF False] by metis
  then show ?thesis
    using assms [OF s1(2)] False by (auto simp: with_server_def then_do_def sent_to_def)
qed

lemma call_server_run:
  "ts_ins s = Some c \<Longrightarrow> run_state (call_server rpc) (w, s) = (Inr (), snd (run_state (rpc c) w), s)"
  by (simp add: call_server_def case_prod_beta)

lemma snow_run: "\<exists>i w1. run_state (GetSnowflakeId (te_id te) (te_crypto te)) w = (i, w1) \<and> calls w1 = calls w"
proof -
  have "keeps calls (GetSnowflakeId (te_id te) (te_crypto te))"
    unfolding GetSnowflakeId_def by (intro kept snow_silent)
  then show ?thesis
    by (metis keepsD surj_pair)
qed

lemma pushGroupMsg_sent:
  assumes "ms_Msg (payload_as dec_PushGroupMsgReq_Msg zero_PushGroupMsgReq_Msg (km_Value msg) 0) = Some m"
  shows "\<exists>w' s'. run_state (pushGroupMsg te srv msg) (w, s) = (Inr (), w', s') \<and> instances s' = instances s
    \<and> sent_to calls s (\<lambda>r. \<exists>i. r = GroupMsgReq (m\<lparr>pgm_SnowId := i\<rparr>) (kafka_info msg)) srv w w'"
  unfolding pushGroupMsg_def assms option.case
proof (rule with_server_sent)
  fix s1 :: "'c task_state" and c assume c: "ts_ins s1 = Some c"
  obtain i w1 where i: "run_state (GetSnowflakeId (te_id te) (te_crypto te)) w = (i, w1)" "calls w1 = calls w"
    using snow_run by blast
  obtain e w2 where e: "run_state (cc_PushGroupMsg (te_client te) c (m\<lparr>pgm_SnowId := i\<rparr>, kafka_info msg)) w1 = (e, w2)"
    by (metis surj_pair)
  show "\<exists>w' r. run_state (do {
            snowId \<leftarrow> outside (GetSnowflakeId (te_id te) (te_crypto te));
            call_server (\<lambda>c. cc_PushGroupMsg (te_client te) c (m\<lparr>pgm_SnowId := snowId\<rparr>, kafka_info msg))
          }) (w, s1) = (Inr (), w', s1) \<and> (\<exists>i. r = GroupMsgReq (m\<lparr>pgm_SnowId := i\<rparr>) (kafka_info msg)) \<and> calls w' = calls w @ [(c, r)]"
    using GroupMsg_call [OF e] i(2) by (auto simp: i(1) call_server_run [OF c] e)
qed

lemma pushFriendMsg_sent:
  assumes "ms_Msg (payload_as dec_PushFriendMsgReq_Msg zero_PushFriendMsgReq_Msg (km_Value msg) 0) = Some m"
  shows "\<exists>w' s'. run_state (pushFriendMsg te srv msg) (w, s) = (Inr (), w', s') \<and> instances s' = instances s
    \<and> sent_to calls s (\<lambda>r. \<exists>i. r = FriendMsgReq (m\<lparr>pfm_SnowId := i\<rparr>) (kafka_info msg)) srv w w'"
  unfolding pushFriendMsg_def assms option.case
proof (rule with_server_sent)
  fix s1 :: "'c task_state" and c assume c: "ts_ins s1 = Some c"
  obtain i w1 where i: "run_state (GetSnowflakeId (te_id te) (te_crypto te)) w = (i, w1)" "calls w1 = calls w"
    using snow_run by blast
  obtain e w2 where e: "run_state (cc_PushFriendMsg (te_client te) c (m\<lparr>pfm_SnowId := i\<rparr>, kafka_info msg)) w1 = (e, w2)"
    by (metis surj_pair)
  show "\<exists>w' r. run_state (do {
            snowId \<leftarrow> outside (GetSnowflakeId (te_id te) (te_crypto te));
            call_server (\<lambda>c. cc_PushFriendMsg (te_client te) c (m\<lparr>pfm_SnowId := snowId\<rparr>, kafka_info msg))
          }) (w, s1) = (Inr (), w', s1) \<and> (\<exists>i. r = FriendMsgReq (m\<lparr>pfm_SnowId := i\<rparr>) (kafka_info msg)) \<and> calls w' = calls w @ [(c, r)]"
    using FriendMsg_call [OF e] i(2) by (auto simp: i(1) call_server_run [OF c] e)
qed

text \<open>A loop over servers sends one request to each that has an instance.\<close>

lemma for_each_sent:
  assumes "\<And>srv w s. \<exists>w' s'. run_state (f srv) (w, s) = (Inr (), w', s') \<and> instances s' = instances s \<and> sent_to calls s Q srv w w'"
  shows "\<exists>w' s' reqs. run_state (for_each f ids) (w, s) = (Inr (), w', s') \<and> calls w' = calls w @ reqs
    \<and> list_all2 (\<lambda>srv (c, r). c \<in> set (instances s srv) \<and> Q r) (filter (\<lambda>srv. instances s srv \<noteq> []) ids) reqs"
proof (induction ids arbitrary: w s)
  case (Cons srv ids)
  obtain w1 s1 where 1: "run_state (f srv) (w, s) = (Inr (), w1, s1)" "instances s1 = instances s" "sent_to calls s Q srv w w1"
    using assms by metis
  obtain w2 s2 reqs where 2: "run_state (for_each f ids) (w1, s1) = (Inr (), w2, s2)" "calls w2 = calls w1 @ reqs"
    "list_all2 (\<lambda>srv (c, r). c \<in> set (instances s srv) \<and> Q r) (filter (\<lambda>srv. instances s srv \<noteq> []) ids) reqs"
    using Cons.IH [of w1 s1] unfolding 1(2) by metis
  show ?case
    using 1(3) 2(2,3) by (cases "instances s srv = []") (auto simp: 1(1) 2(1) sent_to_def)
qed simp

end

section \<open>Properties of the routing\<close>

text \<open>
  C14: a group message as the logic layer publishes it is sent exactly once to every connect server on which a
  member of the group is filed as online and of which an instance is known, over a connection of that server, with
  the fields the sender gave and the position in Kafka; the worker goes on.
\<close>
theorem group_msg_routed:
  assumes "connect_layer te calls" and "km_Value msg = msg_body OpGroupMsgSend (enc_GroupMsg m)" and "group_msg_range m"
    and "run_state (RedisHGetAll (te_redis te) (te_servers te) (GroupOnlineUser (gm_GroupId m))) w = (Inr members, w1)"
  shows "\<exists>w' s' servers reqs. run_state (pushMsgToConnect_step te msg) (w, s) = (Inr (), w', s') \<and>
    distinct servers \<and> set servers = {srv \<in> snd ` set members. instances s srv \<noteq> []} \<and>
    calls w' = calls w @ reqs \<and>
    list_all2 (\<lambda>srv (c, r). c \<in> set (instances s srv) \<and> (\<exists>i. r = GroupMsgReq (group_request m i) (kafka_info msg))) servers reqs"
proof -
  let ?Q = "\<lambda>r. \<exists>i. r = GroupMsgReq (group_request m [] \<lparr>pgm_SnowId := i\<rparr>) (kafka_info msg)"
  let ?ids = "servers_of te members"
  have op: "first_op (km_Value msg) = OpGroupMsgSend"
    using assms(2) by (simp add: first_op_body op_range)
  obtain i where i: "ms_Msg (payload_as dec_GroupInfoMsg zero_GroupInfoMsg (km_Value msg) OpGroupMsgSend) = Some i"
    "gi_GroupId i = gm_GroupId m"
    using group_of_body(1) [OF assms(3)] assms(2) by metis
  have p: "ms_Msg (payload_as dec_PushGroupMsgReq_Msg zero_PushGroupMsgReq_Msg (km_Value msg) 0) = Some (group_request m [])"
    using group_of_body(2) [OF assms(3)] assms(2) by simp
  have w1: "calls w1 = calls w"
    using keepsD [OF connect_layer.HGetAll_silent [OF assms(1)] assms(4)] .
  obtain w' s' reqs where run: "run_state (for_each (\<lambda>serverId. pushGroupMsg te serverId msg) ?ids) (w1, s) = (Inr (), w', s')"
    "calls w' = calls w1 @ reqs"
    "list_all2 (\<lambda>srv (c, r). c \<in> set (instances s srv) \<and> ?Q r) (filter (\<lambda>srv. instances s srv \<noteq> []) ?ids) reqs"
    using connect_layer.for_each_sent [OF assms(1) connect_layer.pushGroupMsg_sent [OF assms(1) p], of ?ids w1 s] by blast
  have "run_state (pushMsgToConnect_step te msg) (w, s) = (Inr (), w', s')"
    using run(1) by (simp add: pushMsgToConnect_step_def op i assms(4))
  moreover have "group_request m [] \<lparr>pgm_SnowId := x\<rparr> = group_request m x" for x
    by (simp add: group_request_def)
  moreover have "set (filter (\<lambda>srv. instances s srv \<noteq> []) ?ids) = {srv \<in> snd ` set members. instances s srv \<noteq> []}"
    "distinct (filter (\<lambda>srv. instances s srv \<noteq> []) ?ids)"
    using connect_layer.servers_of_set [OF assms(1), of members] by auto
  ultimately show ?thesis
    using run(2,3) w1 by (simp only:) blast
qed

text \<open>
  C15: a private message is sent to the connect server on which the owner of the letter box is filed, once, over
  a connection of that server; when no instance of it is known nothing is sent. The worker goes on.
\<close>
theorem friend_msg_routed:
  assumes "connect_layer te calls" and "km_Value msg = msg_body OpFriendMsgSend (enc_FriendMsg m)" and "friend_msg_range m"
    and "run_state (RedisGetString (te_redis te) (te_servers te) (UseridMapServerId (fm_Belong m))) w = (Inr srv, w1)"
  shows "\<exists>w' s'. run_state (pushMsgToConnect_step te msg) (w, s) = (Inr (), w', s') \<and>
    sent_to calls s (\<lambda>r. \<exists>i. r = FriendMsgReq (friend_request m i) (kafka_info msg)) srv w w'"
proof -
  have op: "first_op (km_Value msg) = OpFriendMsgSend" "OpFriendMsgSend \<noteq> OpGroupMsgSend"
    using assms(2) by (simp_all add: first_op_body op_range) (simp add: op_defs)
  obtain i where i: "ms_Msg (payload_as dec_FriendOnlineMsg zero_FriendOnlineMsg (km_Value msg) OpFriendMsgSend) = Some i"
    "fo_Belong i = fm_Belong m"
    using friend_of_body(1) [OF assms(3)] assms(2) by metis
  have p: "ms_Msg (payload_as dec_PushFriendMsgReq_Msg zero_PushFriendMsgReq_Msg (km_Value msg) 0) = Some (friend_request m [])"
    using friend_of_body(2) [OF assms(3)] assms(2) by simp
  have w1: "calls w1 = calls w"
    using keepsD [OF connect_layer.GetString_silent [OF assms(1)] assms(4)] .
  have snow: "friend_request m [] \<lparr>pfm_SnowId := x\<rparr> = friend_request m x" for x
    by (simp add: friend_request_def)
  show ?thesis
    using connect_layer.pushFriendMsg_sent [OF assms(1) p, of srv w1 s]
    unfolding snow by (auto simp: pushMsgToConnect_step_def op i assms(4) sent_to_def w1)
qed

text \<open>
  C34: a notice for a friend that has never been connected ends the worker of its status channel: Redis has no server
  for the friend, and the code returns instead of going on with the next message.
\<close>
theorem status_worker_stops:
  assumes "run_state (RedisGetString (te_redis te) (te_servers te) (UseridMapServerId friendId)) w = (Inr [], w1)"
    and "int64_range userid" "int64_range friendId"
  shows "run_state (pushStatusMsgToConnect_step te (msg_body OPFriendOffOnlineSend
      (enc_FriendOfflineMsg \<lparr>ff_FriendId = userid, ff_Op = OPFriendOffOnlineSend, ff_Belong = friendId\<rparr>))) (w, s)
    = (Inl WorkerReturned, w1, s)"
proof -
  let ?m = "\<lparr>ff_FriendId = userid, ff_Op = OPFriendOffOnlineSend, ff_Belong = friendId\<rparr>"
  let ?body = "msg_body OPFriendOffOnlineSend (enc_FriendOfflineMsg ?m)"
  obtain kvs where kvs: "enc_FriendOfflineMsg ?m = JObj kvs"
    by (simp add: enc_FriendOfflineMsg_def)
  have op: "first_op ?body = OPFriendOffOnlineSend" "OPFriendOffOnlineSend \<noteq> OpGroupInfoSend"
    "OPFriendOffOnlineSend \<noteq> OpGroupOlineUserCountSend"
    by (simp_all add: first_op_body op_range) (simp_all add: op_defs)
  have p: "ms_Msg (payload_as dec_FriendOnlineMsg zero_FriendOnlineMsg ?body OPFriendOffOnlineSend)
      = Some (fst (dec_FriendOnlineMsg (enc_FriendOfflineMsg ?m) zero_FriendOnlineMsg))"
    by (rule payload_as_body(1) [of kvs, folded kvs, OF integral_msgs(3) op_range(3)])
  have "fo_Belong (fst (dec_FriendOnlineMsg (enc_FriendOfflineMsg ?m) zero_FriendOnlineMsg)) = friendId"
    using assms(3) unfolding enc_FriendOfflineMsg_def dec_FriendOnlineMsg_belong by (simp add: equalFold_eval lower_def)
  then show ?thesis
    using assms(1) by (simp add: pushStatusMsgToConnect_step_def op p Let_def)
qed

text \<open>
  The connection of a call is kept in one variable of the process. When two workers look up their servers before
  the first one calls, the request of the first goes to the server of the second.
\<close>
theorem wrong_server_race:
  assumes "instances s serverA \<noteq> []" and "instances s serverB \<noteq> []"
  shows "\<exists>c s1 s2. run_state (find_server serverA) (w, s) = (Inr True, w, s1) \<and>
    run_state (find_server serverB) (w, s1) = (Inr True, w, s2) \<and> c \<in> set (instances s serverB) \<and>
    run_state (call_server rpc) (w, s2) = (Inr (), snd (run_state (rpc c) w), s2)"
proof -
  obtain c1 s1 where 1: "run_state (find_server serverA) (w, s) = (Inr True, w, s1)" "instances s1 = instances s"
    using find_server_some [OF assms(1), of w] by blast
  obtain c s2 where 2: "run_state (find_server serverB) (w, s1) = (Inr True, w, s2)" "ts_ins s2 = Some c" "c \<in> set (instances s serverB)"
    using find_server_some [of s1 serverB w] assms(2) unfolding 1(2) by blast
  show ?thesis
    using 1(1) 2 by (intro exI [of _ c] exI [of _ s1] exI [of _ s2]) (simp add: call_server_def case_prod_beta)
qed

section \<open>A task layer with two connect servers\<close>

record task_world =
  tw_redis :: rstore
  tw_calls :: "(string \<times> connect_request) list"

definition log_call :: "(string \<times> connect_request) \<Rightarrow> (task_world, string option) state" where
  "log_call r = State (\<lambda>w. (None, w\<lparr>tw_calls := tw_calls w @ [r]\<rparr>))"

definition ref_task :: "(task_world, string) task_env" where
  "ref_task = \<lparr>te_redis = mem_redis tw_redis (\<lambda>s w. w\<lparr>tw_redis := s\<rparr>), te_servers = env1,
     te_crypto = \<lparr>c_GenerateFromPassword = (\<lambda>p c. State_Monad.return (Inl [])), c_CompareHashAndPassword = (\<lambda>h p. False),
       c_ReadRandom = (\<lambda>n. State_Monad.return []), c_Snowflake = (\<lambda>n. State_Monad.return 1)\<rparr>,
     te_id = fmt_d,
     te_client = \<lparr>cc_PushGroupInfoMsg = (\<lambda>c m. log_call (c, GroupInfoReq m)), cc_PushGroupCountMsg = (\<lambda>c m. log_call (c, GroupCountReq m)),
       cc_PushFriendOnlineMsg = (\<lambda>c m. log_call (c, FriendOnlineReq m)),
       cc_PushFriendOfflineMsg = (\<lambda>c m. log_call (c, FriendOfflineReq m)),
       cc_PushGroupMsg = (\<lambda>c m. log_call (c, GroupMsgReq (fst m) (snd m))),
       cc_PushFriendMsg = (\<lambda>c m. log_call (c, FriendMsgReq (fst m) (snd m)))\<rparr>,
     te_range = (\<lambda>xs. xs)\<rparr>"

interpretation two: connect_layer ref_task tw_calls
  by unfold_locales
     (auto simp: ref_task_def log_call_def mem_redis_def mem_read_def keeps_def)

text \<open>Users 1 and 2 of group 7 are on the server \<^verbatim>\<open>a\<close>, user 3 on \<^verbatim>\<open>b\<close>; both have one instance.\<close>

definition two_servers :: "string task_state" where
  "two_servers = \<lparr>ts_discovery = \<lparr>sd_serverList = [''a'' \<mapsto> [''conn a''], ''b'' \<mapsto> [''conn b'']],
     sd_indexMap = [''a'' \<mapsto> 0, ''b'' \<mapsto> 0], sd_serverKey = Map.empty\<rparr>, ts_ins = None\<rparr>"

definition members7 :: "(string \<times> string) list" where
  "members7 = [(''1'', ''a''), (''2'', ''a''), (''3'', ''b'')]"

definition task_world0 :: task_world where
  "task_world0 = \<lparr>tw_redis = (\<lambda>a. [GroupOnlineUser 7 \<mapsto> RHash members7, UseridMapServerId 3 \<mapsto> RStr ''b'']), tw_calls = []\<rparr>"

definition hi_group :: GroupMsg where
  "hi_group = zero_GroupMsg\<lparr>gm_Userid := 1, gm_GroupId := 7, gm_Content := ''hi'', gm_Op := OpGroupMsgSend\<rparr>"

definition hi_friend :: FriendMsg where
  "hi_friend = \<lparr>fm_Userid = 1, fm_FriendId = 3, fm_Content = ''hi'', fm_MessageType = [], fm_CreateAt = [], fm_FriendName = [],
     fm_FromUsername = [], fm_Avatar = [], fm_Op = OpFriendMsgSend, fm_Belong = 3, fm_Watermark = 0\<rparr>"

lemma two_instances: "instances two_servers ''a'' = [''conn a'']" "instances two_servers ''b'' = [''conn b'']"
  by (simp_all add: instances_def two_servers_def at_list_def)

lemma keys_apart: "UseridMapServerId u \<noteq> GroupOnlineUser g" "GroupOnlineUser g \<noteq> UseridMapServerId u"
  by (simp_all add: key_defs)

lemma world0_reads:
  "run_state (RedisHGetAll (te_redis ref_task) (te_servers ref_task) (GroupOnlineUser 7)) task_world0 = (Inr members7, task_world0)"
  "run_state (RedisGetString (te_redis ref_task) (te_servers ref_task) (UseridMapServerId 3)) task_world0 = (Inr ''b'', task_world0)"
  "run_state (RedisGetString (te_redis ref_task) (te_servers ref_task) (UseridMapServerId 4)) task_world0 = (Inr [], task_world0)"
  by (simp_all add: RedisHGetAll_def RedisGetString_def with_client_def env1_routes ref_task_def mem_redis_def mem_read_def
      task_world0_def err_of_def nil_as_def keys_apart members7_def) (simp add: key_defs)

lemma hi_range: "group_msg_range hi_group" "friend_msg_range hi_friend"
  by (simp_all add: group_msg_range_def friend_msg_range_def hi_group_def hi_friend_def zero_GroupMsg_def int64_range_def)

theorem group_msg_routed_witness:
  "\<exists>w' s' servers reqs. run_state (pushMsgToConnect_step ref_task (plain_msg (GroupQueue 7) 5 (msg_body OpGroupMsgSend (enc_GroupMsg hi_group))))
      (task_world0, two_servers) = (Inr (), w', s') \<and> set servers = {''a'', ''b''} \<and> length reqs = 2 \<and> tw_calls w' = reqs"
proof -
  let ?msg = "plain_msg (GroupQueue 7) 5 (msg_body OpGroupMsgSend (enc_GroupMsg hi_group))"
  have v: "km_Value ?msg = msg_body OpGroupMsgSend (enc_GroupMsg hi_group)" and g: "gm_GroupId hi_group = 7"
    by (simp_all add: plain_msg_def hi_group_def)
  obtain w' s' servers reqs where r: "run_state (pushMsgToConnect_step ref_task ?msg) (task_world0, two_servers) = (Inr (), w', s')"
    "distinct servers" "set servers = {srv \<in> snd ` set members7. instances two_servers srv \<noteq> []}"
    "tw_calls w' = tw_calls task_world0 @ reqs"
    "list_all2 (\<lambda>srv (c, r). c \<in> set (instances two_servers srv)
       \<and> (\<exists>i. r = GroupMsgReq (group_request hi_group i) (kafka_info ?msg))) servers reqs"
    using group_msg_routed [OF two.connect_layer_axioms v hi_range(1) world0_reads(1) [folded g], of two_servers] by blast
  have "set servers = {''a'', ''b''}"
    unfolding r(3) by (auto simp: members7_def two_instances)
  moreover have "length servers = 2"
    using distinct_card [OF r(2)] calculation by simp
  ultimately show ?thesis
    using r(1,4) list_all2_lengthD [OF r(5)] by (auto simp: task_world0_def)
qed

theorem friend_msg_routed_witness:
  "\<exists>w' s' i. run_state (pushMsgToConnect_step ref_task (plain_msg (FriendQueue 3) 5 (msg_body OpFriendMsgSend (enc_FriendMsg hi_friend))))
      (task_world0, two_servers) = (Inr (), w', s') \<and>
     tw_calls w' = [(''conn b'', FriendMsgReq (friend_request hi_friend i)
       (kafka_info (plain_msg (FriendQueue 3) 5 (msg_body OpFriendMsgSend (enc_FriendMsg hi_friend)))))]"
proof -
  let ?msg = "plain_msg (FriendQueue 3) 5 (msg_body OpFriendMsgSend (enc_FriendMsg hi_friend))"
  have v: "km_Value ?msg = msg_body OpFriendMsgSend (enc_FriendMsg hi_friend)" and g: "fm_Belong hi_friend = 3"
    by (simp_all add: plain_msg_def hi_friend_def)
  show ?thesis
    using friend_msg_routed [OF two.connect_layer_axioms v hi_range(2) world0_reads(2) [folded g], of two_servers]
    by (auto simp: sent_to_def two_instances task_world0_def)
qed

theorem status_worker_stops_witness:
  "run_state (pushStatusMsgToConnect_step ref_task (msg_body OPFriendOffOnlineSend
      (enc_FriendOfflineMsg \<lparr>ff_FriendId = 3, ff_Op = OPFriendOffOnlineSend, ff_Belong = 4\<rparr>))) (task_world0, two_servers)
    = (Inl WorkerReturned, task_world0, two_servers)"
  by (rule status_worker_stops [OF world0_reads(3)]) (simp_all add: int64_range_def)

theorem wrong_server_race_witness:
  "\<exists>c s1 s2. run_state (find_server ''a'') (task_world0, two_servers) = (Inr True, task_world0, s1) \<and>
    run_state (find_server ''b'') (task_world0, s1) = (Inr True, task_world0, s2) \<and> c = ''conn b'' \<and>
    run_state (call_server (\<lambda>c. log_call (c, FriendOfflineReq \<lparr>pff_FriendId = 1, pff_Op = 6, pff_Belong = 2\<rparr>))) (task_world0, s2)
      = (Inr (), task_world0\<lparr>tw_calls := [(c, FriendOfflineReq \<lparr>pff_FriendId = 1, pff_Op = 6, pff_Belong = 2\<rparr>)]\<rparr>, s2)"
  using wrong_server_race [of two_servers "''a''" "''b''" task_world0
      "\<lambda>c. log_call (c, FriendOfflineReq \<lparr>pff_FriendId = 1, pff_Op = 6, pff_Belong = 2\<rparr>)"]
  by (simp add: two_instances log_call_def task_world0_def)

end
