(* ===== verification/Pumps.thy ===== *)
theory Pumps
  imports WsServer RedisStore Discovery Db
begin

text \<open>
  The two goroutines of a client connection (\<^verbatim>\<open>connect/server_ws.go\<close>), with the calls to the logic layer they make
  (\<^verbatim>\<open>connect/connect.go\<close>, \<^verbatim>\<open>connect/operator.go\<close>): \<^verbatim>\<open>readPump\<close> enters and removes the user, \<^verbatim>\<open>writePump\<close> writes to the
  client, commits offsets and keeps messages in a letter box in Redis until they are saved. The websocket library and the
  logic client are parameters. The two loops are given by their turns; which event comes next is not theirs to say.
\<close>

section \<open>Environment\<close>

text \<open>Deadlines are durations from now. The body of a message that was read is \<^term>\<open>None\<close> when it is nil.\<close>

record 'w ws_api =
  ws_SetWriteDeadline :: "nat \<Rightarrow> int \<Rightarrow> ('w, string option) state"
  ws_WriteMessage :: "nat \<Rightarrow> int \<Rightarrow> string \<Rightarrow> ('w, string option) state"
  ws_NextWriter :: "nat \<Rightarrow> int \<Rightarrow> ('w, string + nat) state"
  ws_Write :: "nat \<Rightarrow> string \<Rightarrow> ('w, string option) state"
  ws_CloseWriter :: "nat \<Rightarrow> ('w, string option) state"
  ws_Close :: "nat \<Rightarrow> ('w, string option) state"
  ws_SetReadLimit :: "nat \<Rightarrow> int \<Rightarrow> ('w, unit) state"
  ws_SetReadDeadline :: "nat \<Rightarrow> int \<Rightarrow> ('w, string option) state"
  ws_ReadMessage :: "nat \<Rightarrow> ('w, int \<times> string option \<times> string option) state"
  ws_IsUnexpectedCloseError :: "string \<Rightarrow> bool"

definition TextMessage :: int where "TextMessage = 1"
definition CloseMessage :: int where "CloseMessage = 8"
definition PingMessage :: int where "PingMessage = 9"

record 'w pump_env =
  pe_redis :: "'w redis_api"
  pe_servers :: RedisEnv
  pe_db :: "'w gorm_api"
  pe_ws :: "'w ws_api"
  pe_options :: wsServerOptions
  pe_sleep :: "int \<Rightarrow> ('w, unit) state" \<comment> \<open>\<^verbatim>\<open>time.Sleep\<close>, in milliseconds\<close>
  pe_tries :: nat \<comment> \<open>how many attempts at a lock are considered\<close>

text \<open>A turn goes on, ends the pump, has spent its attempts at a lock, or panics.\<close>

datatype pump_end = PumpReturned | StillWaiting | PumpPanic

section \<open>Locks\<close>

fun retry_lock :: "'w pump_env \<Rightarrow> int \<Rightarrow> RedisLockObj \<Rightarrow> nat \<Rightarrow> ('w, pump_end + unit) state" where
  "retry_lock pe ms rl 0 = State_Monad.return (Inl StillWaiting)"
| "retry_lock pe ms rl (Suc n) = do {
     (lock, _) \<leftarrow> Acquire (pe_redis pe) rl;
     _ \<leftarrow> pe_sleep pe ms;
     (if lock then State_Monad.return (Inr ()) else retry_lock pe ms rl n)
   }"

definition take_lock :: "'w pump_env \<Rightarrow> int \<Rightarrow> RedisLockObj \<Rightarrow> ('w, pump_end + unit) state" where
  "take_lock pe ms rl = do {
     (lock, _) \<leftarrow> Acquire (pe_redis pe) rl;
     (if lock then State_Monad.return (Inr ()) else retry_lock pe ms rl (pe_tries pe))
   }"

text \<open>The constructor's error is dropped by the callers; a method of the nil pointer panics.\<close>

definition release_lock :: "'w pump_env \<Rightarrow> redis_error + RedisLockObj \<Rightarrow> ('w, pump_end + unit) state" where
  "release_lock pe lk =
     (case lk of
        Inl _ \<Rightarrow> State_Monad.return (Inl PumpPanic)
      | Inr rl \<Rightarrow> do { _ \<leftarrow> Release (pe_redis pe) rl; State_Monad.return (Inr ()) })"

definition box_lock :: "'w pump_env \<Rightarrow> string \<Rightarrow> redis_error + RedisLockObj" where
  "box_lock pe box = map_sum id (SetExpire 60) (NewRedisLocker (pe_servers pe) (PersistentLock box) ''lock'')"

section \<open>Persisting messages\<close>

text \<open>A message waits in the letter box, a hash from snowflake ids to rows.\<close>

definition put_in_box :: "'w pump_env \<Rightarrow> int \<Rightarrow> string \<Rightarrow> string \<Rightarrow> TMessage \<Rightarrow> ('w, pump_end + unit) state" where
  "put_in_box pe ms box snowId dbMsg =
     (case box_lock pe box of
        Inl _ \<Rightarrow> State_Monad.return (Inl PumpPanic)
      | Inr rLock \<Rightarrow> then_do (take_lock pe ms rLock) (\<lambda>_. do {
          err \<leftarrow> RedisHSet (pe_redis pe) (pe_servers pe) box snowId (json_print (enc_message dbMsg));
          _ \<leftarrow> Release (pe_redis pe) rLock;
          State_Monad.return (Inr ())
        }))"

record MsgOp =
  mo_Op :: int

definition dec_MsgOp :: "MsgOp decoder" where
  "dec_MsgOp = dec_struct [fld ''op'' dec_int32 mo_Op (\<lambda>v m. m\<lparr>mo_Op := v\<rparr>)]"

definition group_row :: "PushGroupMsgReq_Msg \<Rightarrow> TMessage" where
  "group_row m = zero_message\<lparr>m_Belong := pgm_GroupId m, m_SnowID := pgm_SnowId m, m_Type := ''group'',
     m_Content := pgm_Content m, m_FromA := pgm_Userid m, m_ToB := pgm_GroupId m, m_MessageType := pgm_MessageType m\<rparr>"

definition friend_row :: "int \<Rightarrow> PushFriendMsgReq_Msg \<Rightarrow> TMessage" where
  "friend_row userid m = zero_message\<lparr>m_Belong := userid, m_SnowID := pfm_SnowId m, m_Type := ''friend'',
     m_Content := pfm_Content m, m_FromA := pfm_Userid m, m_ToB := pfm_FriendId m, m_MessageType := pfm_MessageType m\<rparr>"

definition persist_msg :: "'w pump_env \<Rightarrow> int \<Rightarrow> string \<Rightarrow> ('w, pump_end + unit) state" where
  "persist_msg pe userid value =
     (let op = mo_Op (fst (Unmarshal dec_MsgOp value \<lparr>mo_Op = 0\<rparr>))
      in if op = OpGroupMsgSend then
           (let m = fst (Unmarshal dec_PushGroupMsgReq_Msg value zero_PushGroupMsgReq_Msg)
            in put_in_box pe 280 (GroupLetterBox (pgm_GroupId m)) (pgm_SnowId m) (group_row m))
         else if op = OpFriendMsgSend then
           (let m = fst (Unmarshal dec_PushFriendMsgReq_Msg value zero_PushFriendMsgReq_Msg)
            in put_in_box pe 290 (UserLetterBox userid) (pfm_SnowId m) (friend_row userid m))
         else State_Monad.return (Inr ()))"

text \<open>
  A message that was written to the client: the offset is committed in Redis unless a later one is there already, the
  lock of the topic is released and the message is put in its letter box.
\<close>

definition consume_msg :: "'w pump_env \<Rightarrow> int \<Rightarrow> KafkaMessage \<Rightarrow> ('w, pump_end + unit) state" where
  "consume_msg pe userid msg = do {
     let redisLocker = NewRedisLocker (pe_servers pe) (RedisLock (km_Topic msg)) (km_Topic msg);
     res \<leftarrow> or_zero (RedisGetString (pe_redis pe) (pe_servers pe) (KafkaTopicOffset (km_Topic msg))) [];
     let offset = ki_Offset (fst (Unmarshal dec_KafkaMsgInfo res zero_KafkaMsgInfo));
     (if km_Offset msg \<le> offset \<and> offset \<noteq> 0 then release_lock pe redisLocker
      else or_fail (RedisSetString (pe_redis pe) (pe_servers pe) (KafkaTopicOffset (km_Topic msg))
             (json_print (enc_KafkaMsgInfo \<lparr>ki_Topic = km_Topic msg, ki_Partition = km_Partition msg, ki_Offset = km_Offset msg\<rparr>)) 0)
             PumpReturned
             (\<lambda>_. then_do (release_lock pe redisLocker) (\<lambda>_. persist_msg pe userid (km_Value msg))))
   }"

text \<open>
  The rows of a letter box go to the database and the box is deleted. An error while reading leaves the lock taken; an
  error of the database is dropped by \<^verbatim>\<open>SaveMsgInBatches\<close>.
\<close>

definition row_of :: "string \<times> string \<Rightarrow> TMessage" where
  "row_of kv = fst (Unmarshal dec_message (snd kv) zero_message)"

definition save_box :: "'w pump_env \<Rightarrow> RedisLockObj \<Rightarrow> string \<Rightarrow> ('w, pump_end + unit) state" where
  "save_box pe rLock box =
     or_fail (RedisHGetAll (pe_redis pe) (pe_servers pe) box) PumpReturned (\<lambda>kvs. do {
       _ \<leftarrow> SaveMsgInBatches (pe_db pe) (map row_of kvs);
       _ \<leftarrow> RedisDelString (pe_redis pe) (pe_servers pe) box;
       _ \<leftarrow> Release (pe_redis pe) rLock;
       State_Monad.return (Inr ())
     })"

text \<open>
  The loop over the groups: the variable \<^verbatim>\<open>lock\<close> is still true from the user's box, so the lock of a group's box is never
  taken, only released. An error while reading ends the loop.
\<close>

fun save_groups :: "'w pump_env \<Rightarrow> int list \<Rightarrow> ('w, pump_end + unit) state" where
  "save_groups pe [] = State_Monad.return (Inr ())"
| "save_groups pe (groupId # ids) =
     (case box_lock pe (GroupLetterBox groupId) of
        Inl _ \<Rightarrow> State_Monad.return (Inl PumpPanic)
      | Inr rLock \<Rightarrow> do {
          r \<leftarrow> save_box pe rLock (GroupLetterBox groupId);
          (case r of Inl _ \<Rightarrow> State_Monad.return (Inr ()) | Inr _ \<Rightarrow> save_groups pe ids)
        })"

definition saveChatDataToDb :: "'w pump_env \<Rightarrow> int \<Rightarrow> int list \<Rightarrow> ('w, pump_end + unit) state" where
  "saveChatDataToDb pe userid groupIds =
     (case box_lock pe (UserLetterBox userid) of
        Inl _ \<Rightarrow> State_Monad.return (Inr ())
      | Inr rLock \<Rightarrow> then_do (take_lock pe 300 rLock) (\<lambda>_. do {
          r \<leftarrow> save_box pe rLock (UserLetterBox userid);
          (case r of Inl _ \<Rightarrow> State_Monad.return (Inr ()) | Inr _ \<Rightarrow> save_groups pe groupIds)
        }))"

section \<open>writePump\<close>

text \<open>
  Writing one text message. The error of \<^verbatim>\<open>Write\<close> is overwritten by that of \<^verbatim>\<open>Close\<close>; \<^term>\<open>False\<close> when nothing was
  written.
\<close>

definition write_frame :: "'w pump_env \<Rightarrow> nat \<Rightarrow> string \<Rightarrow> ('w, bool) state" where
  "write_frame pe conn body = do {
     wr \<leftarrow> ws_NextWriter (pe_ws pe) conn TextMessage;
     (case wr of
        Inl _ \<Rightarrow> State_Monad.return False
      | Inr w \<Rightarrow> do {
          _ \<leftarrow> ws_Write (pe_ws pe) w (DealWebSocketResp body);
          err \<leftarrow> ws_CloseWriter (pe_ws pe) w;
          State_Monad.return (err = None)
        })
   }"

definition close_frame :: "'w pump_env \<Rightarrow> nat \<Rightarrow> ('w, unit) state" where
  "close_frame pe conn = do { _ \<leftarrow> ws_WriteMessage (pe_ws pe) conn CloseMessage []; State_Monad.return () }"

text \<open>A status message, written by a goroutine of its own; \<^term>\<open>None\<close> stands for the closed channel.\<close>

definition write_status :: "'w pump_env \<Rightarrow> nat \<Rightarrow> string option \<Rightarrow> ('w, unit) state" where
  "write_status pe conn msg = do {
     _ \<leftarrow> ws_SetWriteDeadline (pe_ws pe) conn (WriteWait (pe_options pe));
     (case msg of
        None \<Rightarrow> close_frame pe conn
      | Some body \<Rightarrow> do { _ \<leftarrow> write_frame pe conn body; State_Monad.return () })
   }"

definition write_chat :: "'w pump_env \<Rightarrow> nat \<Rightarrow> int \<Rightarrow> KafkaMessage option \<Rightarrow> ('w, pump_end + unit) state" where
  "write_chat pe conn userid msg = do {
     _ \<leftarrow> ws_SetWriteDeadline (pe_ws pe) conn (WriteWait (pe_options pe));
     (case msg of
        None \<Rightarrow> do { _ \<leftarrow> close_frame pe conn; State_Monad.return (Inl PumpReturned) }
      | Some m \<Rightarrow> do {
          ok \<leftarrow> write_frame pe conn (km_Value m);
          (if ok then consume_msg pe userid m else State_Monad.return (Inl PumpReturned))
        })
   }"

definition write_ping :: "'w pump_env \<Rightarrow> nat \<Rightarrow> ('w, pump_end + unit) state" where
  "write_ping pe conn = do {
     _ \<leftarrow> ws_SetWriteDeadline (pe_ws pe) conn (WriteWait (pe_options pe));
     err \<leftarrow> ws_WriteMessage (pe_ws pe) conn PingMessage [];
     State_Monad.return (if err = None then Inr () else Inl PumpReturned)
   }"

datatype pump_event = StatusArrived "string option" | ChatArrived "KafkaMessage option" | CommitTick | PingTick

fun writePump_step :: "'w pump_env \<Rightarrow> nat \<Rightarrow> int \<Rightarrow> int list \<Rightarrow> pump_event \<Rightarrow> ('w, pump_end + unit) state" where
  "writePump_step pe conn userid groupIds (StatusArrived msg) =
     do { _ \<leftarrow> write_status pe conn msg; State_Monad.return (Inr ()) }"
| "writePump_step pe conn userid groupIds (ChatArrived msg) = write_chat pe conn userid msg"
| "writePump_step pe conn userid groupIds CommitTick = saveChatDataToDb pe userid groupIds"
| "writePump_step pe conn userid groupIds PingTick = write_ping pe conn"

text \<open>What runs when the pump ends.\<close>

definition writePump_deferred :: "'w pump_env \<Rightarrow> nat \<Rightarrow> int \<Rightarrow> int list \<Rightarrow> ('w, pump_end + unit) state" where
  "writePump_deferred pe conn userid groupIds =
     do { _ \<leftarrow> ws_Close (pe_ws pe) conn; saveChatDataToDb pe userid groupIds }"

section \<open>Calls to the logic layer\<close>

record ('w, 'c) logic_client =
  lc_Connect :: "'c \<Rightarrow> string \<Rightarrow> string \<Rightarrow> ('w, string + int) state"
  lc_DisConnect :: "'c \<Rightarrow> int \<Rightarrow> ('w, string option) state"

record 'c LogicRpcInstance =
  ll_discovery :: "'c ServiceDiscovery"
  ll_serverId :: string
  ll_ins :: "'c option"

text \<open>The instance to call, or the error that there is none.\<close>

definition logic_instance :: "'c LogicRpcInstance \<Rightarrow> (string + 'c) option \<times> 'c LogicRpcInstance" where
  "logic_instance l =
     (case GetServiceByServerId (ll_serverId l) (ll_discovery l) of
        None \<Rightarrow> (None, l)
      | Some (Inl _, d) \<Rightarrow> (Some (Inl ''no instance''), l\<lparr>ll_discovery := d, ll_ins := None\<rparr>)
      | Some (Inr c, d) \<Rightarrow> (Some (Inr c), l\<lparr>ll_discovery := d, ll_ins := Some c\<rparr>))"

definition Connect_Connect ::
  "('w, 'c) logic_client \<Rightarrow> string \<Rightarrow> string \<Rightarrow> ('w \<times> 'c LogicRpcInstance, pump_end + (string + int)) state" where
  "Connect_Connect lc accessToken serverId = do {
     ins \<leftarrow> inside logic_instance;
     (case ins of
        None \<Rightarrow> State_Monad.return (Inl PumpPanic)
      | Some (Inl e) \<Rightarrow> State_Monad.return (Inr (Inl e))
      | Some (Inr c) \<Rightarrow> do { r \<leftarrow> outside (lc_Connect lc c accessToken serverId); State_Monad.return (Inr r) })
   }"

definition Connect_DisConnect ::
  "('w, 'c) logic_client \<Rightarrow> int \<Rightarrow> ('w \<times> 'c LogicRpcInstance, pump_end + string option) state" where
  "Connect_DisConnect lc userid = do {
     ins \<leftarrow> inside logic_instance;
     (case ins of
        None \<Rightarrow> State_Monad.return (Inl PumpPanic)
      | Some (Inl e) \<Rightarrow> State_Monad.return (Inr (Some e))
      | Some (Inr c) \<Rightarrow> do { r \<leftarrow> outside (lc_DisConnect lc c userid); State_Monad.return (Inr r) })
   }"

section \<open>readPump\<close>

record wsConnReq =
  cr_AccessToken :: string

definition dec_wsConnReq :: "wsConnReq decoder" where
  "dec_wsConnReq = dec_struct [fld ''accessToken'' dec_string cr_AccessToken (\<lambda>v m. m\<lparr>cr_AccessToken := v\<rparr>)]"

text \<open>The process of the connect layer: its buckets and connections, and its link to the logic layer.\<close>

type_synonym 'c connect_process = "conn_state \<times> 'c LogicRpcInstance"

definition on_link :: "('w \<times> 'c LogicRpcInstance, 'a) state \<Rightarrow> ('w \<times> 'c connect_process, 'a) state" where
  "on_link m = State (\<lambda>(w, cs, l). case run_state m (w, l) of (a, w', l') \<Rightarrow> (a, w', cs, l'))"

definition on_buckets :: "(conn_state \<Rightarrow> 'a \<times> conn_state) \<Rightarrow> ('w \<times> 'c connect_process, 'a) state" where
  "on_buckets f = State (\<lambda>(w, cs, l). case f cs of (a, cs') \<Rightarrow> (a, w, cs', l))"

definition in_bucket :: "nat \<Rightarrow> (Bucket \<times> heap \<Rightarrow> Bucket \<times> heap) \<Rightarrow> conn_state \<Rightarrow> conn_state" where
  "in_bucket i f s = (case s of (ws, h) \<Rightarrow>
     (case f (ws_Buckets ws ! i, h) of (b, h') \<Rightarrow> (ws\<lparr>ws_Buckets := (ws_Buckets ws)[i := b]\<rparr>, h')))"

text \<open>The loop that enters the connection in its groups.\<close>

definition join_groups :: "nat \<Rightarrow> int \<Rightarrow> cref \<Rightarrow> int list \<Rightarrow> conn_state \<Rightarrow> conn_state" where
  "join_groups i userid c groupIds s = fold (\<lambda>val. in_bucket i (PutChannel userid val c)) groupIds s"

text \<open>\<^verbatim>\<open>ws.Bucket(userId)\<close>, the groups from Redis, and the loop.\<close>

definition enter_user :: "'w pump_env \<Rightarrow> cref \<Rightarrow> int \<Rightarrow> ('w \<times> 'c connect_process, pump_end + unit) state" where
  "enter_user pe c userId = do {
     bucket \<leftarrow> on_buckets (\<lambda>s. (bucket_of (fst s) userId, s));
     (case bucket of
        None \<Rightarrow> State_Monad.return (Inl PumpPanic)
      | Some i \<Rightarrow>
          or_fail (outside (RedisGetString (pe_redis pe) (pe_servers pe) (UserGroupList userId))) PumpReturned (\<lambda>res. do {
            _ \<leftarrow> on_buckets (\<lambda>s. ((), join_groups i userId c (fst (Unmarshal dec_ints res [])) s));
            State_Monad.return (Inr ())
          }))
   }"

text \<open>What runs before the loop; the handler of pongs extends the deadline in the same way.\<close>

definition readPump_start :: "'w pump_env \<Rightarrow> nat \<Rightarrow> ('w, unit) state" where
  "readPump_start pe conn = do {
     _ \<leftarrow> ws_SetReadLimit (pe_ws pe) conn (MaxMessageSize (pe_options pe));
     _ \<leftarrow> ws_SetReadDeadline (pe_ws pe) conn (PongWait (pe_options pe));
     State_Monad.return ()
   }"

text \<open>One turn of the loop.\<close>

definition readPump_step ::
  "'w pump_env \<Rightarrow> ('w, 'c) logic_client \<Rightarrow> string \<Rightarrow> nat \<Rightarrow> cref \<Rightarrow> ('w \<times> 'c connect_process, pump_end + unit) state" where
  "readPump_step pe lc serverId conn c = do {
     (msgType, message, err) \<leftarrow> outside (ws_ReadMessage (pe_ws pe) conn);
     (if (case err of None \<Rightarrow> False | Some e \<Rightarrow> ws_IsUnexpectedCloseError (pe_ws pe) e) then State_Monad.return (Inl PumpReturned)
      else (case message of
        None \<Rightarrow> State_Monad.return (Inl PumpReturned)
      | Some body \<Rightarrow>
          (let token = cr_AccessToken (fst (Unmarshal dec_wsConnReq body \<lparr>cr_AccessToken = []\<rparr>))
           in if token = [] then State_Monad.return (Inl PumpReturned)
              else then_do (on_link (Connect_Connect lc token serverId)) (\<lambda>r.
                (case r of
                   Inl _ \<Rightarrow> State_Monad.return (Inl PumpReturned)
                 | Inr userId \<Rightarrow>
                     if userId = 0 then State_Monad.return (Inl PumpReturned)
                     else do {
                       err \<leftarrow> outside (ws_WriteMessage (pe_ws pe) conn msgType ''ok'');
                       (if err \<noteq> None then State_Monad.return (Inl PumpReturned) else enter_user pe c userId)
                     })))))
   }"

text \<open>What runs when the pump ends: a connection that never joined is only closed.\<close>

definition readPump_deferred ::
  "'w pump_env \<Rightarrow> ('w, 'c) logic_client \<Rightarrow> nat \<Rightarrow> cref \<Rightarrow> ('w \<times> 'c connect_process, pump_end + unit) state" where
  "readPump_deferred pe lc conn c = do {
     userid \<leftarrow> on_buckets (\<lambda>s. (ch_Userid (h_ch (snd s) c), s));
     (if userid = 0 then do { _ \<leftarrow> outside (ws_Close (pe_ws pe) conn); State_Monad.return (Inr ()) }
      else do {
        bucket \<leftarrow> on_buckets (\<lambda>s. (bucket_of (fst s) userid, s));
        (case bucket of
           None \<Rightarrow> State_Monad.return (Inl PumpPanic)
         | Some i \<Rightarrow> do {
             _ \<leftarrow> on_buckets (\<lambda>s. ((), in_bucket i (DeleteChanel c) s));
             then_do (on_link (Connect_DisConnect lc userid)) (\<lambda>_. do {
               _ \<leftarrow> outside (ws_Close (pe_ws pe) conn);
               State_Monad.return (Inr ())
             })
           })
      })
   }"

end
