(* ===== verification/LetterBox.thy ===== *)
theory LetterBox
  imports Pumps RedisFrame Kafka
begin

text \<open>
  Consumed messages: the committed offset of a topic only grows, a message is put in its letter box by the first
  consumer only, and saving moves a letter box to the database.
\<close>

section \<open>What the pumps rely on\<close>

text \<open>
  Besides the laws of Redis: every key has a server, and while a pump sleeps, nothing else changes Redis. The statements
  are thus about one consumer at a time, which the lock of the topic is there to ensure.
\<close>

locale letter_box = lock_server "pe_redis pe" view for pe :: "'w pump_env" and view :: "'w \<Rightarrow> rstore" +
  assumes quiet [kept]: "keeps view (pe_sleep pe ms)"
    and routed: "\<exists>a. GetRedisClientByKey (pe_servers pe) k = Inr a"

text \<open>Commands on a letter box are answered, provided the box is a hash or absent.\<close>

definition box_answers :: "'w redis_api \<Rightarrow> ('w \<Rightarrow> rstore) \<Rightarrow> bool" where
  "box_answers api view \<longleftrightarrow>
     (\<forall>a k f v w u w'. run_state (cmd_hset api a k f v) w = (u, w') \<longrightarrow> is_hash (view w a k) \<longrightarrow> u = Val ()) \<and>
     (\<forall>a k w r w'. run_state (cmd_hgetall api a k) w = (r, w') \<longrightarrow> is_hash (view w a k) \<longrightarrow> (\<exists>kvs. r = Val kvs)) \<and>
     (\<forall>a k w u w'. run_state (cmd_del api a k) w = (u, w') \<longrightarrow> u = Val ())"

lemma box_answersD:
  assumes "box_answers api view"
  shows "run_state (cmd_hset api a k f v) w = (u, w') \<Longrightarrow> is_hash (view w a k) \<Longrightarrow> u = Val ()"
    and "run_state (cmd_hgetall api a k) w = (r, w'') \<Longrightarrow> is_hash (view w a k) \<Longrightarrow> \<exists>kvs. r = Val kvs"
    and "run_state (cmd_del api a k) w = (u', w3) \<Longrightarrow> u' = Val ()"
  using assms unfolding box_answers_def by blast+

definition committed :: "('w \<Rightarrow> rstore) \<Rightarrow> RedisEnv \<Rightarrow> 'w \<Rightarrow> string \<Rightarrow> int" where
  "committed view env w topic =
     ki_Offset (fst (Unmarshal dec_KafkaMsgInfo (str_at (store view env w (KafkaTopicOffset topic))) zero_KafkaMsgInfo))"

lemma box_keys [simp]:
  "GroupLetterBox g \<noteq> PersistentLock k" "UserLetterBox u \<noteq> PersistentLock k" "KafkaTopicOffset t \<noteq> PersistentLock k"
  "GroupLetterBox g \<noteq> RedisLock t" "UserLetterBox u \<noteq> RedisLock t" "KafkaTopicOffset t \<noteq> RedisLock t'"
  "GroupLetterBox g \<noteq> KafkaTopicOffset t" "UserLetterBox u \<noteq> KafkaTopicOffset t"
  "KafkaTopicOffset t \<noteq> GroupLetterBox g" "KafkaTopicOffset t \<noteq> UserLetterBox u"
  "GroupLetterBox g = GroupLetterBox g' \<longleftrightarrow> g = g'" "UserLetterBox u \<noteq> GroupLetterBox g" "GroupLetterBox g \<noteq> UserLetterBox u"
  by (simp_all add: key_defs)

text \<open>The group message of a request and its row are recovered from the text.\<close>

definition request_range :: "PushGroupMsgReq_Msg \<Rightarrow> bool" where
  "request_range m \<longleftrightarrow> int64_range (pgm_Userid m) \<and> int64_range (pgm_GroupId m) \<and> int64_range (pgm_Belong m)
     \<and> int64_range (pgm_Watermark m) \<and> pgm_Op m = OpGroupMsgSend"

lemma dec_MsgOp_op: "mo_Op (fst (dec_MsgOp (JObj kvs) x)) = read_field ''op'' dec_int32 kvs (mo_Op x)"
  unfolding dec_MsgOp_def by (rule dec_struct_get) (simp add: field_eval)

lemma request_op:
  "request_range m \<Longrightarrow> mo_Op (fst (Unmarshal dec_MsgOp (json_print (enc_PushGroupMsgReq_Msg m)) \<lparr>mo_Op = 0\<rparr>)) = OpGroupMsgSend"
  unfolding Unmarshal_print [OF integral_group_msg(1)]
  unfolding enc_PushGroupMsgReq_Msg_def dec_MsgOp_op by (simp add: request_range_def equalFold_eval lower_def op_defs)

lemma dec_request_get:
  "pgm_Userid (fst (dec_PushGroupMsgReq_Msg (JObj kvs) x)) = read_field ''userid'' dec_int kvs (pgm_Userid x)"
  "pgm_GroupId (fst (dec_PushGroupMsgReq_Msg (JObj kvs) x)) = read_field ''groupId'' dec_int kvs (pgm_GroupId x)"
  "pgm_Content (fst (dec_PushGroupMsgReq_Msg (JObj kvs) x)) = read_field ''content'' dec_string kvs (pgm_Content x)"
  "pgm_MessageType (fst (dec_PushGroupMsgReq_Msg (JObj kvs) x)) = read_field ''messageType'' dec_string kvs (pgm_MessageType x)"
  "pgm_SnowId (fst (dec_PushGroupMsgReq_Msg (JObj kvs) x)) = read_field ''snowId'' dec_string kvs (pgm_SnowId x)"
  unfolding dec_PushGroupMsgReq_Msg_def by (rule dec_struct_get, simp add: field_eval)+

lemma request_decoded:
  assumes "request_range m"
  shows "group_row (fst (Unmarshal dec_PushGroupMsgReq_Msg (json_print (enc_PushGroupMsgReq_Msg m)) zero_PushGroupMsgReq_Msg)) = group_row m"
    and "pgm_GroupId (fst (Unmarshal dec_PushGroupMsgReq_Msg (json_print (enc_PushGroupMsgReq_Msg m)) zero_PushGroupMsgReq_Msg)) = pgm_GroupId m"
    and "pgm_SnowId (fst (Unmarshal dec_PushGroupMsgReq_Msg (json_print (enc_PushGroupMsgReq_Msg m)) zero_PushGroupMsgReq_Msg)) = pgm_SnowId m"
  using assms unfolding group_row_def Unmarshal_print [OF integral_group_msg(1)]
  unfolding enc_PushGroupMsgReq_Msg_def dec_request_get
  by (simp_all add: request_range_def equalFold_eval lower_def zero_PushGroupMsgReq_Msg_def)

lemma friend_decoded:
  assumes "friend_range m"
  shows "mo_Op (fst (Unmarshal dec_MsgOp (json_print (enc_PushFriendMsgReq_Msg m)) \<lparr>mo_Op = 0\<rparr>)) = OpFriendMsgSend"
    and "friend_row u (fst (Unmarshal dec_PushFriendMsgReq_Msg (json_print (enc_PushFriendMsgReq_Msg m)) zero_PushFriendMsgReq_Msg)) = friend_row u m"
    and "pfm_SnowId (fst (Unmarshal dec_PushFriendMsgReq_Msg (json_print (enc_PushFriendMsgReq_Msg m)) zero_PushFriendMsgReq_Msg)) = pfm_SnowId m"
proof -
  show "mo_Op (fst (Unmarshal dec_MsgOp (json_print (enc_PushFriendMsgReq_Msg m)) \<lparr>mo_Op = 0\<rparr>)) = OpFriendMsgSend"
    using assms unfolding Unmarshal_print [OF integral_group_msg(2)]
    unfolding enc_PushFriendMsgReq_Msg_def dec_MsgOp_op by (simp add: friend_range_def equalFold_eval lower_def op_defs)
qed (simp_all add: friend_msg_read [OF assms] del: Unmarshal_print)

text \<open>
  The two kinds of chat messages: the text that is written to the client, and where it is kept, under which id and as
  which row.
\<close>

datatype chat = GroupChat PushGroupMsgReq_Msg | FriendChat PushFriendMsgReq_Msg

fun chat_body :: "chat \<Rightarrow> string" where
  "chat_body (GroupChat m) = body_of enc_PushGroupMsgReq_Msg (Some m)"
| "chat_body (FriendChat m) = body_of enc_PushFriendMsgReq_Msg (Some m)"

fun chat_range :: "chat \<Rightarrow> bool" where
  "chat_range (GroupChat m) = request_range m"
| "chat_range (FriendChat m) = friend_range m"

fun chat_box :: "int \<Rightarrow> chat \<Rightarrow> string" where
  "chat_box userid (GroupChat m) = GroupLetterBox (pgm_GroupId m)"
| "chat_box userid (FriendChat m) = UserLetterBox userid"

fun chat_id :: "chat \<Rightarrow> string" where
  "chat_id (GroupChat m) = pgm_SnowId m"
| "chat_id (FriendChat m) = pfm_SnowId m"

fun chat_row :: "int \<Rightarrow> chat \<Rightarrow> TMessage" where
  "chat_row userid (GroupChat m) = group_row m"
| "chat_row userid (FriendChat m) = friend_row userid m"

lemma chat_box_keys [simp]: "chat_box u c \<noteq> PersistentLock k" "chat_box u c \<noteq> RedisLock t" "chat_box u c \<noteq> KafkaTopicOffset t"
  "KafkaTopicOffset t \<noteq> chat_box u c"
  by (cases c; simp)+

lemma committed_written:
  assumes "store view env w (KafkaTopicOffset t) = Some (RStr (json_print (enc_KafkaMsgInfo k)))"
    and "int64_range (ki_Partition k)" "int64_range (ki_Offset k)"
  shows "committed view env w t = ki_Offset k"
  using KafkaMsgInfo_roundtrip [OF assms(2,3)] by (simp add: committed_def assms(1) str_at_def del: Unmarshal_print)

context letter_box
begin

abbreviation env :: RedisEnv where "env \<equiv> pe_servers pe"

lemma lock_keeps:
  assumes "NewRedisLocker env key v = Inr rl" and "l \<noteq> key"
  shows "keeps (\<lambda>w. store view env w l) (Acquire (pe_redis pe) (SetExpire t rl))"
    "keeps (\<lambda>w. store view env w l) (Release (pe_redis pe) (SetExpire t rl))"
    "keeps (\<lambda>w. store view env w l) (Release (pe_redis pe) rl)"
proof -
  have rl: "GetRedisClientByKey env key = Inr (rl_client rl)" "rl_key rl = key"
    using assms(1) by (auto simp: NewRedisLocker_def split: sum.splits)
  have "only_at view (rl_client rl) key w w' \<Longrightarrow> store view env w' l = store view env w l" for w w'
    using only_at_store rl(1) assms(2) by blast
  then show "keeps (\<lambda>w. store view env w l) (Acquire (pe_redis pe) (SetExpire t rl))"
    "keeps (\<lambda>w. store view env w l) (Release (pe_redis pe) (SetExpire t rl))"
    "keeps (\<lambda>w. store view env w l) (Release (pe_redis pe) rl)"
    by (auto intro!: keepsI simp: Acquire_def Release_def SetExpire_def rl(2) dest!: lock_law unlock_law split: prod.splits)
qed

lemma quiet_store [kept]: "keeps (\<lambda>w. store view env w l) (pe_sleep pe ms)"
  by (rule keeps_store [OF quiet])

lemma take_lock_keeps:
  assumes "NewRedisLocker env key v = Inr rl" and "l \<noteq> key"
  shows "keeps (\<lambda>w. store view env w l) (take_lock pe ms (SetExpire t rl))"
proof -
  note acq = lock_keeps(1) [OF assms, of t]
  have "keeps (\<lambda>w. store view env w l) (retry_lock pe ms (SetExpire t rl) n)" for n
    by (induction n) (auto simp: case_prod_beta intro!: kept acq)
  then show ?thesis
    unfolding take_lock_def case_prod_beta by (intro kept acq)
qed

lemma box_lock_Inr: "box_lock pe box = Inr rl \<Longrightarrow> \<exists>rl0. NewRedisLocker env (PersistentLock box) ''lock'' = Inr rl0 \<and> rl = SetExpire 60 rl0"
  by (cases "NewRedisLocker env (PersistentLock box) ''lock''") (auto simp: box_lock_def)

lemma put_in_box_keeps:
  assumes "l \<noteq> box" and "l \<noteq> PersistentLock box"
  shows "keeps (\<lambda>w. store view env w l) (put_in_box pe ms box i r)"
proof (cases "box_lock pe box")
  case (Inr rl)
  then obtain rl0 where rl: "NewRedisLocker env (PersistentLock box) ''lock'' = Inr rl0" "rl = SetExpire 60 rl0"
    using box_lock_Inr by blast
  show ?thesis
    unfolding put_in_box_def Inr sum.case rl(2)
    by (intro kept take_lock_keeps [OF rl(1) assms(2)] keeps_other(4) assms(1) lock_keeps(2) [OF rl(1) assms(2)])
qed (simp add: put_in_box_def kept)

lemma put_in_box_stores:
  assumes "box_answers (pe_redis pe) view" and "run_state (put_in_box pe ms box i r) w = (Inr u, w')"
    and "is_hash (store view env w box)" and "box \<noteq> PersistentLock box"
  shows "hashes view env w' box = (hashes view env w box)(i \<mapsto> json_print (enc_message r))"
proof -
  obtain rl0 where rl: "NewRedisLocker env (PersistentLock box) ''lock'' = Inr rl0" "box_lock pe box = Inr (SetExpire 60 rl0)"
    using assms(2) box_lock_Inr by (cases "box_lock pe box") (auto simp: put_in_box_def)
  obtain w1 v e w2 where run: "run_state (take_lock pe ms (SetExpire 60 rl0)) w = (Inr v, w1)"
    "run_state (RedisHSet (pe_redis pe) env box i (json_print (enc_message r))) w1 = (e, w2)"
    "snd (run_state (Release (pe_redis pe) (SetExpire 60 rl0)) w2) = w'"
    using assms(2) unfolding put_in_box_def rl(2) sum.case
    by (auto simp: then_do_Inr bind_run simp del: run_state_bind)
  have box1: "store view env w1 box = store view env w box"
    using keepsD [OF take_lock_keeps [OF rl(1) assms(4)] run(1)] by simp
  obtain a where a: "GetRedisClientByKey env box = Inr a"
    using routed by blast
  obtain x w3 where x: "run_state (cmd_hset (pe_redis pe) a box i (json_print (enc_message r))) w1 = (x, w3)"
    by (metis surj_pair)
  have "x = Val ()"
    using box_answersD(1) [OF assms(1) x] assms(3) box1 a by (simp add: store_def)
  then have "e = Inr ()"
    using run(2) by (auto simp: RedisHSet_def with_client_def a x)
  then have "hashes view env w2 box = (hashes view env w1 box)(i \<mapsto> json_print (enc_message r))"
    using hashes.hset_value run(2) by simp
  moreover have "store view env w' box = store view env w2 box"
    using lock_keeps(2) [OF rl(1) assms(4), of 60] unfolding run(3) [symmetric] keeps_def by blast
  ultimately show ?thesis
    using box1 by (simp add: hashes_def)
qed

lemma release_lock_keeps:
  "l \<noteq> RedisLock t \<Longrightarrow> keeps (\<lambda>w. store view env w l) (release_lock pe (NewRedisLocker env (RedisLock t) t))"
  by (cases "NewRedisLocker env (RedisLock t) t") (auto simp: release_lock_def intro!: kept lock_keeps(3))

text \<open>What a message that is consumed leaves alone.\<close>

lemma persist_keeps: "keeps (\<lambda>w. store view env w (KafkaTopicOffset t)) (persist_msg pe userid value)"
  unfolding persist_msg_def Let_def by (auto intro!: kept put_in_box_keeps)

lemma consume_run:
  assumes "run_state (consume_msg pe userid msg) w = (Inr u, w')"
    and "run_state (RedisGetString (pe_redis pe) env (KafkaTopicOffset (km_Topic msg))) w = (Inr s, w0)"
  shows "if km_Offset msg \<le> committed view env w (km_Topic msg) \<and> committed view env w (km_Topic msg) \<noteq> 0
    then \<forall>l. l \<noteq> RedisLock (km_Topic msg) \<longrightarrow> store view env w' l = store view env w l
    else \<exists>w1. run_state (persist_msg pe userid (km_Value msg)) w1 = (Inr u, w') \<and>
      store view env w1 (KafkaTopicOffset (km_Topic msg)) = Some (RStr (json_print (enc_KafkaMsgInfo
        \<lparr>ki_Topic = km_Topic msg, ki_Partition = km_Partition msg, ki_Offset = km_Offset msg\<rparr>))) \<and>
      (\<forall>l. l \<notin> {KafkaTopicOffset (km_Topic msg), RedisLock (km_Topic msg)} \<longrightarrow> store view env w1 l = store view env w l)"
proof -
  let ?t = "km_Topic msg"
  have same: "store view env w0 = store view env w"
    using strings.get_same [OF assms(2)] .
  have s: "committed view env w ?t = ki_Offset (fst (Unmarshal dec_KafkaMsgInfo s zero_KafkaMsgInfo))"
    using strings.get_value [OF assms(2)] by (simp add: committed_def)
  have get: "run_state (or_zero (RedisGetString (pe_redis pe) env (KafkaTopicOffset ?t)) []) w = (s, w0)"
    using assms(2) by (simp add: or_zero_run)
  show ?thesis
  proof (cases "km_Offset msg \<le> committed view env w ?t \<and> committed view env w ?t \<noteq> 0")
    case True
    have "run_state (release_lock pe (NewRedisLocker env (RedisLock ?t) ?t)) w0 = (Inr u, w')"
      using assms(1) True by (simp add: consume_msg_def Let_def get s)
    then show ?thesis
      using True keepsD [OF release_lock_keeps] same by simp
  next
    case False
    then obtain w1 w2 where r: "run_state (RedisSetString (pe_redis pe) env (KafkaTopicOffset ?t) (json_print (enc_KafkaMsgInfo
          \<lparr>ki_Topic = ?t, ki_Partition = km_Partition msg, ki_Offset = km_Offset msg\<rparr>)) 0) w0 = (Inr (), w1)"
      "run_state (release_lock pe (NewRedisLocker env (RedisLock ?t) ?t)) w1 = (Inr (), w2)"
      "run_state (persist_msg pe userid (km_Value msg)) w2 = (Inr u, w')"
      using assms(1) by (auto simp: consume_msg_def Let_def get s or_fail_Inr then_do_Inr)
    have "store view env w2 l = store view env w1 l" if "l \<noteq> RedisLock ?t" for l
      using keepsD [OF release_lock_keeps [OF that] r(2)] by simp
    then show ?thesis
      using False r(3) strings.put_value [OF r(1)] strings.put_other [OF r(1)] same
      by (intro if_not_P [THEN iffD2] exI [of _ w2]) auto
  qed
qed

lemma persist_group:
  "request_range m \<Longrightarrow> persist_msg pe userid (body_of enc_PushGroupMsgReq_Msg (Some m)) =
     put_in_box pe 280 (GroupLetterBox (pgm_GroupId m)) (pgm_SnowId m) (group_row m)"
  by (simp add: persist_msg_def body_of_def Let_def request_op request_decoded del: Unmarshal_print)

lemma persist_friend:
  assumes "friend_range m"
  shows "persist_msg pe userid (body_of enc_PushFriendMsgReq_Msg (Some m)) =
     put_in_box pe 290 (UserLetterBox userid) (pfm_SnowId m) (friend_row userid m)"
proof -
  have "OpFriendMsgSend \<noteq> OpGroupMsgSend"
    by (simp add: op_defs)
  then show ?thesis
    using assms by (simp add: persist_msg_def body_of_def Let_def friend_decoded del: Unmarshal_print)
qed

lemma persist_chat:
  "chat_range c \<Longrightarrow> \<exists>ms. persist_msg pe userid (chat_body c) = put_in_box pe ms (chat_box userid c) (chat_id c) (chat_row userid c)"
  by (cases c) (auto simp: persist_group persist_friend)

text \<open>Storing a new message: its box gets the row, and no key changes but the box and its lock.\<close>

lemma persist_stores:
  assumes "box_answers (pe_redis pe) view" and "chat_range c" and "run_state (persist_msg pe userid (chat_body c)) w1 = (Inr u, w')"
    and "is_hash (store view env w1 (chat_box userid c))"
  shows "hashes view env w' (chat_box userid c) = (hashes view env w1 (chat_box userid c))(chat_id c \<mapsto> json_print (enc_message (chat_row userid c)))"
    and "l \<noteq> chat_box userid c \<Longrightarrow> l \<noteq> PersistentLock (chat_box userid c) \<Longrightarrow> store view env w' l = store view env w1 l"
proof -
  obtain ms where run: "run_state (put_in_box pe ms (chat_box userid c) (chat_id c) (chat_row userid c)) w1 = (Inr u, w')"
    using persist_chat [OF assms(2), of userid] assms(3) by auto
  show "hashes view env w' (chat_box userid c) = (hashes view env w1 (chat_box userid c))(chat_id c \<mapsto> json_print (enc_message (chat_row userid c)))"
    using put_in_box_stores [OF assms(1) run assms(4)] by simp
  show "l \<noteq> chat_box userid c \<Longrightarrow> l \<noteq> PersistentLock (chat_box userid c) \<Longrightarrow> store view env w' l = store view env w1 l"
    using keepsD [OF put_in_box_keeps run] by blast
qed

lemma consume_chat:
  assumes "box_answers (pe_redis pe) view" and "km_Value msg = chat_body c" and "chat_range c"
    and "0 \<le> km_Offset msg" "int64_range (km_Offset msg)" "int64_range (km_Partition msg)"
    and "run_state (RedisGetString (pe_redis pe) env (KafkaTopicOffset (km_Topic msg))) w = (Inr s, w0)"
    and "run_state (consume_msg pe userid msg) w = (Inr u, w')" and "is_hash (store view env w (chat_box userid c))"
  shows "committed view env w' (km_Topic msg) = max (committed view env w (km_Topic msg)) (km_Offset msg)
    \<and> hashes view env w' (chat_box userid c) =
       (if km_Offset msg \<le> committed view env w (km_Topic msg) \<and> committed view env w (km_Topic msg) \<noteq> 0
        then hashes view env w (chat_box userid c)
        else (hashes view env w (chat_box userid c))(chat_id c \<mapsto> json_print (enc_message (chat_row userid c))))
    \<and> (\<forall>l. l \<notin> {chat_box userid c, PersistentLock (chat_box userid c), KafkaTopicOffset (km_Topic msg), RedisLock (km_Topic msg)}
         \<longrightarrow> store view env w' l = store view env w l)"
proof (cases "km_Offset msg \<le> committed view env w (km_Topic msg) \<and> committed view env w (km_Topic msg) \<noteq> 0")
  case True
  have "store view env w' l = store view env w l" if "l \<noteq> RedisLock (km_Topic msg)" for l
    using consume_run [OF assms(8,7)] True that by simp
  then show ?thesis
    using True by (simp add: committed_def hashes_def max_def)
next
  case False
  let ?box = "chat_box userid c"
  obtain w1 where w1: "run_state (persist_msg pe userid (chat_body c)) w1 = (Inr u, w')"
    "store view env w1 (KafkaTopicOffset (km_Topic msg)) = Some (RStr (json_print (enc_KafkaMsgInfo
        \<lparr>ki_Topic = km_Topic msg, ki_Partition = km_Partition msg, ki_Offset = km_Offset msg\<rparr>)))"
    "\<forall>l. l \<notin> {KafkaTopicOffset (km_Topic msg), RedisLock (km_Topic msg)} \<longrightarrow> store view env w1 l = store view env w l"
    using consume_run [OF assms(8,7)] False unfolding assms(2) by (simp split: if_splits) blast
  have box: "store view env w1 ?box = store view env w ?box"
    using w1(3) by simp
  have "store view env w' (KafkaTopicOffset (km_Topic msg)) = store view env w1 (KafkaTopicOffset (km_Topic msg))"
    using keepsD [OF persist_keeps w1(1)] .
  then have "committed view env w' (km_Topic msg) = km_Offset msg"
    using committed_written [of view env w' "km_Topic msg"
        "\<lparr>ki_Topic = km_Topic msg, ki_Partition = km_Partition msg, ki_Offset = km_Offset msg\<rparr>"] w1(2) assms(5,6) by simp
  moreover note stored = persist_stores [OF assms(1,3) w1(1) assms(9) [folded box]]
  ultimately show ?thesis
    using False assms(4) box w1(3) stored(2) unfolding stored(1) by (auto simp: hashes_def max_def)
qed

end

section \<open>Saving a letter box\<close>

text \<open>
  \<open>box_moved\<close>: the box is empty and its messages are in the database. \<open>rows\<close> are the messages in the database; a batch is written as a whole or not at all, and only
  batches write.
\<close>

definition box_moved :: "('w \<Rightarrow> rstore) \<Rightarrow> RedisEnv \<Rightarrow> ('w \<Rightarrow> TMessage list) \<Rightarrow> 'w \<Rightarrow> 'w \<Rightarrow> string \<Rightarrow> bool" where
  "box_moved view env rows w w' box \<longleftrightarrow> store view env w' box = None
     \<and> (\<forall>f v. hashes view env w box f = Some v \<longrightarrow> row_of (f, v) \<in> set (rows w'))"

locale message_table = letter_box +
  fixes rows :: "'a \<Rightarrow> TMessage list"
  assumes batch_law: "run_state (g_CreateInBatches (pe_db pe) ms n) w = (err, w') \<Longrightarrow>
      view w' = view w \<and> rows w' = (if err = None then rows w @ ms else rows w)"
    and eval_rows [kept]: "keeps rows (cmd_eval (pe_redis pe) a c ks args)"
    and hgetall_rows [kept]: "keeps rows (cmd_hgetall (pe_redis pe) a k)"
    and del_rows [kept]: "keeps rows (cmd_del (pe_redis pe) a k)"
    and sleep_rows [kept]: "keeps rows (pe_sleep pe m)"
begin

lemma wrappers_keep_rows [kept]:
  "keeps rows (RedisHGetAll (pe_redis pe) env k)" "keeps rows (RedisDelString (pe_redis pe) env k)"
  "keeps rows (Acquire (pe_redis pe) rl)" "keeps rows (Release (pe_redis pe) rl)"
  unfolding RedisHGetAll_def RedisDelString_def Acquire_def Release_def with_client_def
  by (auto intro!: kept split: sum.splits)

lemma take_lock_keeps_rows: "keeps rows (take_lock pe ms rl)"
proof -
  have "keeps rows (retry_lock pe ms rl n)" for n
    by (induction n) (auto simp: case_prod_beta intro!: kept)
  then show ?thesis
    unfolding take_lock_def case_prod_beta by (intro kept)
qed

lemma SaveMsgInBatches_run:
  assumes "run_state (SaveMsgInBatches (pe_db pe) ms) w = (u, w')"
  shows "view w' = view w \<and> rows w' = (if fst (run_state (g_CreateInBatches (pe_db pe) ms 100) w) = None then rows w @ ms else rows w)"
proof (cases "ms = []")
  case True
  then show ?thesis
    using assms by (simp add: SaveMsgInBatches_def)
next
  case False
  then show ?thesis
    using assms batch_law [of ms 100 w "fst (run_state (g_CreateInBatches (pe_db pe) ms 100) w)"]
    by (auto simp: SaveMsgInBatches_def split: prod.splits)
qed

text \<open>Saving one box, with the lock of that box at hand.\<close>

lemma save_box_run:
  assumes "box_answers (pe_redis pe) view" and "is_hash (store view env w box)"
    and "NewRedisLocker env key v = Inr rl" and "box \<noteq> key"
  obtains kvs w1 w' where "run_state (save_box pe (SetExpire t rl) box) w = (Inr (), w')" "map_of kvs = hashes view env w box"
    "store view env w' box = None" "\<And>l. l \<noteq> box \<Longrightarrow> l \<noteq> key \<Longrightarrow> store view env w' l = store view env w l"
    "rows w' = (if fst (run_state (g_CreateInBatches (pe_db pe) (map row_of kvs) 100) w1) = None then rows w @ map row_of kvs else rows w)"
proof -
  obtain a where a: "GetRedisClientByKey env box = Inr a"
    using routed by blast
  obtain r w1 where r: "run_state (cmd_hgetall (pe_redis pe) a box) w = (r, w1)"
    by (metis surj_pair)
  obtain kvs where kvs: "r = Val kvs"
    using box_answersD(2) [OF assms(1) r] assms(2) a by (auto simp: store_def)
  have all: "run_state (RedisHGetAll (pe_redis pe) env box) w = (Inr kvs, w1)"
    using r kvs by (simp add: RedisHGetAll_def with_client_def a err_of_def)
  obtain u w2 where save: "run_state (SaveMsgInBatches (pe_db pe) (map row_of kvs)) w1 = (u, w2)"
    by (metis surj_pair)
  obtain d w3 where d: "run_state (cmd_del (pe_redis pe) a box) w2 = (d, w3)"
    by (metis surj_pair)
  have del: "run_state (RedisDelString (pe_redis pe) env box) w2 = (Inr (), w3)"
    using d box_answersD(3) [OF assms(1) d] by (simp add: RedisDelString_def with_client_def a nil_as_def)
  obtain x w' where rel: "run_state (Release (pe_redis pe) (SetExpire t rl)) w3 = (x, w')"
    by (metis surj_pair)
  have view2: "view w2 = view w"
    using SaveMsgInBatches_run [OF save] keepsD [OF keeps_view(3) all] by simp
  have rel_other: "store view env w' l = store view env w3 l" if "l \<noteq> key" for l
    using keepsD [OF lock_keeps(2) [OF assms(3) that] rel] .
  show ?thesis
  proof (rule that [of w' kvs w1])
    show "run_state (save_box pe (SetExpire t rl) box) w = (Inr (), w')"
      by (simp add: save_box_def or_fail_def all save del rel)
    show "map_of kvs = hashes view env w box"
      using hashes.hgetall_value [OF all] by simp
    show "store view env w' box = None"
      using rel_other [OF assms(4)] strings.del_value [OF del] by simp
    show "store view env w' l = store view env w l" if "l \<noteq> box" "l \<noteq> key" for l
      using rel_other [OF that(2)] strings.del_other [OF del that(1)] store_same [OF view2] by simp
    show "rows w' = (if fst (run_state (g_CreateInBatches (pe_db pe) (map row_of kvs) 100) w1) = None then rows w @ map row_of kvs else rows w)"
      using SaveMsgInBatches_run [OF save] keepsD [OF wrappers_keep_rows(1) all] keepsD [OF wrappers_keep_rows(2) del]
        keepsD [OF wrappers_keep_rows(4) rel] by simp
  qed
qed

lemma box_locked: "\<exists>rl. NewRedisLocker env (PersistentLock box) ''lock'' = Inr rl \<and> box_lock pe box = Inr (SetExpire 60 rl)"
  using routed [of "PersistentLock box"] by (auto simp: box_lock_def NewRedisLocker_def)

lemma save_box_moves:
  assumes "box_answers (pe_redis pe) view" and "\<And>ms n w. fst (run_state (g_CreateInBatches (pe_db pe) ms n) w) = None"
    and "is_hash (store view env w box)" and "NewRedisLocker env key v = Inr rl" and "box \<noteq> key"
  shows "\<exists>w'. run_state (save_box pe (SetExpire t rl) box) w = (Inr (), w') \<and> box_moved view env rows w w' box \<and> set (rows w) \<subseteq> set (rows w')
    \<and> (\<forall>l. l \<noteq> box \<longrightarrow> l \<noteq> key \<longrightarrow> store view env w' l = store view env w l)"
proof -
  obtain kvs w1 w' where r: "run_state (save_box pe (SetExpire t rl) box) w = (Inr (), w')" "map_of kvs = hashes view env w box"
    "store view env w' box = None" "\<And>l. l \<noteq> box \<Longrightarrow> l \<noteq> key \<Longrightarrow> store view env w' l = store view env w l"
    "rows w' = rows w @ map row_of kvs"
    by (rule save_box_run [OF assms(1,3,4,5), of t]) (use assms(2) in auto)
  have "row_of (f, v) \<in> set (rows w')" if "hashes view env w box f = Some v" for f v
    using that map_of_SomeD [of kvs f v] unfolding r(2) [symmetric] r(5) by force
  then show ?thesis
    using r by (auto simp: box_moved_def)
qed

lemma save_groups_move:
  assumes "box_answers (pe_redis pe) view" and "\<And>ms n w. fst (run_state (g_CreateInBatches (pe_db pe) ms n) w) = None"
    and "\<And>g. is_hash (store view env w (GroupLetterBox g))"
  shows "\<exists>w'. run_state (save_groups pe gs) w = (Inr (), w') \<and> (\<forall>g \<in> set gs. box_moved view env rows w w' (GroupLetterBox g))
    \<and> set (rows w) \<subseteq> set (rows w') \<and> (\<forall>u. store view env w' (UserLetterBox u) = store view env w (UserLetterBox u))
    \<and> (\<forall>g. g \<notin> set gs \<longrightarrow> store view env w' (GroupLetterBox g) = store view env w (GroupLetterBox g))"
  using assms(3)
proof (induction gs arbitrary: w)
  case (Cons g gs)
  obtain rl where rl: "NewRedisLocker env (PersistentLock (GroupLetterBox g)) ''lock'' = Inr rl"
    "box_lock pe (GroupLetterBox g) = Inr (SetExpire 60 rl)"
    using box_locked by blast
  obtain w1 where w1: "run_state (save_box pe (SetExpire 60 rl) (GroupLetterBox g)) w = (Inr (), w1)" "box_moved view env rows w w1 (GroupLetterBox g)"
    "set (rows w) \<subseteq> set (rows w1)"
    "\<forall>l. l \<noteq> GroupLetterBox g \<longrightarrow> l \<noteq> PersistentLock (GroupLetterBox g) \<longrightarrow> store view env w1 l = store view env w l"
    using save_box_moves [OF assms(1,2) Cons.prems [of g] rl(1) box_keys(1), of 60] by blast
  have group: "store view env w1 (GroupLetterBox h) = (if h = g then None else store view env w (GroupLetterBox h))" for h
    using w1(2,4) by (simp add: box_moved_def)
  have "is_hash (store view env w1 (GroupLetterBox h))" for h
    using Cons.prems [of h] by (simp add: group is_hash_def)
  then obtain w2 where w2: "run_state (save_groups pe gs) w1 = (Inr (), w2)" "\<forall>h \<in> set gs. box_moved view env rows w1 w2 (GroupLetterBox h)"
    "set (rows w1) \<subseteq> set (rows w2)" "\<forall>u. store view env w2 (UserLetterBox u) = store view env w1 (UserLetterBox u)"
    "\<forall>h. h \<notin> set gs \<longrightarrow> store view env w2 (GroupLetterBox h) = store view env w1 (GroupLetterBox h)"
    using Cons.IH [of w1] by auto
  have "box_moved view env rows w w2 (GroupLetterBox h)" if "h \<in> set (g # gs)" for h
    using that w1(2) w2(2,3,5) group [of h] by (cases "h = g"; cases "h \<in> set gs") (auto simp: box_moved_def hashes_def)
  moreover have "run_state (save_groups pe (g # gs)) w = (Inr (), w2)"
    by (simp add: rl(2) w1(1) w2(1))
  moreover have "\<forall>u. store view env w2 (UserLetterBox u) = store view env w (UserLetterBox u)"
    using w1(4) w2(4) by simp
  ultimately show ?case
    using w1(3) w2(3,5) group by (intro exI [of _ w2]) auto
qed simp

lemma save_moves:
  assumes "box_answers (pe_redis pe) view" and "\<And>ms n w. fst (run_state (g_CreateInBatches (pe_db pe) ms n) w) = None"
    and "\<And>g. is_hash (store view env w (GroupLetterBox g))" and "is_hash (store view env w (UserLetterBox u))"
    and "run_state (saveChatDataToDb pe u gs) w = (Inr x, w')"
  shows "\<forall>box \<in> insert (UserLetterBox u) (GroupLetterBox ` set gs). box_moved view env rows w w' box"
proof -
  obtain rl where rl: "NewRedisLocker env (PersistentLock (UserLetterBox u)) ''lock'' = Inr rl"
    "box_lock pe (UserLetterBox u) = Inr (SetExpire 60 rl)"
    using box_locked by blast
  obtain y w1 where w1: "run_state (take_lock pe 300 (SetExpire 60 rl)) w = (Inr y, w1)"
    using assms(5) by (auto simp: saveChatDataToDb_def rl(2) then_do_Inr)
  have same: "store view env w1 l = store view env w l" if "l \<noteq> PersistentLock (UserLetterBox u)" for l
    using keepsD [OF take_lock_keeps [OF rl(1) that] w1] .
  have hash1: "is_hash (store view env w1 (UserLetterBox u))" "is_hash (store view env w1 (GroupLetterBox g))" for g
    using assms(3,4) by (simp_all add: same)
  obtain w2 where w2: "run_state (save_box pe (SetExpire 60 rl) (UserLetterBox u)) w1 = (Inr (), w2)" "box_moved view env rows w1 w2 (UserLetterBox u)"
    "\<forall>l. l \<noteq> UserLetterBox u \<longrightarrow> l \<noteq> PersistentLock (UserLetterBox u) \<longrightarrow> store view env w2 l = store view env w1 l"
    using save_box_moves [OF assms(1,2) hash1(1) rl(1) box_keys(2), of 60] by blast
  have hash2: "is_hash (store view env w2 (GroupLetterBox g))" for g
    using hash1(2) w2(3) by simp
  obtain w3 where w3: "run_state (save_groups pe gs) w2 = (Inr (), w3)" "\<forall>g \<in> set gs. box_moved view env rows w2 w3 (GroupLetterBox g)"
    "set (rows w2) \<subseteq> set (rows w3)" "store view env w3 (UserLetterBox u) = store view env w2 (UserLetterBox u)"
    using save_groups_move [OF assms(1,2) hash2, of gs] by blast
  have "w' = w3"
    using assms(5) by (simp add: saveChatDataToDb_def rl(2) then_do_def w1 w2(1) w3(1))
  then show ?thesis
    using w2(2,3) w3(2-4) by (auto simp: box_moved_def hashes_def same)
qed

lemma save_box_lost:
  assumes "box_answers (pe_redis pe) view" and "\<And>ms n w. fst (run_state (g_CreateInBatches (pe_db pe) ms n) w) \<noteq> None"
    and "is_hash (store view env w box)" and "NewRedisLocker env key v = Inr rl" and "box \<noteq> key"
  obtains w' where "run_state (save_box pe (SetExpire t rl) box) w = (Inr (), w')" "store view env w' box = None" "rows w' = rows w"
    "\<And>l. l \<noteq> box \<Longrightarrow> l \<noteq> key \<Longrightarrow> store view env w' l = store view env w l"
  by (rule save_box_run [OF assms(1,3,4,5), of t]) (use assms(2) that in auto)

lemma save_groups_lost:
  assumes "box_answers (pe_redis pe) view" and "\<And>ms n w. fst (run_state (g_CreateInBatches (pe_db pe) ms n) w) \<noteq> None"
    and "\<And>g. is_hash (store view env w (GroupLetterBox g))"
  shows "\<exists>w'. run_state (save_groups pe gs) w = (Inr (), w') \<and> (\<forall>g \<in> set gs. store view env w' (GroupLetterBox g) = None)
    \<and> rows w' = rows w \<and> (\<forall>u. store view env w' (UserLetterBox u) = store view env w (UserLetterBox u))
    \<and> (\<forall>g. g \<notin> set gs \<longrightarrow> store view env w' (GroupLetterBox g) = store view env w (GroupLetterBox g))"
  using assms(3)
proof (induction gs arbitrary: w)
  case (Cons g gs)
  obtain rl where rl: "NewRedisLocker env (PersistentLock (GroupLetterBox g)) ''lock'' = Inr rl"
    "box_lock pe (GroupLetterBox g) = Inr (SetExpire 60 rl)"
    using box_locked by blast
  obtain w1 where w1: "run_state (save_box pe (SetExpire 60 rl) (GroupLetterBox g)) w = (Inr (), w1)"
    "store view env w1 (GroupLetterBox g) = None" "rows w1 = rows w"
    "\<And>l. l \<noteq> GroupLetterBox g \<Longrightarrow> l \<noteq> PersistentLock (GroupLetterBox g) \<Longrightarrow> store view env w1 l = store view env w l"
    using save_box_lost [OF assms(1,2) Cons.prems [of g] rl(1) box_keys(1), of 60] by blast
  have group: "store view env w1 (GroupLetterBox h) = (if h = g then None else store view env w (GroupLetterBox h))" for h
    using w1(2,4) by simp
  have "is_hash (store view env w1 (GroupLetterBox h))" for h
    using Cons.prems [of h] by (simp add: group is_hash_def)
  then obtain w2 where w2: "run_state (save_groups pe gs) w1 = (Inr (), w2)" "\<forall>h \<in> set gs. store view env w2 (GroupLetterBox h) = None"
    "rows w2 = rows w1" "\<forall>u. store view env w2 (UserLetterBox u) = store view env w1 (UserLetterBox u)"
    "\<forall>h. h \<notin> set gs \<longrightarrow> store view env w2 (GroupLetterBox h) = store view env w1 (GroupLetterBox h)"
    using Cons.IH [of w1] by auto
  moreover have "run_state (save_groups pe (g # gs)) w = (Inr (), w2)"
    by (simp add: rl(2) w1(1) w2(1))
  ultimately show ?case
    using w1(3,4) group by (intro exI [of _ w2]) auto
qed simp

lemma save_fails:
  assumes "box_answers (pe_redis pe) view" and "\<And>ms n w. fst (run_state (g_CreateInBatches (pe_db pe) ms n) w) \<noteq> None"
    and "\<And>g. is_hash (store view env w (GroupLetterBox g))" and "is_hash (store view env w (UserLetterBox u))"
    and "run_state (saveChatDataToDb pe u gs) w = (Inr x, w')"
  shows "(\<forall>box \<in> insert (UserLetterBox u) (GroupLetterBox ` set gs). store view env w' box = None) \<and> rows w' = rows w"
proof -
  obtain rl where rl: "NewRedisLocker env (PersistentLock (UserLetterBox u)) ''lock'' = Inr rl"
    "box_lock pe (UserLetterBox u) = Inr (SetExpire 60 rl)"
    using box_locked by blast
  obtain y w1 where w1: "run_state (take_lock pe 300 (SetExpire 60 rl)) w = (Inr y, w1)"
    using assms(5) by (auto simp: saveChatDataToDb_def rl(2) then_do_Inr)
  have same: "store view env w1 l = store view env w l" if "l \<noteq> PersistentLock (UserLetterBox u)" for l
    using keepsD [OF take_lock_keeps [OF rl(1) that] w1] .
  have hash1: "is_hash (store view env w1 (UserLetterBox u))" "is_hash (store view env w1 (GroupLetterBox g))" for g
    using assms(3,4) by (simp_all add: same)
  obtain w2 where w2: "run_state (save_box pe (SetExpire 60 rl) (UserLetterBox u)) w1 = (Inr (), w2)"
    "store view env w2 (UserLetterBox u) = None" "rows w2 = rows w1"
    "\<And>l. l \<noteq> UserLetterBox u \<Longrightarrow> l \<noteq> PersistentLock (UserLetterBox u) \<Longrightarrow> store view env w2 l = store view env w1 l"
    using save_box_lost [OF assms(1,2) hash1(1) rl(1) box_keys(2), of 60] by blast
  have hash2: "is_hash (store view env w2 (GroupLetterBox g))" for g
    using hash1(2) w2(4) by simp
  obtain w3 where w3: "run_state (save_groups pe gs) w2 = (Inr (), w3)" "\<forall>g \<in> set gs. store view env w3 (GroupLetterBox g) = None"
    "rows w3 = rows w2" "store view env w3 (UserLetterBox u) = store view env w2 (UserLetterBox u)"
    using save_groups_lost [OF assms(1,2) hash2, of gs] by blast
  have "w' = w3"
    using assms(5) by (simp add: saveChatDataToDb_def rl(2) then_do_def w1 w2(1) w3(1))
  then show ?thesis
    using w2(2,3) w3(2-4) keepsD [OF take_lock_keeps_rows w1] by simp
qed

end

section \<open>Properties of consumption\<close>

text \<open>
  C19: after a group or private message was consumed, the committed offset of its topic is the larger of the old one and
  its own: offsets never go back. The message is put in its letter box, of the group or of the user of the connection, as
  the row the database will get, unless its offset is at most the committed one and that is not 0; then the letter box
  stays as it is, so that of several consumers of an offset other than 0 only the first stores it. No other key of Redis
  changes but the locks of the topic and of the box.
\<close>
theorem consume_once:
  assumes "letter_box pe view" and "box_answers (pe_redis pe) view"
    and "km_Value msg = chat_body c" and "chat_range c"
    and "0 \<le> km_Offset msg" "int64_range (km_Offset msg)" "int64_range (km_Partition msg)"
    and "run_state (RedisGetString (pe_redis pe) (pe_servers pe) (KafkaTopicOffset (km_Topic msg))) w = (Inr s, w0)"
    and "run_state (consume_msg pe userid msg) w = (Inr u, w')"
    and "is_hash (store view (pe_servers pe) w (chat_box userid c))"
  shows "committed view (pe_servers pe) w' (km_Topic msg) = max (committed view (pe_servers pe) w (km_Topic msg)) (km_Offset msg)
    \<and> hashes view (pe_servers pe) w' (chat_box userid c) =
       (if km_Offset msg \<le> committed view (pe_servers pe) w (km_Topic msg) \<and> committed view (pe_servers pe) w (km_Topic msg) \<noteq> 0
        then hashes view (pe_servers pe) w (chat_box userid c)
        else (hashes view (pe_servers pe) w (chat_box userid c))(chat_id c \<mapsto> json_print (enc_message (chat_row userid c))))
    \<and> (\<forall>l. l \<notin> {chat_box userid c, PersistentLock (chat_box userid c), KafkaTopicOffset (km_Topic msg), RedisLock (km_Topic msg)}
         \<longrightarrow> store view (pe_servers pe) w' l = store view (pe_servers pe) w l)"
  using letter_box.consume_chat [OF assms] .

text \<open>
  C35: the first message of a topic has offset 0, which the test takes for nothing committed: every consumer stores it.
  Two connect servers, which get the message with different snowflake ids, leave it in the letter box twice.
\<close>
theorem first_message_stored_twice:
  assumes "letter_box pe view" and "box_answers (pe_redis pe) view"
    and "km_Value msg = body_of enc_PushGroupMsgReq_Msg (Some m)" and "request_range m" and "km_Offset msg = 0"
    and "km_Value msg' = body_of enc_PushGroupMsgReq_Msg (Some m')" and "request_range m'" and "km_Offset msg' = 0"
    and "km_Topic msg' = km_Topic msg" "pgm_GroupId m' = pgm_GroupId m"
    and "int64_range (km_Partition msg)" "int64_range (km_Partition msg')"
    and "committed view (pe_servers pe) w (km_Topic msg) = 0"
    and "run_state (RedisGetString (pe_redis pe) (pe_servers pe) (KafkaTopicOffset (km_Topic msg))) w = (Inr s, w0)"
    and "run_state (consume_msg pe userid msg) w = (Inr u, w1)"
    and "run_state (RedisGetString (pe_redis pe) (pe_servers pe) (KafkaTopicOffset (km_Topic msg))) w1 = (Inr s', w0')"
    and "run_state (consume_msg pe userid' msg') w1 = (Inr u', w2)"
    and "is_hash (store view (pe_servers pe) w (GroupLetterBox (pgm_GroupId m)))"
    and "is_hash (store view (pe_servers pe) w1 (GroupLetterBox (pgm_GroupId m)))"
  shows "hashes view (pe_servers pe) w2 (GroupLetterBox (pgm_GroupId m)) =
    (hashes view (pe_servers pe) w (GroupLetterBox (pgm_GroupId m)))
      (pgm_SnowId m \<mapsto> json_print (enc_message (group_row m)), pgm_SnowId m' \<mapsto> json_print (enc_message (group_row m')))"
proof -
  have zero: "0 \<le> km_Offset msg" "int64_range (km_Offset msg)" "0 \<le> km_Offset msg'" "int64_range (km_Offset msg')"
    using assms(5,8) by (simp_all add: int64_range_def)
  note first = letter_box.consume_chat [where c = "GroupChat m", simplified chat_body.simps chat_range.simps chat_box.simps chat_id.simps
      chat_row.simps, OF assms(1-4) zero(1,2) assms(11,14,15,18)]
  note second = letter_box.consume_chat [where c = "GroupChat m'", simplified chat_body.simps chat_range.simps chat_box.simps chat_id.simps
      chat_row.simps, OF assms(1,2,6,7) zero(3,4) assms(12), unfolded assms(9,10), OF assms(16,17,19)]
  show ?thesis
    using first second assms(5,8,13) by simp
qed

text \<open>
  C20: after the letter boxes of a connection were saved, all of them are empty and every message that was in one of them
  is in the database, provided that the database accepts the batches.
\<close>
theorem saved_boxes_moved:
  assumes "message_table pe view rows" and "box_answers (pe_redis pe) view"
    and "\<And>ms n w. fst (run_state (g_CreateInBatches (pe_db pe) ms n) w) = None"
    and "\<And>g. is_hash (store view (pe_servers pe) w (GroupLetterBox g))" and "is_hash (store view (pe_servers pe) w (UserLetterBox userid))"
    and "run_state (saveChatDataToDb pe userid groupIds) w = (Inr x, w')"
  shows "\<forall>box \<in> insert (UserLetterBox userid) (GroupLetterBox ` set groupIds). box_moved view (pe_servers pe) rows w w' box"
  using message_table.save_moves [OF assms] .

text \<open>
  C36: when the database refuses the batches, the letter boxes of the user and of all groups of the connection are deleted
  all the same, and the save reports no error: their messages are in neither place.
\<close>
theorem failed_save_loses_messages:
  assumes "message_table pe view rows" and "box_answers (pe_redis pe) view"
    and "\<And>ms n w. fst (run_state (g_CreateInBatches (pe_db pe) ms n) w) \<noteq> None"
    and "\<And>g. is_hash (store view (pe_servers pe) w (GroupLetterBox g))" and "is_hash (store view (pe_servers pe) w (UserLetterBox userid))"
    and "run_state (saveChatDataToDb pe userid groupIds) w = (Inr x, w')"
  shows "(\<forall>box \<in> insert (UserLetterBox userid) (GroupLetterBox ` set groupIds). store view (pe_servers pe) w' box = None) \<and> rows w' = rows w"
  using message_table.save_fails [OF assms] .

section \<open>A connect server in memory\<close>

record pump_world =
  pw_redis :: rstore
  pw_rows :: "TMessage list"

definition none_found :: "'d \<Rightarrow> ('w, db_error option \<times> 'd) state" where
  "none_found d = State_Monad.return (Some ErrRecordNotFound, d)"

definition table_gorm :: "bool \<Rightarrow> pump_world gorm_api" where
  "table_gorm up =
     \<lparr>g_First_user = (\<lambda>q. none_found), g_First_group = (\<lambda>q. none_found), g_First_relation = (\<lambda>q. none_found),
      g_Find_users = (\<lambda>q. none_found), g_Find_groups = (\<lambda>q. none_found), g_Find_relations = (\<lambda>q. none_found),
      g_Find_friend_messages = (\<lambda>q. none_found), g_Find_group_messages = (\<lambda>q. none_found),
      g_Create_user = none_found, g_Create_group = none_found, g_Create_relation = none_found,
      g_Updates_Find_user = none_found, g_Updates_group = none_found,
      g_Update_user = (\<lambda>q c v. State_Monad.return (Some ErrRecordNotFound)),
      g_CreateInBatches = (\<lambda>ms n. State (\<lambda>w. if up then (None, w\<lparr>pw_rows := pw_rows w @ ms\<rparr>) else (Some (DbError ''down''), w)))\<rparr>"

definition ref_ws :: "pump_world ws_api" where
  "ref_ws = \<lparr>ws_SetWriteDeadline = (\<lambda>c d. State_Monad.return None), ws_WriteMessage = (\<lambda>c t b. State_Monad.return None),
     ws_NextWriter = (\<lambda>c t. State_Monad.return (Inr 0)), ws_Write = (\<lambda>w b. State_Monad.return None),
     ws_CloseWriter = (\<lambda>w. State_Monad.return None), ws_Close = (\<lambda>c. State_Monad.return None),
     ws_SetReadLimit = (\<lambda>c n. State_Monad.return ()), ws_SetReadDeadline = (\<lambda>c d. State_Monad.return None),
     ws_ReadMessage = (\<lambda>c. State_Monad.return (1, None, Some ''closed'')), ws_IsUnexpectedCloseError = (\<lambda>e. True)\<rparr>"

definition ref_pump :: "bool \<Rightarrow> pump_world pump_env" where
  "ref_pump up = \<lparr>pe_redis = mem_redis pw_redis (\<lambda>s w. w\<lparr>pw_redis := s\<rparr>), pe_servers = env1, pe_db = table_gorm up, pe_ws = ref_ws,
     pe_options = default_options, pe_sleep = (\<lambda>ms. State_Monad.return ()), pe_tries = 3\<rparr>"

lemma ref_pump_simps [simp]: "pe_redis (ref_pump up) = mem_redis pw_redis (\<lambda>s w. w\<lparr>pw_redis := s\<rparr>)"
  "pe_servers (ref_pump up) = env1" "pe_db (ref_pump up) = table_gorm up" "pe_sleep (ref_pump up) ms = State_Monad.return ()"
  by (simp_all add: ref_pump_def)

lemma ref_pump_lock: "lock_server (pe_redis (ref_pump up)) pw_redis"
  using mem_redis_lock_server [of pw_redis "\<lambda>s w. w\<lparr>pw_redis := s\<rparr>"] by simp

interpretation ref_table: message_table "ref_pump up" pw_redis pw_rows for up
proof (intro message_table.intro letter_box.intro letter_box_axioms.intro message_table_axioms.intro)
  show "lock_server (pe_redis (ref_pump up)) pw_redis"
    by (rule ref_pump_lock)
  show "\<exists>a. GetRedisClientByKey (pe_servers (ref_pump up)) k = Inr a" for k
    by (simp add: env1_routes)
qed (auto simp: keeps_def table_gorm_def mem_redis_def mem_read_def mem_set_def split: if_splits option.splits rval.splits list.splits)

lemma ref_answers: "box_answers (pe_redis (ref_pump up)) pw_redis"
  by (auto simp: box_answers_def mem_redis_def mem_hash_def mem_read_def mem_set_def is_hash_def split: option.splits rval.splits)

text \<open>A group message at offset \<open>n\<close> of its topic, with the id \<open>i\<close>.\<close>

definition jot :: "string \<Rightarrow> PushGroupMsgReq_Msg" where
  "jot i = zero_PushGroupMsgReq_Msg\<lparr>pgm_Userid := 1, pgm_GroupId := 7, pgm_Content := ''hi'', pgm_Op := OpGroupMsgSend, pgm_SnowId := i\<rparr>"

definition jot_msg :: "int \<Rightarrow> string \<Rightarrow> KafkaMessage" where
  "jot_msg n i = plain_msg (GroupQueue 7) n (body_of enc_PushGroupMsgReq_Msg (Some (jot i)))"

lemma jot_facts [simp]: "request_range (jot i)" "pgm_GroupId (jot i) = 7" "pgm_SnowId (jot i) = i"
  "km_Value (jot_msg n i) = body_of enc_PushGroupMsgReq_Msg (Some (jot i))" "km_Topic (jot_msg n i) = GroupQueue 7"
  "km_Offset (jot_msg n i) = n" "km_Partition (jot_msg n i) = 0" "int64_range 0"
  by (simp_all add: jot_def jot_msg_def plain_msg_def request_range_def zero_PushGroupMsgReq_Msg_def int64_range_def)

definition no_boxes :: pump_world where
  "no_boxes = \<lparr>pw_redis = (\<lambda>a k. None), pw_rows = []\<rparr>"

definition put_p :: "string \<Rightarrow> rval option \<Rightarrow> pump_world \<Rightarrow> pump_world" where
  "put_p k v w = w\<lparr>pw_redis := upd_store ''h:1'' k v (pw_redis w)\<rparr>"

lemma put_p_simps [simp]: "pw_redis (put_p k v w) ''h:1'' l = (if l = k then v else pw_redis w ''h:1'' l)"
  "pw_rows (put_p k v w) = pw_rows w" "pw_redis no_boxes a l = None"
  by (simp_all add: put_p_def upd_store_def no_boxes_def)

lemma store_p: "store pw_redis env1 w k = pw_redis w ''h:1'' k"
  by (simp add: store_def env1_routes)

lemma locker_p: "NewRedisLocker env1 k v = Inr \<lparr>rl_client = ''h:1'', rl_timout = 0, rl_key = k, rl_value = v\<rparr>"
  by (simp add: NewRedisLocker_def env1_routes)

text \<open>No letter box is locked and every key has its type.\<close>

definition calm :: "pump_world \<Rightarrow> bool" where
  "calm w \<longleftrightarrow> (\<forall>box. pw_redis w ''h:1'' (PersistentLock box) = None) \<and> (\<forall>g. is_hash (pw_redis w ''h:1'' (GroupLetterBox g)))
     \<and> (\<forall>u. is_hash (pw_redis w ''h:1'' (UserLetterBox u))) \<and> (\<forall>t. \<exists>s. pw_redis w ''h:1'' (KafkaTopicOffset t) \<in> {None, Some (RStr s)})"

lemma more_keys [simp]: "PersistentLock k \<noteq> GroupLetterBox g" "PersistentLock k \<noteq> UserLetterBox u" "PersistentLock k \<noteq> KafkaTopicOffset t"
  "PersistentLock k = PersistentLock l \<longleftrightarrow> k = l" "PersistentLock k \<noteq> RedisLock t" "RedisLock t \<noteq> PersistentLock k"
  "RedisLock t \<noteq> GroupLetterBox g" "RedisLock t \<noteq> UserLetterBox u" "RedisLock t \<noteq> KafkaTopicOffset t'"
  by (simp_all add: key_defs)

lemma calm_no_boxes: "calm no_boxes"
  by (simp add: calm_def no_boxes_def is_hash_def)

lemma calm_get: "calm w \<Longrightarrow> \<exists>s. run_state (RedisGetString (pe_redis (ref_pump up)) (pe_servers (ref_pump up)) (KafkaTopicOffset t)) w = (Inr s, w)"
proof -
  assume "calm w"
  then obtain s where "pw_redis w ''h:1'' (KafkaTopicOffset t) \<in> {None, Some (RStr s)}"
    unfolding calm_def by blast
  then show ?thesis
    by (auto simp: RedisGetString_def with_client_def env1_routes mem_redis_def mem_read_def nil_as_def)
qed

lemma calm_put_in_box: "box = GroupLetterBox g \<or> box = UserLetterBox u \<Longrightarrow> proceeds calm (put_in_box (ref_pump up) ms box i r)"
proof (rule proceedsI)
  fix w assume box: "box = GroupLetterBox g \<or> box = UserLetterBox u" and w: "calm w"
  then have "pw_redis w ''h:1'' (PersistentLock box) = None" "is_hash (pw_redis w ''h:1'' box)"
    by (auto simp: calm_def)
  then show "\<exists>x w'. run_state (put_in_box (ref_pump up) ms box i r) w = (Inr x, w') \<and> calm w'"
    using box w
    by (auto simp: put_in_box_def box_lock_def locker_p SetExpire_def then_do_def take_lock_def Acquire_mem Release_mem RedisHSet_def
        with_client_def env1_routes mem_cmds mem_hash_def err_of_def upd_store_def is_hash_def
        calm_def case_prod_beta split: option.splits rval.splits)
qed

lemma calm_set: "proceeds calm (RedisSetString (pe_redis (ref_pump up)) (pe_servers (ref_pump up)) (KafkaTopicOffset t) v e)"
  by (rule proceedsI) (auto simp: RedisSetString_def with_client_def env1_routes mem_redis_def mem_set_def err_of_def upd_store_def calm_def)

lemma calm_release: "proceeds calm (release_lock (ref_pump up) (NewRedisLocker (pe_servers (ref_pump up)) (RedisLock t) v))"
  by (rule proceedsI) (auto simp: release_lock_def locker_p Release_mem upd_store_def calm_def)

lemma calm_consume:
  assumes "km_Value msg = chat_body c" and "chat_range c"
  shows "proceeds calm (consume_msg (ref_pump up) u msg)"
proof (rule proceedsI)
  fix w assume w: "calm w"
  let ?t = "km_Topic msg"
  obtain s where s: "run_state (RedisGetString (pe_redis (ref_pump up)) (pe_servers (ref_pump up)) (KafkaTopicOffset ?t)) w = (Inr s, w)"
    using calm_get [OF w] by blast
  obtain ms where put: "persist_msg (ref_pump up) u (chat_body c) = put_in_box (ref_pump up) ms (chat_box u c) (chat_id c) (chat_row u c)"
    using ref_table.persist_chat [OF assms(2)] by blast
  let ?off = "ki_Offset (fst (Unmarshal dec_KafkaMsgInfo s zero_KafkaMsgInfo))"
  let ?rel = "release_lock (ref_pump up) (NewRedisLocker (pe_servers (ref_pump up)) (RedisLock ?t) ?t)"
  let ?set = "RedisSetString (pe_redis (ref_pump up)) (pe_servers (ref_pump up)) (KafkaTopicOffset ?t)
     (json_print (enc_KafkaMsgInfo \<lparr>ki_Topic = ?t, ki_Partition = km_Partition msg, ki_Offset = km_Offset msg\<rparr>)) 0"
  let ?rest = "if km_Offset msg \<le> ?off \<and> ?off \<noteq> 0 then ?rel else or_fail ?set PumpReturned
     (\<lambda>_. then_do ?rel (\<lambda>_. persist_msg (ref_pump up) u (chat_body c)))"
  have box: "\<exists>g v. chat_box u c = GroupLetterBox g \<or> chat_box u c = UserLetterBox v"
    by (cases c) auto
  have "proceeds calm ?rest"
    unfolding put using box calm_put_in_box by (intro going calm_set calm_release) blast
  then obtain x w' where "run_state ?rest w = (Inr x, w')" "calm w'"
    using w by (rule proceedsE)
  moreover have "run_state (consume_msg (ref_pump up) u msg) w = run_state ?rest w"
    unfolding consume_msg_def Let_def assms(1) or_zero_def by (simp add: s del: ref_pump_simps Unmarshal_print)
  ultimately show "\<exists>x w'. run_state (consume_msg (ref_pump up) u msg) w = (Inr x, w') \<and> calm w'"
    by metis
qed

lemma calm_jot: "proceeds calm (consume_msg (ref_pump up) u (jot_msg n i))"
  by (rule calm_consume [where c = "GroupChat (jot i)"]) simp_all

text \<open>A private message for user 1.\<close>

definition slip :: PushFriendMsgReq_Msg where
  "slip = zero_PushFriendMsgReq_Msg\<lparr>pfm_Userid := 2, pfm_FriendId := 1, pfm_Belong := 1, pfm_Content := ''hi'',
     pfm_Op := OpFriendMsgSend, pfm_SnowId := ''x''\<rparr>"

definition slip_msg :: KafkaMessage where
  "slip_msg = plain_msg (FriendQueue 1) 5 (chat_body (FriendChat slip))"

lemma slip_facts: "friend_range slip" "km_Value slip_msg = chat_body (FriendChat slip)" "km_Topic slip_msg = FriendQueue 1"
  "km_Offset slip_msg = 5" "km_Partition slip_msg = 0" "pfm_SnowId slip = ''x''"
  by (simp_all add: slip_def slip_msg_def plain_msg_def friend_range_def zero_PushFriendMsgReq_Msg_def int64_range_def)

lemma calm_hash: "calm w \<Longrightarrow> is_hash (store pw_redis (pe_servers (ref_pump up)) w (GroupLetterBox g))"
  "calm w \<Longrightarrow> is_hash (store pw_redis (pe_servers (ref_pump up)) w (UserLetterBox u))"
  by (simp_all add: calm_def store_p)

lemma committed_no_boxes: "committed pw_redis (pe_servers (ref_pump up)) no_boxes t = 0"
  by (simp add: committed_def store_p str_at_def Unmarshal_def zero_KafkaMsgInfo_def) code_simp

theorem consume_once_witness:
  "\<exists>w'. run_state (consume_msg (ref_pump True) 1 slip_msg) no_boxes = (Inr (), w') \<and>
     committed pw_redis (pe_servers (ref_pump True)) w' (FriendQueue 1) = 5 \<and>
     hashes pw_redis (pe_servers (ref_pump True)) w' (UserLetterBox 1) ''x'' = Some (json_print (enc_message (friend_row 1 slip)))"
proof -
  have range: "chat_range (FriendChat slip)"
    by (simp add: slip_facts)
  obtain w' where run: "run_state (consume_msg (ref_pump True) 1 slip_msg) no_boxes = (Inr (), w')"
    using calm_consume [OF slip_facts(2) range] calm_no_boxes by (rule proceedsE) simp
  obtain s where s: "run_state (RedisGetString (pe_redis (ref_pump True)) (pe_servers (ref_pump True)) (KafkaTopicOffset (km_Topic slip_msg))) no_boxes = (Inr s, no_boxes)"
    using calm_get [OF calm_no_boxes] by blast
  have hash: "is_hash (store pw_redis (pe_servers (ref_pump True)) no_boxes (chat_box 1 (FriendChat slip)))"
    using calm_hash(2) [OF calm_no_boxes] by simp
  have "int64_range 5" "int64_range 0"
    by (simp_all add: int64_range_def)
  then show ?thesis
    using run committed_no_boxes consume_once [OF ref_table.letter_box_axioms ref_answers slip_facts(2) range _ _ _ s run hash]
    by (simp add: slip_facts del: ref_pump_simps)
qed

theorem first_message_stored_twice_witness:
  "\<exists>w1 w2. run_state (consume_msg (ref_pump True) 1 (jot_msg 0 ''x'')) no_boxes = (Inr (), w1) \<and>
     run_state (consume_msg (ref_pump True) 2 (jot_msg 0 ''y'')) w1 = (Inr (), w2) \<and>
     dom (hashes pw_redis (pe_servers (ref_pump True)) w2 (GroupLetterBox 7)) = {''x'', ''y''}"
proof -
  obtain w1 where run: "run_state (consume_msg (ref_pump True) 1 (jot_msg 0 ''x'')) no_boxes = (Inr (), w1)" "calm w1"
    using calm_jot calm_no_boxes by (rule proceedsE) simp
  obtain w2 where run2: "run_state (consume_msg (ref_pump True) 2 (jot_msg 0 ''y'')) w1 = (Inr (), w2)"
    using calm_jot run(2) by (rule proceedsE) simp
  obtain s where s: "run_state (RedisGetString (pe_redis (ref_pump True)) (pe_servers (ref_pump True)) (KafkaTopicOffset (km_Topic (jot_msg 0 ''x'')))) no_boxes = (Inr s, no_boxes)"
    using calm_get [OF calm_no_boxes] by blast
  obtain s' where s': "run_state (RedisGetString (pe_redis (ref_pump True)) (pe_servers (ref_pump True)) (KafkaTopicOffset (km_Topic (jot_msg 0 ''x'')))) w1 = (Inr s', w1)"
    using calm_get [OF run(2)] by blast
  have "hashes pw_redis (pe_servers (ref_pump True)) w2 (GroupLetterBox (pgm_GroupId (jot ''x''))) =
    (hashes pw_redis (pe_servers (ref_pump True)) no_boxes (GroupLetterBox (pgm_GroupId (jot ''x''))))
      (pgm_SnowId (jot ''x'') \<mapsto> json_print (enc_message (group_row (jot ''x''))), pgm_SnowId (jot ''y'') \<mapsto> json_print (enc_message (group_row (jot ''y''))))"
    by (rule first_message_stored_twice [OF ref_table.letter_box_axioms ref_answers jot_facts(4,1,6) jot_facts(4,1,6) _ _ _ _ _
          s run(1) s' run2 calm_hash(1) [OF calm_no_boxes] calm_hash(1) [OF run(2)]])
       (simp_all add: committed_no_boxes del: ref_pump_simps)
  then show ?thesis
    using run(1) run2 by (auto simp: hashes_def store_p hash_of_def)
qed

text \<open>A message waiting for a user and one for a group.\<close>

definition waiting :: pump_world where
  "waiting = \<lparr>pw_redis = (\<lambda>a. [UserLetterBox 1 \<mapsto> RHash [(''x'', json_print (enc_message zero_message))],
     GroupLetterBox 7 \<mapsto> RHash [(''y'', json_print (enc_message zero_message))]]), pw_rows = []\<rparr>"

lemma waiting_calm: "is_hash (store pw_redis (pe_servers (ref_pump up)) waiting (GroupLetterBox g))"
  "is_hash (store pw_redis (pe_servers (ref_pump up)) waiting (UserLetterBox 1))"
  "hashes pw_redis (pe_servers (ref_pump up)) waiting (UserLetterBox 1) ''x'' = Some (json_print (enc_message zero_message))"
  "hashes pw_redis (pe_servers (ref_pump up)) waiting (GroupLetterBox 7) ''y'' = Some (json_print (enc_message zero_message))"
  by (simp_all add: waiting_def store_p is_hash_def hashes_def hash_of_def)

lemma waiting_lock: "\<exists>w1. run_state (take_lock (ref_pump up) 300 (SetExpire 60 rl)) waiting = (Inr (), w1)"
  if "NewRedisLocker env1 (PersistentLock (UserLetterBox 1)) ''lock'' = Inr rl"
  using that by (auto simp: locker_p take_lock_def Acquire_mem SetExpire_def waiting_def upd_store_def)

lemma save_runs: "\<exists>w'. run_state (saveChatDataToDb (ref_pump up) 1 [7]) waiting = (Inr (), w')"
  by (simp add: saveChatDataToDb_def box_lock_def locker_p SetExpire_def then_do_def take_lock_def Acquire_mem Release_mem mem_cmds
      upd_store_def waiting_def save_box_def or_fail_def RedisHGetAll_def with_client_def env1_routes mem_read_def err_of_def
      case_prod_beta)

theorem saved_boxes_moved_witness:
  "\<exists>w'. run_state (saveChatDataToDb (ref_pump True) 1 [7]) waiting = (Inr (), w') \<and>
     box_moved pw_redis (pe_servers (ref_pump True)) pw_rows waiting w' (GroupLetterBox 7)"
proof -
  obtain w' where run: "run_state (saveChatDataToDb (ref_pump True) 1 [7]) waiting = (Inr (), w')"
    using save_runs by blast
  have up: "fst (run_state (g_CreateInBatches (pe_db (ref_pump True)) ms n) w) = None" for ms n w
    by (simp add: table_gorm_def)
  show ?thesis
    using run saved_boxes_moved [OF ref_table.message_table_axioms ref_answers up waiting_calm(1,2) run] by auto
qed

theorem failed_save_loses_messages_witness:
  "\<exists>w'. run_state (saveChatDataToDb (ref_pump False) 1 [7]) waiting = (Inr (), w') \<and>
     hashes pw_redis (pe_servers (ref_pump False)) waiting (GroupLetterBox 7) ''y'' \<noteq> None \<and>
     store pw_redis (pe_servers (ref_pump False)) w' (GroupLetterBox 7) = None \<and> pw_rows w' = pw_rows waiting"
proof -
  obtain w' where run: "run_state (saveChatDataToDb (ref_pump False) 1 [7]) waiting = (Inr (), w')"
    using save_runs by blast
  have down: "fst (run_state (g_CreateInBatches (pe_db (ref_pump False)) ms n) w) \<noteq> None" for ms n w
    by (simp add: table_gorm_def)
  show ?thesis
    using run waiting_calm(4) [of False] failed_save_loses_messages [OF ref_table.message_table_axioms ref_answers down waiting_calm(1,2) run] by auto
qed

end
