(* ===== verification/Join.thy ===== *)
theory Join
  imports LetterBox Logic
begin

text \<open>How a connection gets into the buckets of a connect server: only by a token that the logic layer accepts.\<close>

lemma run_on_link [simp]: "run_state (on_link m) (w, cs, l) = (case run_state m (w, l) of (a, w', l') \<Rightarrow> (a, w', cs, l'))"
  by (simp add: on_link_def)

lemma run_on_buckets [simp]: "run_state (on_buckets f) (w, cs, l) = (case f cs of (a, cs') \<Rightarrow> (a, w, cs', l))"
  by (simp add: on_buckets_def)

lemma enter_user_run:
  assumes "run_state (enter_user pe c userId) (w, cs, l) = (r, w', cs', l')"
  shows "cs' = cs \<or> (\<exists>i res w1. bucket_of (fst cs) userId = Some i
    \<and> run_state (RedisGetString (pe_redis pe) (pe_servers pe) (UserGroupList userId)) w = (Inr res, w1)
    \<and> cs' = join_groups i userId c (fst (Unmarshal dec_ints res [])) cs)"
proof (cases "bucket_of (fst cs) userId")
  case (Some i)
  obtain x w1 where x: "run_state (RedisGetString (pe_redis pe) (pe_servers pe) (UserGroupList userId)) w = (x, w1)"
    by (metis surj_pair)
  show ?thesis
    using assms by (cases x) (auto simp: enter_user_def Some or_fail_def x)
qed (use assms in \<open>auto simp: enter_user_def\<close>)

text \<open>
  C18: the buckets of a connect server change on a message of a client only if the message carries a token for which the
  logic layer's \<^verbatim>\<open>Connect\<close> returned a user; then the connection joins, in the bucket of that user and as that user, the
  groups that Redis lists for that user.
\<close>
theorem join_needs_token:
  assumes "run_state (readPump_step pe lc serverId conn c) (w, cs, l) = (r, w', cs', l')" and "cs' \<noteq> cs"
  shows "\<exists>msgType body err token userId w0 w1 l1 i res w2 w3.
    run_state (ws_ReadMessage (pe_ws pe) conn) w = ((msgType, Some body, err), w0)
    \<and> token = cr_AccessToken (fst (Unmarshal dec_wsConnReq body \<lparr>cr_AccessToken = []\<rparr>)) \<and> token \<noteq> [] \<and> userId \<noteq> 0
    \<and> run_state (Connect_Connect lc token serverId) (w0, l) = (Inr (Inr userId), w1, l1)
    \<and> bucket_of (fst cs) userId = Some i
    \<and> run_state (RedisGetString (pe_redis pe) (pe_servers pe) (UserGroupList userId)) w2 = (Inr res, w3)
    \<and> cs' = join_groups i userId c (fst (Unmarshal dec_ints res [])) cs"
proof -
  obtain msgType message err w0 where read: "run_state (ws_ReadMessage (pe_ws pe) conn) w = ((msgType, message, err), w0)"
    by (metis surj_pair)
  obtain body where body: "message = Some body" "\<not> (case err of None \<Rightarrow> False | Some e \<Rightarrow> ws_IsUnexpectedCloseError (pe_ws pe) e)"
    using assms by (cases message) (auto simp: readPump_step_def read split: if_splits)
  let ?token = "cr_AccessToken (fst (Unmarshal dec_wsConnReq body \<lparr>cr_AccessToken = []\<rparr>))"
  obtain x w1 l1 where con: "run_state (Connect_Connect lc ?token serverId) (w0, l) = (x, w1, l1)"
    by (metis surj_pair)
  have "?token \<noteq> []"
    using assms by (auto simp: readPump_step_def read body)
  moreover obtain userId where user: "x = Inr (Inr userId)" "userId \<noteq> 0"
    using assms \<open>?token \<noteq> []\<close> body(2)
    by (auto simp: readPump_step_def read body(1) con then_do_def Let_def split: sum.splits if_splits)
  obtain e w2 where ok: "run_state (ws_WriteMessage (pe_ws pe) conn msgType ''ok'') w1 = (e, w2)"
    by (metis surj_pair)
  have "run_state (enter_user pe c userId) (w2, cs, l1) = (r, w', cs', l')"
    using assms \<open>?token \<noteq> []\<close> user body(2)
    by (auto simp: readPump_step_def read body(1) con then_do_def Let_def ok split: if_splits)
  then obtain i res w3 where "bucket_of (fst cs) userId = Some i"
    "run_state (RedisGetString (pe_redis pe) (pe_servers pe) (UserGroupList userId)) w2 = (Inr res, w3)"
    "cs' = join_groups i userId c (fst (Unmarshal dec_ints res [])) cs"
    using enter_user_run assms(2) by metis
  ultimately show ?thesis
    using con user read body(1) by blast
qed

text \<open>
  C37: a user that belongs to no group is never entered in a bucket: the loop that enters it runs over its groups.
  The connection is accepted all the same, and private messages for the user are answered with an error.
\<close>
theorem groupless_user_unreachable:
  assumes "groups = None \<or> groups = Some []" and "bucket_of (fst cs) userId = Some i"
    and "run_state (RedisGetString (pe_redis pe) (pe_servers pe) (UserGroupList userId)) w = (Inr (marshal_ids groups), w1)"
    and "GetChannel userId (ws_Buckets (fst cs) ! i) = None" and "pfm_Belong m = userId"
  shows "run_state (enter_user pe c userId) (w, cs, l) = (Inr (), w1, cs, l)
    \<and> rpc_PushFriendMsg (Some (Some m, Some k)) cs = Replied (Some (NoConnection (pfm_FriendId m))) cs"
proof -
  have "fst (Unmarshal dec_ints (marshal_ids groups) []) = []"
    using assms(1) Unmarshal_print [of JNull dec_ints "[]"] Unmarshal_print [of "enc_ints []" dec_ints "[]"]
    by (auto simp: marshal_ids_def enc_ints_def dec_ints_def)
  moreover obtain ws h where cs: "cs = (ws, h)"
    by (cases cs)
  ultimately show ?thesis
    using assms(2-5) by (auto simp: enter_user_def or_fail_def join_groups_def rpc_PushFriendMsg_def to_user_def)
qed

section \<open>A connection in memory\<close>

text \<open>A client that sends the token \<^verbatim>\<open>t\<close>, of a user in the given groups; the logic layer has one instance.\<close>

definition joining :: "pump_world pump_env" where
  "joining = (ref_pump True)\<lparr>pe_ws := ref_ws\<lparr>ws_ReadMessage :=
     (\<lambda>c. State_Monad.return (1, Some (json_print (JObj [(''accessToken'', JStr ''t'')])), None))\<rparr>\<rparr>"

definition ref_logic :: "(pump_world, string) logic_client" where
  "ref_logic = \<lparr>lc_Connect = (\<lambda>c t s. State_Monad.return (Inr 5)), lc_DisConnect = (\<lambda>c u. State_Monad.return None)\<rparr>"

definition link1 :: "string LogicRpcInstance" where
  "link1 = \<lparr>ll_discovery = \<lparr>sd_serverList = [''l'' \<mapsto> [''conn'']], sd_indexMap = [''l'' \<mapsto> 0], sd_serverKey = Map.empty\<rparr>,
     ll_serverId = ''l'', ll_ins = None\<rparr>"

definition member_of :: "int list option \<Rightarrow> pump_world" where
  "member_of groups = \<lparr>pw_redis = (\<lambda>a. [UserGroupList 5 \<mapsto> RStr (marshal_ids groups)]), pw_rows = []\<rparr>"

definition empty_server :: WsServer where
  "empty_server = NewServer [bucket0] []"

lemma bucket_of_empty: "bucket_of empty_server 5 = Some 0"
  using bucket_of_some [of 5 "[bucket0]" "[]"] by (simp add: empty_server_def int64_range_def)

lemma member_groups: "run_state (RedisGetString (pe_redis joining) (pe_servers joining) (UserGroupList 5)) (member_of groups)
  = (Inr (marshal_ids groups), member_of groups)"
  by (simp add: joining_def RedisGetString_def with_client_def env1_routes mem_redis_def mem_read_def member_of_def nil_as_def)

lemma ids_of_one: "fst (Unmarshal dec_ints (marshal_ids (Some [7])) []) = [7]"
  using Unmarshal_print [of "enc_ints [7]" dec_ints "[]"]
  by (simp add: marshal_ids_def enc_ints_def dec_ints_def int64_range_def del: Unmarshal_print)

lemma empty_buckets: "ws_Buckets empty_server = [bucket0]"
  by (simp add: empty_server_def NewServer_def)

lemma joining_enters: "run_state (enter_user joining 0 5) (member_of (Some [7]), (empty_server, heap1), l1)
  = (Inr (), member_of (Some [7]), (empty_server\<lparr>ws_Buckets := [fst joined]\<rparr>, snd joined), l1)"
  using member_groups [of "Some [7]"]
  by (simp add: enter_user_def bucket_of_empty or_fail_def ids_of_one join_groups_def in_bucket_def joined_def empty_buckets case_prod_beta)

theorem join_needs_token_witness:
  "\<exists>l'. run_state (readPump_step joining ref_logic ''s'' 0 0) (member_of (Some [7]), (empty_server, heap1), link1)
      = (Inr (), member_of (Some [7]), (empty_server\<lparr>ws_Buckets := [fst joined]\<rparr>, snd joined), l')
   \<and> (\<exists>w0 w1 l1. run_state (Connect_Connect ref_logic ''t'' ''s'') (w0, link1) = (Inr (Inr 5), w1, l1))"
proof -
  let ?cs = "(empty_server\<lparr>ws_Buckets := [fst joined]\<rparr>, snd joined)"
  obtain body where tok: "cr_AccessToken (fst (Unmarshal dec_wsConnReq body \<lparr>cr_AccessToken = []\<rparr>)) = ''t''"
    and read: "run_state (ws_ReadMessage (pe_ws joining) 0) w = ((1, Some body, None), w)" for w
  proof
    let ?body = "json_print (JObj [(''accessToken'', JStr ''t'')])"
    show "cr_AccessToken (fst (Unmarshal dec_wsConnReq ?body \<lparr>cr_AccessToken = []\<rparr>)) = ''t''"
      using Unmarshal_print [of "JObj [(''accessToken'', JStr ''t'')]" dec_wsConnReq "\<lparr>cr_AccessToken = []\<rparr>"]
      by (simp add: dec_wsConnReq_def fld_def equalFold_eval lower_def del: Unmarshal_print)
    show "run_state (ws_ReadMessage (pe_ws joining) 0) w = ((1, Some ?body, None), w)" for w
      by (simp add: joining_def)
  qed
  have ok: "run_state (ws_WriteMessage (pe_ws joining) 0 1 ''ok'') w = (None, w)" for w
    by (simp add: joining_def ref_pump_def ref_ws_def)
  obtain l1 where con: "run_state (Connect_Connect ref_logic ''t'' ''s'') (w, link1) = (Inr (Inr 5), w, l1)" for w
    by (simp add: Connect_Connect_def logic_instance_def link1_def ref_logic_def GetServiceByServerId_def get_read_def get_advance_def at_list_def at_index_def)
  have run: "run_state (readPump_step joining ref_logic ''s'' 0 0) (member_of (Some [7]), (empty_server, heap1), link1)
      = (Inr (), member_of (Some [7]), ?cs, l1)"
    by (simp add: readPump_step_def read ok tok con then_do_def Let_def joining_enters)
  have "fst joined \<noteq> bucket0"
    using joined_maps(1) conn0_fresh(2) [of 5] by auto
  then have "?cs \<noteq> (empty_server, heap1)"
    using empty_buckets by (auto dest: arg_cong [of _ _ ws_Buckets])
  then obtain msgType b err token w0 w1 l1 where "run_state (ws_ReadMessage (pe_ws joining) 0) (member_of (Some [7])) = ((msgType, Some b, err), w0)"
    "token = cr_AccessToken (fst (Unmarshal dec_wsConnReq b \<lparr>cr_AccessToken = []\<rparr>))"
    "\<exists>u. run_state (Connect_Connect ref_logic token ''s'') (w0, link1) = (Inr (Inr u), w1, l1)"
    using join_needs_token [OF run] by blast
  then show ?thesis
    using run read tok con by auto
qed

theorem groupless_user_unreachable_witness:
  "run_state (enter_user joining 0 5) (member_of None, (empty_server, heap1), link1) = (Inr (), member_of None, (empty_server, heap1), link1)
    \<and> rpc_PushFriendMsg (Some (Some (zero_PushFriendMsgReq_Msg\<lparr>pfm_Belong := 5, pfm_FriendId := 3\<rparr>), Some pos0)) (empty_server, heap1)
      = Replied (Some (NoConnection 3)) (empty_server, heap1)"
proof -
  have "GetChannel 5 (ws_Buckets (fst (empty_server, heap1)) ! 0) = None"
    using conn0_fresh(2) by (simp add: GetChannel_def empty_buckets)
  then show ?thesis
    using groupless_user_unreachable [of None "(empty_server, heap1)" 5 0 joining "member_of None" "member_of None"
        "zero_PushFriendMsgReq_Msg\<lparr>pfm_Belong := 5, pfm_FriendId := 3\<rparr>" 0 link1 pos0]
      member_groups [of None] bucket_of_empty by simp
qed

end
