(* ===== verification/Topics.thy ===== *)
theory Topics
  imports Task
begin

text \<open>
  Which topics the task layer listens to (\<^verbatim>\<open>task/kafka_queue.go\<close>): every five seconds the list of the groups and users that
  are online is compared with the table of topics; for a new one the starter opens a listener, for one that went away the
  listener gets a signal. The goroutines run side by side, so the process is a state with one program counter for
  each of them, and an event is one atomic section of one of them.
\<close>

section \<open>The topics that are online\<close>

definition group_topics :: "(string \<times> string) list \<Rightarrow> string list" where
  "group_topics groupMap = map (\<lambda>kv. GroupQueue (fst (Atoi (fst kv)))) (filter (\<lambda>kv. fst (Atoi (snd kv)) \<noteq> 0) groupMap)"

definition user_topics :: "(string \<times> string) list \<Rightarrow> string list" where
  "user_topics userMap = map (\<lambda>kv. FriendQueue (fst (Atoi (fst kv)))) (filter (\<lambda>kv. snd kv = ''on'') userMap)"

text \<open>An error while reading is logged, and the map that could not be read is empty.\<close>

definition online_topics :: "('w, 'c) task_env \<Rightarrow> ('w, string list) state" where
  "online_topics te = do {
     groupMap \<leftarrow> or_zero (RedisHGetAll (te_redis te) (te_servers te) GroupOnlineUserCount) [];
     userMap \<leftarrow> or_zero (RedisHGetAll (te_redis te) (te_servers te) AllOnlineUser) [];
     State_Monad.return (group_topics groupMap @ user_topics userMap)
   }"

text \<open>What the starter reads off the name of a topic, and the suffix of the consumer group.\<close>

definition topic_params :: "string \<Rightarrow> (string \<times> int) option" where
  "topic_params topic =
     (let strList = Split (CHR ''_'') topic
      in do {
        third \<leftarrow> index strList 2;
        first \<leftarrow> index strList 0;
        Some (if first = ''group'' then ''group'' else if first = ''friend'' then ''user'' else [], fst (Atoi third))
      })"

definition consumer_suffix :: "string \<Rightarrow> int \<Rightarrow> string" where
  "consumer_suffix ty objId =
     (if ty = ''group'' then ''groupid-'' @ fmt_d objId else if ty = ''user'' then ''userid-'' @ fmt_d objId else [])"

section \<open>State\<close>

text \<open>
  A listener is starting until it has read its trigger, then it waits on that channel (\<^term>\<open>None\<close> when the map had
  none); a signal makes it remove the trigger and then, in the deferred function, the topic.
\<close>

datatype listener_phase = Starting | Listening "nat option" | Signalled | Quitting

text \<open>
  The round of \<^verbatim>\<open>updateOnlineObj\<close>: looking at the topics that are online, sending a new one, looking at the topics of the
  table, sending a signal (with the lock of the triggers held), deleting.
\<close>

datatype round_pc =
    NoRound
  | Scanning "string list" "string list"
  | Sending string "string list" "string list"
  | Closing "string list" "string list" "string list"
  | Signalling string "string list" "string list" "string list"
  | Removing "string list"

record topics =
  OnlineTopic :: "string set"
  preOffTrigger :: "string \<rightharpoonup> nat"
  tp_signals :: "nat \<Rightarrow> nat" \<comment> \<open>the signals buffered in a channel, at most one\<close>
  tp_chans :: nat \<comment> \<open>channels made so far\<close>
  newTopicTarget :: "string list"
  tp_listeners :: "nat \<rightharpoonup> string \<times> listener_phase"
  tp_started :: nat \<comment> \<open>listeners started so far\<close>
  tp_round :: round_pc

definition no_topics :: topics where
  "no_topics = \<lparr>OnlineTopic = {}, preOffTrigger = Map.empty, tp_signals = (\<lambda>_. 0), tp_chans = 0, newTopicTarget = [],
     tp_listeners = Map.empty, tp_started = 0, tp_round = NoRound\<rparr>"

section \<open>Events\<close>

text \<open>
  \<open>Tick ts\<close> starts a round that reads the topics \<open>ts\<close> from Redis; \<open>Update ks\<close> is the next section of the round, where
  \<open>ks\<close> is the order in which \<^verbatim>\<open>range\<close> visits the table when that loop begins; \<open>Start\<close> is a turn of the starter, and the rest
  are the sections of listener number \<open>i\<close>. A section may run as soon as its channels and locks allow it; a listener of the
  code that is still waiting for its lock in Redis or pushing a message comes to it later, which is another order of the same events.
\<close>

datatype topic_event = Tick "string list" | Update "string list" | Start | ReadTrigger nat | TakeSignal nat | DropTrigger nat | Finish nat

fun updateOnlineObj_step :: "string list \<Rightarrow> topics \<Rightarrow> round_pc \<Rightarrow> topics option" where
  "updateOnlineObj_step keys s NoRound = None"
| "updateOnlineObj_step keys s (Scanning (topic # ts) newTopicMap) = Some
     (if topic \<in> OnlineTopic s then s\<lparr>tp_round := Scanning ts newTopicMap\<rparr>
      else s\<lparr>OnlineTopic := insert topic (OnlineTopic s), tp_round := Sending topic ts newTopicMap\<rparr>)"
| "updateOnlineObj_step keys s (Sending topic ts newTopicMap) =
     (if length (newTopicTarget s) < 5
      then Some (s\<lparr>newTopicTarget := newTopicTarget s @ [topic], tp_round := Scanning ts newTopicMap\<rparr>) else None)"
| "updateOnlineObj_step keys s (Scanning [] newTopicMap) =
     (if distinct keys \<and> set keys = OnlineTopic s then Some (s\<lparr>tp_round := Closing keys [] newTopicMap\<rparr>) else None)"
| "updateOnlineObj_step keys s (Closing (topic # ks) oldTopic newTopicMap) = Some
     (if topic \<in> set newTopicMap then s\<lparr>tp_round := Closing ks oldTopic newTopicMap\<rparr>
      else s\<lparr>tp_round := Signalling topic ks oldTopic newTopicMap\<rparr>)"
| "updateOnlineObj_step keys s (Signalling topic ks oldTopic newTopicMap) =
     (case preOffTrigger s topic of
        None \<Rightarrow> None
      | Some ch \<Rightarrow>
          if tp_signals s ch < 1
          then Some (s\<lparr>tp_signals := (tp_signals s)(ch := tp_signals s ch + 1), tp_round := Closing ks (oldTopic @ [topic]) newTopicMap\<rparr>)
          else None)"
| "updateOnlineObj_step keys s (Closing [] oldTopic newTopicMap) = Some (s\<lparr>tp_round := Removing oldTopic\<rparr>)"
| "updateOnlineObj_step keys s (Removing (topic # ts)) = Some (s\<lparr>OnlineTopic := OnlineTopic s - {topic}, tp_round := Removing ts\<rparr>)"
| "updateOnlineObj_step keys s (Removing []) = Some (s\<lparr>tp_round := NoRound\<rparr>)"

text \<open>While a round sends a signal, nobody can take the lock of the triggers for writing.\<close>

fun trigger_held :: "round_pc \<Rightarrow> bool" where
  "trigger_held (Signalling topic ks oldTopic newTopicMap) = True"
| "trigger_held pc = False"

text \<open>One turn of \<^verbatim>\<open>startTopic\<close>; a name with fewer than three parts would panic, here no event.\<close>

definition startTopic_step :: "topics \<Rightarrow> topics option" where
  "startTopic_step s =
     (case newTopicTarget s of
        [] \<Rightarrow> None
      | topic # rest \<Rightarrow>
          if trigger_held (tp_round s) then None
          else do {
            _ \<leftarrow> topic_params topic;
            Some (s\<lparr>newTopicTarget := rest, preOffTrigger := (preOffTrigger s)(topic \<mapsto> tp_chans s),
              tp_signals := (tp_signals s)(tp_chans s := 0), tp_chans := Suc (tp_chans s),
              tp_listeners := (tp_listeners s)(tp_started s \<mapsto> (topic, Starting)), tp_started := Suc (tp_started s)\<rparr>)
          })"

definition to_phase :: "nat \<Rightarrow> string \<Rightarrow> listener_phase \<Rightarrow> topics \<Rightarrow> topics" where
  "to_phase i topic p s = s\<lparr>tp_listeners := (tp_listeners s)(i \<mapsto> (topic, p))\<rparr>"

fun topic_step :: "topic_event \<Rightarrow> topics \<Rightarrow> topics option" where
  "topic_step (Tick ts) s = (if tp_round s = NoRound then Some (s\<lparr>tp_round := Scanning ts ts\<rparr>) else None)"
| "topic_step (Update keys) s = updateOnlineObj_step keys s (tp_round s)"
| "topic_step Start s = startTopic_step s"
| "topic_step (ReadTrigger i) s =
     (case tp_listeners s i of
        Some (topic, Starting) \<Rightarrow> Some (to_phase i topic (Listening (preOffTrigger s topic)) s)
      | _ \<Rightarrow> None)"
| "topic_step (TakeSignal i) s =
     (case tp_listeners s i of
        Some (topic, Listening (Some ch)) \<Rightarrow>
          if 0 < tp_signals s ch
          then Some (to_phase i topic Signalled (s\<lparr>tp_signals := (tp_signals s)(ch := tp_signals s ch - 1)\<rparr>)) else None
      | _ \<Rightarrow> None)"
| "topic_step (DropTrigger i) s =
     (case tp_listeners s i of
        Some (topic, Signalled) \<Rightarrow>
          if trigger_held (tp_round s) then None
          else Some (to_phase i topic Quitting (s\<lparr>preOffTrigger := (preOffTrigger s)(topic := None)\<rparr>))
      | _ \<Rightarrow> None)"
| "topic_step (Finish i) s =
     (case tp_listeners s i of
        Some (topic, Quitting) \<Rightarrow>
          if trigger_held (tp_round s) then None
          else Some (s\<lparr>OnlineTopic := OnlineTopic s - {topic}, tp_listeners := (tp_listeners s)(i := None)\<rparr>)
      | _ \<Rightarrow> None)"

fun topic_run :: "topic_event list \<Rightarrow> topics \<Rightarrow> topics option" where
  "topic_run [] s = Some s"
| "topic_run (e # es) s = (case topic_step e s of None \<Rightarrow> None | Some s' \<Rightarrow> topic_run es s')"

end
