(* ===== verification/Listeners.thy ===== *)
theory Listeners
  imports Topics
begin

text \<open>
  What the listeners of the task layer add up to. As long as no round reads a topic whose listener has been told to stop and
  has not ended, there is one listener for each topic that is online (\<open>one_listener_each\<close>). Whenever the rounds come, a round ends or blocks at
  the send of a signal (\<open>round_ends_or_blocks\<close>). When a round comes too early, a topic can get two listeners, one of which nothing can stop
  (\<open>early_round_leaks_listener\<close>), or a round blocks with the lock of the triggers held (\<open>early_round_blocks_starter\<close>). An event is possible
  in the model as soon as its channel and its lock allow it; in the code a listener that is busy with a lock in Redis or with a push takes it later,
  so a run of the code is a run of the model, and nothing here is claimed about when a listener takes its signal.
\<close>

section \<open>Names of topics\<close>

lemma digit_not_underscore: "CHR ''_'' \<notin> set (nat_dec n)"
proof (induction n rule: nat_dec.induct)
  case (1 n)
  have "CHR ''_'' \<noteq> digit_char d" if "d < 10" for d
    using digit_of_digit_char [OF that] by (auto simp: digit_of_def Let_def dest: sym)
  then show ?case
    using 1 by (subst nat_dec.simps) auto
qed

lemma Split_free_end [simp]: "sep \<notin> set xs \<Longrightarrow> Split sep xs = [xs]"
  by (induction xs) auto

lemma Split_queue:
  "Split (CHR ''_'') (GroupQueue g) = [''group'', ''chat'', fmt_d g]"
  "Split (CHR ''_'') (FriendQueue u) = [''friend'', ''chat'', fmt_d u]"
  using digit_not_underscore by (simp_all add: GroupQueue_def FriendQueue_def fmt_d_def)

text \<open>
  C29: the starter reads the kind and the id of a topic back from its name, so each group and each user has
  a consumer group of its own; no name that the round makes is too short for the starter.
\<close>
theorem topic_params_roundtrip:
  assumes "int64_range i"
  shows "topic_params (GroupQueue i) = Some (''group'', i) \<and> topic_params (FriendQueue i) = Some (''user'', i)
    \<and> consumer_suffix ''group'' i \<noteq> consumer_suffix ''user'' j \<and> (consumer_suffix ''group'' i = consumer_suffix ''group'' j \<longleftrightarrow> i = j)
    \<and> (consumer_suffix ''user'' i = consumer_suffix ''user'' j \<longleftrightarrow> i = j)"
  using assms by (simp_all add: topic_params_def index_def Split_queue Atoi_fmt_d int64_range_def consumer_suffix_def)

lemma online_topics_params:
  "run_state (online_topics te) w = (ts, w') \<Longrightarrow> t \<in> set ts \<Longrightarrow> topic_params t \<noteq> None"
  by (auto simp: online_topics_def group_topics_def user_topics_def topic_params_def index_def Split_queue split: prod.splits)

section \<open>A listener for each topic\<close>

text \<open>Topics whose listener is still to be asked for, those that the round still has to look at, and those it has signalled.\<close>

fun sending :: "round_pc \<Rightarrow> string list" where
  "sending (Sending t ts all) = [t]"
| "sending _ = []"

definition pending :: "topics \<Rightarrow> string list" where
  "pending s = newTopicTarget s @ sending (tp_round s)"

fun to_close :: "string set \<Rightarrow> round_pc \<Rightarrow> string set" where
  "to_close online (Scanning ts all) = online"
| "to_close online (Sending t ts all) = online"
| "to_close online (Closing ks old all) = set ks"
| "to_close online (Signalling k ks old all) = insert k (set ks)"
| "to_close online _ = {}"

fun signalled :: "round_pc \<Rightarrow> string set" where
  "signalled (Closing ks old all) = set old"
| "signalled (Signalling k ks old all) = set old"
| "signalled (Removing ts) = set ts"
| "signalled _ = {}"

definition closes :: "topics \<Rightarrow> string \<Rightarrow> bool" where
  "closes s t \<longleftrightarrow> t \<in> to_close (OnlineTopic s) (tp_round s)"

definition told :: "topics \<Rightarrow> string \<Rightarrow> bool" where
  "told s t \<longleftrightarrow> t \<in> signalled (tp_round s)"

text \<open>
  A topic is in one of four modes: it has nothing; it waits for the starter; it has one listener, which waits on the trigger
  of the topic; or its one listener has been told to stop, and the last round did not read the topic.
\<close>

definition no_listener :: "topics \<Rightarrow> string \<Rightarrow> bool" where
  "no_listener s t \<longleftrightarrow> (\<forall>i p. tp_listeners s i \<noteq> Some (t, p))"

definition only_listener :: "topics \<Rightarrow> string \<Rightarrow> nat \<Rightarrow> listener_phase \<Rightarrow> bool" where
  "only_listener s t i p \<longleftrightarrow> (\<forall>j q. tp_listeners s j = Some (t, q) \<longleftrightarrow> j = i \<and> q = p)"

definition triggered :: "topics \<Rightarrow> string \<Rightarrow> listener_phase \<Rightarrow> nat \<Rightarrow> bool" where
  "triggered s t p n \<longleftrightarrow> (\<exists>c. preOffTrigger s t = Some c \<and> tp_signals s c = n \<and> (p = Starting \<or> p = Listening (Some c)))"

definition off :: "topics \<Rightarrow> string \<Rightarrow> bool" where
  "off s t \<longleftrightarrow> t \<notin> set (pending s) \<and> no_listener s t \<and> preOffTrigger s t = None \<and> (t \<in> OnlineTopic s \<longrightarrow> told s t)"

definition wanted :: "topics \<Rightarrow> string list \<Rightarrow> string \<Rightarrow> bool" where
  "wanted s seen t \<longleftrightarrow> t \<in> set (pending s) \<and> no_listener s t \<and> preOffTrigger s t = None \<and> t \<in> OnlineTopic s \<and> \<not> told s t
     \<and> (t \<in> set seen \<or> closes s t)"

definition live :: "topics \<Rightarrow> string list \<Rightarrow> string \<Rightarrow> bool" where
  "live s seen t \<longleftrightarrow> (\<exists>i p. only_listener s t i p \<and> triggered s t p 0) \<and> t \<notin> set (pending s) \<and> t \<in> OnlineTopic s \<and> \<not> told s t
     \<and> (t \<in> set seen \<or> closes s t)"

definition stopping :: "topics \<Rightarrow> string \<Rightarrow> bool" where
  "stopping s t \<longleftrightarrow> (\<exists>i p. tp_listeners s i = Some (t, p) \<and> (triggered s t p 1 \<or> p = Signalled \<or> p = Quitting))"

definition ending :: "topics \<Rightarrow> string list \<Rightarrow> string \<Rightarrow> bool" where
  "ending s seen t \<longleftrightarrow> (\<exists>i p. only_listener s t i p \<and> (triggered s t p 1 \<or> p = Signalled \<or> p = Quitting \<and> preOffTrigger s t = None))
     \<and> t \<notin> set (pending s) \<and> t \<notin> set seen \<and> \<not> closes s t \<and> (t \<in> OnlineTopic s \<longrightarrow> told s t)"

definition topic_ok :: "topics \<Rightarrow> string list \<Rightarrow> string \<Rightarrow> bool" where
  "topic_ok s seen t \<longleftrightarrow> (off s t \<or> wanted s seen t \<or> live s seen t \<or> ending s seen t)
     \<and> (closes s t \<longrightarrow> t \<in> OnlineTopic s \<and> \<not> told s t) \<and> (told s t \<longrightarrow> t \<notin> set seen)"

fun round_ok :: "string set \<Rightarrow> string list \<Rightarrow> round_pc \<Rightarrow> bool" where
  "round_ok online seen (Scanning ts all) \<longleftrightarrow> all = seen \<and> set ts \<subseteq> set seen \<and> set seen \<subseteq> online \<union> set ts"
| "round_ok online seen (Sending t ts all) \<longleftrightarrow> all = seen \<and> set ts \<subseteq> set seen \<and> set seen \<subseteq> online \<union> set ts"
| "round_ok online seen (Closing ks old all) \<longleftrightarrow> all = seen \<and> set seen \<subseteq> online \<and> distinct ks"
| "round_ok online seen (Signalling k ks old all) \<longleftrightarrow> all = seen \<and> set seen \<subseteq> online \<and> distinct (k # ks) \<and> k \<notin> set seen"
| "round_ok online seen _ \<longleftrightarrow> set seen \<subseteq> online"

definition triggers_ok :: "topics \<Rightarrow> bool" where
  "triggers_ok s \<longleftrightarrow> (\<forall>t c. preOffTrigger s t = Some c \<longrightarrow> c < tp_chans s) \<and> inj_on (preOffTrigger s) (dom (preOffTrigger s))"

definition numbered :: "topics \<Rightarrow> bool" where
  "numbered s \<longleftrightarrow> (\<forall>i. tp_listeners s i \<noteq> None \<longrightarrow> i < tp_started s)"

definition listeners_ok :: "topics \<Rightarrow> string list \<Rightarrow> bool" where
  "listeners_ok s seen \<longleftrightarrow> (\<forall>t. topic_ok s seen t) \<and> numbered s \<and> triggers_ok s \<and> distinct (pending s)
     \<and> round_ok (OnlineTopic s) seen (tp_round s)"

lemmas mode_defs = topic_ok_def off_def wanted_def live_def ending_def

lemma listeners_okD:
  assumes "listeners_ok s seen"
  shows "topic_ok s seen t" "numbered s" "triggers_ok s" "distinct (pending s)" "round_ok (OnlineTopic s) seen (tp_round s)"
  using assms unfolding listeners_ok_def by blast+

lemma round_only [simp]:
  "no_listener (s\<lparr>tp_round := r\<rparr>) = no_listener s" "only_listener (s\<lparr>tp_round := r\<rparr>) = only_listener s"
  "triggered (s\<lparr>tp_round := r\<rparr>) = triggered s" "numbered (s\<lparr>tp_round := r\<rparr>) = numbered s" "triggers_ok (s\<lparr>tp_round := r\<rparr>) = triggers_ok s"
  "no_listener (s\<lparr>OnlineTopic := x\<rparr>) = no_listener s" "only_listener (s\<lparr>OnlineTopic := x\<rparr>) = only_listener s"
  "triggered (s\<lparr>OnlineTopic := x\<rparr>) = triggered s" "numbered (s\<lparr>OnlineTopic := x\<rparr>) = numbered s" "triggers_ok (s\<lparr>OnlineTopic := x\<rparr>) = triggers_ok s"
  "no_listener (s\<lparr>newTopicTarget := ts\<rparr>) = no_listener s" "only_listener (s\<lparr>newTopicTarget := ts\<rparr>) = only_listener s"
  "triggered (s\<lparr>newTopicTarget := ts\<rparr>) = triggered s" "numbered (s\<lparr>newTopicTarget := ts\<rparr>) = numbered s"
  "triggers_ok (s\<lparr>newTopicTarget := ts\<rparr>) = triggers_ok s"
  by (auto simp: no_listener_def only_listener_def triggered_def numbered_def triggers_ok_def fun_eq_iff)

text \<open>The states of a run in which no round reads a topic whose listener has been told to stop, with what the last round read.\<close>

inductive timely_run :: "topics \<Rightarrow> string list \<Rightarrow> bool" where
  timely_start: "timely_run no_topics []"
| timely_tick: "timely_run s ts \<Longrightarrow> (\<And>t. t \<in> set ts' \<Longrightarrow> \<not> stopping s t) \<Longrightarrow> topic_step (Tick ts') s = Some s' \<Longrightarrow> timely_run s' ts'"
| timely_step: "timely_run s ts \<Longrightarrow> (\<And>ts'. e \<noteq> Tick ts') \<Longrightarrow> topic_step e s = Some s' \<Longrightarrow> timely_run s' ts"

text \<open>A step leaves alone every topic but the one it is about.\<close>

definition same_for :: "string \<Rightarrow> topics \<Rightarrow> topics \<Rightarrow> bool" where
  "same_for u s s' \<longleftrightarrow> (u \<in> OnlineTopic s' \<longleftrightarrow> u \<in> OnlineTopic s) \<and> (closes s' u \<longleftrightarrow> closes s u) \<and> (told s' u \<longleftrightarrow> told s u)
     \<and> (u \<in> set (pending s') \<longleftrightarrow> u \<in> set (pending s)) \<and> preOffTrigger s' u = preOffTrigger s u
     \<and> (\<forall>i p. tp_listeners s' i = Some (u, p) \<longleftrightarrow> tp_listeners s i = Some (u, p))
     \<and> (\<forall>c. preOffTrigger s u = Some c \<longrightarrow> tp_signals s' c = tp_signals s c)"

lemma topic_ok_same:
  assumes "same_for u s s'" and "topic_ok s seen u"
  shows "topic_ok s' seen u"
proof -
  have "only_listener s' u i p = only_listener s u i p" "no_listener s' u = no_listener s u" "triggered s' u p n = triggered s u p n" for i p n
    using assms(1) unfolding same_for_def only_listener_def no_listener_def triggered_def by metis+
  then show ?thesis
    using assms by (simp add: mode_defs same_for_def)
qed

lemma listeners_ok_one:
  assumes ok: "listeners_ok s seen" and "\<And>u. u \<noteq> t \<Longrightarrow> same_for u s s'" and "topic_ok s' seen t"
    and "numbered s'" and "triggers_ok s'" and "distinct (pending s')" and "round_ok (OnlineTopic s') seen (tp_round s')"
  shows "listeners_ok s' seen"
proof -
  have "topic_ok s' seen u" for u
    using topic_ok_same [of u s s'] assms(2,3) listeners_okD(1) [OF ok] by (cases "u = t") auto
  then show ?thesis
    using assms by (simp add: listeners_ok_def)
qed

lemma listeners_ok_start: "listeners_ok no_topics []"
  by (simp add: listeners_ok_def no_topics_def pending_def mode_defs no_listener_def closes_def told_def numbered_def triggers_ok_def)

lemma only_listener_at: "only_listener s t i p \<Longrightarrow> tp_listeners s i = Some (t, p)"
  by (simp add: only_listener_def)

lemma stopping_ending: "ending s seen t \<Longrightarrow> stopping s t"
  unfolding ending_def stopping_def using only_listener_at by blast

lemma listeners_ok_tick:
  assumes ok: "listeners_ok s seen" and "\<And>t. t \<in> set ts \<Longrightarrow> \<not> stopping s t" and step: "topic_step (Tick ts) s = Some s'"
  shows "listeners_ok s' ts"
proof -
  have s': "s' = s\<lparr>tp_round := Scanning ts ts\<rparr>" and none: "tp_round s = NoRound"
    using step by (auto split: if_splits)
  have "topic_ok s' ts t" for t
    using listeners_okD(1) [OF ok, of t] stopping_ending [of s seen t] assms(2) [of t] unfolding s' mode_defs
    by (auto simp: none closes_def told_def pending_def)
  then show ?thesis
    using listeners_okD(2-5) [OF ok] by (simp add: listeners_ok_def s' none numbered_def triggers_ok_def pending_def)
qed

text \<open>The sections of a round.\<close>

lemma to_close_mode:
  assumes "topic_ok s seen t" and "closes s t"
  shows "(wanted s seen t \<or> live s seen t) \<and> t \<in> OnlineTopic s \<and> \<not> told s t"
  using assms unfolding mode_defs by blast

lemma listeners_ok_signal:
  assumes ok: "listeners_ok s seen" and r: "tp_round s = Signalling t ks old all" and c: "preOffTrigger s t = Some c"
    and s': "s' = s\<lparr>tp_signals := (tp_signals s)(c := tp_signals s c + 1), tp_round := Closing ks (old @ [t]) all\<rparr>"
  shows "listeners_ok s' seen"
proof (rule listeners_ok_one [OF ok, where t = t])
  have t: "closes s t" "t \<notin> set seen" "t \<notin> set ks"
    using r listeners_okD(5) [OF ok] by (auto simp: closes_def)
  have lv: "live s seen t" "t \<notin> set old"
    using to_close_mode [OF listeners_okD(1) [OF ok] t(1)] c by (auto simp: wanted_def told_def r)
  then obtain i p where "only_listener s t i p" "triggered s t p 0"
    unfolding live_def by blast
  then have "only_listener s' t i p" "triggered s' t p 1"
    using c by (auto simp: s' only_listener_def triggered_def)
  then show "topic_ok s' seen t"
    using lv t r unfolding topic_ok_def ending_def live_def by (auto simp: s' told_def closes_def pending_def)
  fix u assume "u \<noteq> t"
  moreover have "preOffTrigger s u \<noteq> Some c"
    using \<open>u \<noteq> t\<close> listeners_okD(3) [OF ok] c unfolding triggers_ok_def inj_on_def by (metis domI)
  ultimately show "same_for u s s'"
    using r by (auto simp: same_for_def s' closes_def told_def pending_def)
qed (use listeners_okD(2-5) [OF ok] r in \<open>simp_all add: s' numbered_def triggers_ok_def pending_def\<close>)

lemma listeners_ok_new:
  assumes ok: "listeners_ok s seen" and r: "tp_round s = Scanning (t # ts) all" and "t \<notin> OnlineTopic s"
    and s': "s' = s\<lparr>OnlineTopic := insert t (OnlineTopic s), tp_round := Sending t ts all\<rparr>"
  shows "listeners_ok s' seen"
proof (rule listeners_ok_one [OF ok, where t = t])
  have "t \<in> set seen"
    using listeners_okD(5) [OF ok] r by auto
  moreover from this have "off s t"
    using listeners_okD(1) [OF ok, of t] assms(3) unfolding mode_defs by blast
  ultimately show "topic_ok s' seen t"
    by (auto simp: topic_ok_def off_def wanted_def s' pending_def told_def)
  show "distinct (pending s')"
    using \<open>off s t\<close> listeners_okD(4) [OF ok] r by (auto simp: off_def pending_def s')
  fix u assume "u \<noteq> t"
  then show "same_for u s s'"
    by (auto simp: same_for_def s' r closes_def told_def pending_def)
qed (use listeners_okD(2-5) [OF ok] r in \<open>auto simp: s'\<close>)

lemma listeners_ok_skip:
  assumes ok: "listeners_ok s seen" and s': "s' = s\<lparr>OnlineTopic := OnlineTopic s - del, newTopicTarget := q, tp_round := r\<rparr>"
    and "set (pending s') = set (pending s)" "distinct (pending s')" "round_ok (OnlineTopic s') seen r"
    and "\<And>t. closes s' t \<Longrightarrow> closes s t" "\<And>t. closes s t \<Longrightarrow> closes s' t \<or> t \<in> set seen"
    and "\<And>t. told s' t \<Longrightarrow> told s t" "\<And>t. told s t \<Longrightarrow> told s' t \<or> t \<in> del" "\<And>t. t \<in> del \<Longrightarrow> told s t"
  shows "listeners_ok s' seen"
proof -
  have "topic_ok s' seen t" for t
  proof -
    have same: "only_listener s' = only_listener s" "no_listener s' = no_listener s" "triggered s' = triggered s"
      "preOffTrigger s' = preOffTrigger s" "t \<in> OnlineTopic s' \<longleftrightarrow> t \<in> OnlineTopic s \<and> t \<notin> del"
      by (simp_all add: s')
    consider "off s t" | "wanted s seen t" | "live s seen t" | "ending s seen t"
      using listeners_okD(1) [OF ok, of t] unfolding topic_ok_def by blast
    then have "off s' t \<or> wanted s' seen t \<or> live s' seen t \<or> ending s' seen t"
    proof cases
      case 1
      then show ?thesis
        using assms(3) assms(9) [of t] by (simp add: off_def same) blast
    next
      case 2
      then show ?thesis
        using assms(3) assms(7,8,10) [of t] by (simp add: wanted_def same) blast
    next
      case 3
      then show ?thesis
        using assms(3) assms(7,8,10) [of t] by (simp add: live_def same) blast
    next
      case 4
      then show ?thesis
        using assms(3) assms(6,9) [of t] by (simp add: ending_def same) blast
    qed
    then show ?thesis
      using listeners_okD(1) [OF ok, of t] assms(6,8,10) [of t] same(5) unfolding topic_ok_def by blast
  qed
  then show ?thesis
    using assms(4,5) listeners_okD(2,3) [OF ok] by (simp add: listeners_ok_def s')
qed

lemma listeners_ok_update:
  assumes ok: "listeners_ok s seen" and step: "topic_step (Update keys) s = Some s'"
  shows "listeners_ok s' seen"
proof (cases "(keys, s, tp_round s)" rule: updateOnlineObj_step.cases)
  case (2 keys' s1 t ts all)
  then show ?thesis
  proof (cases "t \<in> OnlineTopic s")
    case True
    then have "x \<in> set seen \<Longrightarrow> x \<notin> set ts \<Longrightarrow> x \<in> OnlineTopic s" for x
      using 2 listeners_okD(5) [OF ok] by auto
    then show ?thesis
      using 2 True step listeners_okD(4,5) [OF ok]
      by (intro listeners_ok_skip [OF ok, where del = "{}" and q = "newTopicTarget s" and r = "Scanning ts all"])
         (auto simp: closes_def told_def pending_def)
  qed (use 2 step listeners_ok_new [OF ok, of t ts all] in auto)
next
  case (6 keys' s1 t ks old all)
  then obtain c where "preOffTrigger s t = Some c" "s' = s\<lparr>tp_signals := (tp_signals s)(c := tp_signals s c + 1), tp_round := Closing ks (old @ [t]) all\<rparr>"
    using step by (auto split: option.splits if_splits)
  then show ?thesis
    using 6 listeners_ok_signal [OF ok, of t ks old all c] by auto
next
  case (8 keys' s1 t ts)
  then have "x \<in> set seen \<Longrightarrow> x \<in> OnlineTopic s" for x
    using listeners_okD(5) [OF ok] by auto
  then show ?thesis
    using 8 step listeners_okD(4,5) [OF ok] listeners_okD(1) [OF ok, of t]
    by (auto intro!: listeners_ok_skip [OF ok, where del = "{t}" and q = "newTopicTarget s" and r = "Removing ts"]
        simp: closes_def told_def pending_def topic_ok_def)
qed (use step listeners_okD(4,5) [OF ok] in \<open>auto intro!: listeners_ok_skip [OF ok, where del = "{}" and q = "newTopicTarget s'" and r = "tp_round s'"] simp: closes_def told_def pending_def split: if_splits\<close>)

text \<open>The sections of a listener.\<close>

lemma to_phase_topic:
  assumes "only_listener s t i p"
  shows "only_listener (to_phase i t q s) t i q"
  using assms by (auto simp: only_listener_def to_phase_def split: if_splits)

lemma listeners_ok_phase:
  assumes ok: "listeners_ok s seen" and l: "tp_listeners s i = Some (t, p)"
    and same: "tp_listeners s' = (tp_listeners s)(i := q)" "q = None \<or> q = Some (t, p')" "OnlineTopic s' = OnlineTopic s - del" "del \<subseteq> {t}"
      "newTopicTarget s' = newTopicTarget s" "tp_round s' = tp_round s" "tp_chans s' = tp_chans s" "tp_started s' = tp_started s"
    and trigger: "preOffTrigger s' = preOffTrigger s \<or> preOffTrigger s' = (preOffTrigger s)(t := None)"
    and others: "\<And>u c. u \<noteq> t \<Longrightarrow> preOffTrigger s u = Some c \<Longrightarrow> tp_signals s' c = tp_signals s c"
    and own: "topic_ok s' seen t" "t \<in> del \<Longrightarrow> t \<notin> set seen"
  shows "listeners_ok s' seen"
proof (rule listeners_ok_one [OF ok, where t = t])
  fix u assume "u \<noteq> t"
  then have "to_close (OnlineTopic s - del) (tp_round s) \<inter> {u} = to_close (OnlineTopic s) (tp_round s) \<inter> {u}"
    using same(4) by (cases "tp_round s") auto
  then have "closes s' u = closes s u"
    unfolding closes_def same by blast
  then show "same_for u s s'"
    using \<open>u \<noteq> t\<close> same l trigger others by (auto simp: same_for_def told_def pending_def)
next
  show "triggers_ok s'"
    using listeners_okD(3) [OF ok] trigger by (auto simp: triggers_ok_def same inj_on_def dom_def split: if_splits)
  show "round_ok (OnlineTopic s') seen (tp_round s')"
    using listeners_okD(5) [OF ok] own(2) same(4) unfolding same by (cases "tp_round s") auto
qed (use listeners_okD(2,4) [OF ok] l own same(2) in \<open>auto simp: numbered_def same pending_def\<close>)

lemma listener_mode:
  assumes "topic_ok s seen t" and "tp_listeners s i = Some (t, p)"
  shows "only_listener s t i p \<and> (live s seen t \<and> triggered s t p 0 \<or>
     ending s seen t \<and> (triggered s t p 1 \<or> p = Signalled \<or> p = Quitting \<and> preOffTrigger s t = None))"
proof -
  have eq: "only_listener s t j q \<Longrightarrow> j = i \<and> q = p" for j q
    using assms(2) unfolding only_listener_def by metis
  have "live s seen t \<or> ending s seen t"
    using assms unfolding topic_ok_def off_def wanted_def no_listener_def by blast
  then show ?thesis
  proof
    assume "live s seen t"
    moreover from this obtain j q where "only_listener s t j q" "triggered s t q 0"
      unfolding live_def by blast
    ultimately show ?thesis
      using eq by blast
  next
    assume "ending s seen t"
    moreover from this obtain j q where "only_listener s t j q"
        "triggered s t q 1 \<or> q = Signalled \<or> q = Quitting \<and> preOffTrigger s t = None"
      unfolding ending_def by blast
    ultimately show ?thesis
      using eq by blast
  qed
qed

lemma listeners_ok_read:
  assumes ok: "listeners_ok s seen" and step: "topic_step (ReadTrigger i) s = Some s'"
  shows "listeners_ok s' seen"
proof -
  obtain t where l: "tp_listeners s i = Some (t, Starting)" and s': "s' = to_phase i t (Listening (preOffTrigger s t)) s"
    using step by (auto split: option.splits prod.splits listener_phase.splits)
  note m = listener_mode [OF listeners_okD(1) [OF ok] l]
  have same: "only_listener s' t i (Listening (preOffTrigger s t))" "triggered s t Starting n \<Longrightarrow> triggered s' t (Listening (preOffTrigger s t)) n"
    "OnlineTopic s' = OnlineTopic s" "pending s' = pending s" "closes s' t = closes s t" "told s' t = told s t" for n
    using m to_phase_topic [of s t i Starting] by (auto simp: s' to_phase_def triggered_def pending_def closes_def told_def)
  have "live s' seen t \<or> ending s' seen t"
    using m unfolding live_def ending_def same by (metis same(1,2) listener_phase.distinct(3,5))
  then have "topic_ok s' seen t"
    using listeners_okD(1) [OF ok, of t] unfolding topic_ok_def same by blast
  then show ?thesis
    by (intro listeners_ok_phase [OF ok l, where del = "{}" and q = "Some (t, Listening (preOffTrigger s t))"]) (auto simp: s' to_phase_def)
qed

lemma listeners_ok_take:
  assumes ok: "listeners_ok s seen" and step: "topic_step (TakeSignal i) s = Some s'"
  shows "listeners_ok s' seen"
proof -
  obtain t c where l: "tp_listeners s i = Some (t, Listening (Some c))" and c: "0 < tp_signals s c"
    and s': "s' = to_phase i t Signalled (s\<lparr>tp_signals := (tp_signals s)(c := tp_signals s c - 1)\<rparr>)"
    using step by (auto split: option.splits prod.splits listener_phase.splits if_splits)
  have m: "only_listener s t i (Listening (Some c))" "ending s seen t" "preOffTrigger s t = Some c"
    using listener_mode [OF listeners_okD(1) [OF ok] l] c by (auto simp: triggered_def)
  have "only_listener s' t i Signalled"
    using m(1) by (auto simp: only_listener_def s' to_phase_def split: if_splits)
  then have "topic_ok s' seen t"
    using listeners_okD(1) [OF ok, of t] m(2) unfolding topic_ok_def ending_def by (auto simp: s' to_phase_def closes_def told_def pending_def)
  moreover have "preOffTrigger s u \<noteq> Some c" if "u \<noteq> t" for u
    using that listeners_okD(3) [OF ok] m(3) unfolding triggers_ok_def inj_on_def by (metis domI)
  ultimately show ?thesis
    by (intro listeners_ok_phase [OF ok l, where del = "{}" and q = "Some (t, Signalled)"]) (auto simp: s' to_phase_def)
qed

lemma listeners_ok_drop:
  assumes ok: "listeners_ok s seen" and step: "topic_step (DropTrigger i) s = Some s'"
  shows "listeners_ok s' seen"
proof -
  obtain t where l: "tp_listeners s i = Some (t, Signalled)"
    and s': "s' = to_phase i t Quitting (s\<lparr>preOffTrigger := (preOffTrigger s)(t := None)\<rparr>)"
    using step by (auto split: option.splits prod.splits listener_phase.splits if_splits)
  have m: "only_listener s t i Signalled" "ending s seen t"
    using listener_mode [OF listeners_okD(1) [OF ok] l] by (auto simp: triggered_def)
  have "only_listener s' t i Quitting"
    using m(1) by (auto simp: only_listener_def s' to_phase_def split: if_splits)
  then have "topic_ok s' seen t"
    using listeners_okD(1) [OF ok, of t] m(2) unfolding topic_ok_def ending_def by (auto simp: s' to_phase_def closes_def told_def pending_def)
  then show ?thesis
    by (intro listeners_ok_phase [OF ok l, where del = "{}" and q = "Some (t, Quitting)"]) (auto simp: s' to_phase_def)
qed

lemma listeners_ok_finish:
  assumes ok: "listeners_ok s seen" and step: "topic_step (Finish i) s = Some s'"
  shows "listeners_ok s' seen"
proof -
  obtain t where l: "tp_listeners s i = Some (t, Quitting)"
    and s': "s' = s\<lparr>OnlineTopic := OnlineTopic s - {t}, tp_listeners := (tp_listeners s)(i := None)\<rparr>"
    using step by (auto split: option.splits prod.splits listener_phase.splits if_splits)
  have m: "only_listener s t i Quitting" "ending s seen t" "preOffTrigger s t = None"
    using listener_mode [OF listeners_okD(1) [OF ok] l] by (auto simp: triggered_def)
  have "no_listener s' t"
    using m(1) by (auto simp: only_listener_def no_listener_def s')
  moreover have "\<not> closes s' t"
    using m(2) unfolding ending_def closes_def s' by (cases "tp_round s") auto
  ultimately have "topic_ok s' seen t"
    using listeners_okD(1) [OF ok, of t] m(2,3) unfolding topic_ok_def off_def ending_def by (auto simp: s' told_def pending_def)
  then show ?thesis
    using m(2) by (intro listeners_ok_phase [OF ok l, where del = "{t}" and q = None]) (auto simp: s' ending_def)
qed

text \<open>The starter adds a listener for a topic that has none, with a trigger of its own.\<close>

lemma listeners_ok_start_topic:
  assumes ok: "listeners_ok s seen" and step: "topic_step Start s = Some s'"
  shows "listeners_ok s' seen"
proof -
  obtain t rest where new: "newTopicTarget s = t # rest"
    and s': "s' = s\<lparr>newTopicTarget := rest, preOffTrigger := (preOffTrigger s)(t \<mapsto> tp_chans s),
      tp_signals := (tp_signals s)(tp_chans s := 0), tp_chans := Suc (tp_chans s),
      tp_listeners := (tp_listeners s)(tp_started s \<mapsto> (t, Starting)), tp_started := Suc (tp_started s)\<rparr>"
    using step by (auto simp: startTopic_step_def split: list.splits if_splits option.splits bind_splits)
  have pen: "pending s = t # pending s'" "t \<notin> set (pending s')"
    using listeners_okD(4) [OF ok] by (simp_all add: pending_def new s')
  then have w: "wanted s seen t"
    using listeners_okD(1) [OF ok, of t] unfolding mode_defs by auto
  have fresh: "tp_listeners s (tp_started s) = None" "preOffTrigger s u \<noteq> Some (tp_chans s)" for u
    using listeners_okD(2,3) [OF ok] unfolding numbered_def triggers_ok_def by (metis less_irrefl)+
  have "only_listener s' t (tp_started s) Starting" "triggered s' t Starting 0"
    using w by (auto simp: only_listener_def s' wanted_def no_listener_def triggered_def)
  then have "topic_ok s' seen t"
    using listeners_okD(1) [OF ok, of t] w pen(2) unfolding topic_ok_def live_def wanted_def by (auto simp: s' told_def closes_def)
  moreover have "same_for u s s'" if "u \<noteq> t" for u
    using that fresh pen by (auto simp: same_for_def s' told_def closes_def)
  moreover have "triggers_ok s'"
    using listeners_okD(3) [OF ok] fresh(2) by (auto simp: triggers_ok_def s' less_Suc_eq inj_on_def split: if_splits)
  ultimately show ?thesis
    using listeners_okD(2,4,5) [OF ok] pen(1)
    by (intro listeners_ok_one [OF ok]) (auto simp: s' numbered_def less_Suc_eq)
qed

lemma timely_run_ok: "timely_run s seen \<Longrightarrow> listeners_ok s seen"
proof (induction rule: timely_run.induct)
  case (timely_step s ts e s')
  then show ?case
    by (cases e) (blast intro: listeners_ok_update listeners_ok_start_topic listeners_ok_read listeners_ok_take listeners_ok_drop
        listeners_ok_finish)+
qed (auto intro: listeners_ok_start listeners_ok_tick)

definition listeners_of :: "topics \<Rightarrow> string \<Rightarrow> nat set" where
  "listeners_of s t = {i. \<exists>p. tp_listeners s i = Some (t, p)}"

lemma listeners_of_mode:
  "no_listener s t \<Longrightarrow> listeners_of s t = {}" "only_listener s t i p \<Longrightarrow> listeners_of s t = {i}"
  by (auto simp: listeners_of_def no_listener_def only_listener_def)

text \<open>
  C16: suppose that no round reads a topic as online between the signal to its listener and the end of that
  listener. (The code does not see to this: \<^verbatim>\<open>UpdateOnlineObjTrigger\<close> starts a round at every tick, and \<open>early_round_leaks_listener\<close>
  is what happens otherwise.) Then at no time, whatever the order of the sections of the goroutines, does a topic have more than one listener. When no
  round runs, the table holds the topics that the last round read; each of these waits for the starter or has its listener, which
  waits on the trigger of the topic; of any other topic there is no listener but one that has been told to stop.
\<close>
theorem one_listener_each:
  assumes "timely_run s seen"
  shows "card (listeners_of s t) \<le> 1 \<and> (tp_round s = NoRound \<longrightarrow> OnlineTopic s = set seen \<and>
     (t \<in> set seen \<longrightarrow> t \<in> set (newTopicTarget s) \<and> listeners_of s t = {} \<or>
        t \<notin> set (newTopicTarget s) \<and> (\<exists>i p. listeners_of s t = {i} \<and> tp_listeners s i = Some (t, p) \<and> triggered s t p 0)) \<and>
     (t \<notin> set seen \<longrightarrow> t \<notin> set (newTopicTarget s) \<and> (listeners_of s t = {} \<or> stopping s t)))"
proof -
  note ok = timely_run_ok [OF assms]
  have at: "\<not> closes s u \<and> \<not> told s u" "pending s = newTopicTarget s" if "tp_round s = NoRound" for u
    using that by (simp_all add: closes_def told_def pending_def)
  have table: "OnlineTopic s = set seen" if "tp_round s = NoRound"
    using listeners_okD(1,5) [OF ok] at(1) that unfolding mode_defs by auto
  consider "off s t" | "wanted s seen t" | i p where "live s seen t" "only_listener s t i p" "triggered s t p 0"
    | i p where "ending s seen t" "only_listener s t i p"
    using listeners_okD(1) [OF ok, of t] unfolding topic_ok_def live_def ending_def by blast
  then show ?thesis
  proof cases
    case 1
    then show ?thesis
      using table at(1) [of t] at(2) listeners_of_mode(1) [of s t] by (auto simp: off_def)
  next
    case 2
    then show ?thesis
      using table at(1) [of t] at(2) listeners_of_mode(1) [of s t] by (auto simp: wanted_def)
  next
    case (3 i p)
    then show ?thesis
      using table at(1) [of t] at(2) listeners_of_mode(2) [of s t i p] only_listener_at [of s t i p]
      by (auto simp: live_def)
  next
    case (4 i p)
    then show ?thesis
      using table at(1) [of t] at(2) listeners_of_mode(2) [of s t i p] stopping_ending [of s seen t]
      by (auto simp: ending_def)
  qed
qed

lemma topic_run_timely:
  "topic_run es s = Some s' \<Longrightarrow> timely_run s seen \<Longrightarrow> (\<And>ts. Tick ts \<notin> set es) \<Longrightarrow> timely_run s' seen"
proof (induction es arbitrary: s)
  case (Cons e es)
  obtain s1 where s1: "topic_step e s = Some s1" "topic_run es s1 = Some s'"
    using Cons.prems(1) by (auto split: option.splits)
  have e: "e \<noteq> Tick ts" "Tick ts \<notin> set es" for ts
    using Cons.prems(3) [of ts] by auto
  show ?case
    using Cons.IH [OF s1(2) timely_run.timely_step [OF Cons.prems(2) e(1) s1(1)] e(2)] .
qed simp

section \<open>A round ends or blocks\<close>

fun phase_work :: "(string \<times> listener_phase) option \<Rightarrow> nat" where
  "phase_work (Some (t, Starting)) = 4"
| "phase_work (Some (t, Listening ch)) = 3"
| "phase_work (Some (t, Signalled)) = 2"
| "phase_work (Some (t, Quitting)) = 1"
| "phase_work None = 0"

fun round_work :: "nat \<Rightarrow> round_pc \<Rightarrow> nat" where
  "round_work n NoRound = 0"
| "round_work n (Scanning ts all) = 3 * (n + length ts) + 7 * length ts + 3"
| "round_work n (Sending t ts all) = 3 * (n + length ts) + 7 * length ts + 9"
| "round_work n (Closing ks old all) = 3 * length ks + length old + 2"
| "round_work n (Signalling k ks old all) = 3 * length ks + length old + 4"
| "round_work n (Removing ts) = length ts + 1"

text \<open>How many events there can be before the next round at most.\<close>

definition work :: "topics \<Rightarrow> nat" where
  "work s = round_work (card (OnlineTopic s)) (tp_round s) + 5 * length (newTopicTarget s)
     + (\<Sum>i < tp_started s. phase_work (tp_listeners s i))"

lemma work_mono: "m \<le> n \<Longrightarrow> round_work m pc \<le> round_work n pc"
  by (cases pc) auto

lemma phases_less:
  assumes "f i = Some (t, p)" and "i < (n :: nat)" and "phase_work q < phase_work (Some (t, p))"
  shows "(\<Sum>j < n. phase_work ((f(i := q)) j)) < (\<Sum>j < n. phase_work (f j))"
  using assms by (intro sum_strict_mono_ex1) auto

lemma card_insert_work: "3 * card (insert x A) < 4 + 3 * card A"
  by (cases "finite A") (auto simp: card_insert_if)

lemma work_update: "updateOnlineObj_step keys s (tp_round s) = Some s' \<Longrightarrow> work s' < work s"
  by (cases "(keys, s, tp_round s)" rule: updateOnlineObj_step.cases)
     (auto simp: work_def card_insert_work dest: distinct_card split: if_splits option.splits)

lemma work_start: "numbered s \<Longrightarrow> startTopic_step s = Some s' \<Longrightarrow> work s' < work s"
  by (auto simp: numbered_def startTopic_step_def work_def lessThan_Suc split: list.splits if_splits option.splits bind_splits)

lemma numberedD: "numbered s \<Longrightarrow> tp_listeners s i \<noteq> None \<Longrightarrow> i < tp_started s"
  by (simp add: numbered_def)

lemma work_less:
  assumes n: "numbered s" and "\<And>ts. e \<noteq> Tick ts" and "topic_step e s = Some s'"
  shows "work s' < work s"
proof (cases e)
  case (Finish i)
  then obtain t where l: "tp_listeners s i = Some (t, Quitting)"
    and s': "s' = s\<lparr>OnlineTopic := OnlineTopic s - {t}, tp_listeners := (tp_listeners s)(i := None)\<rparr>"
    using assms(3) by (auto split: option.splits prod.splits listener_phase.splits if_splits)
  have "card (OnlineTopic s - {t}) \<le> card (OnlineTopic s)"
    by (cases "finite (OnlineTopic s)") (auto intro: card_mono)
  then show ?thesis
    using phases_less [of "tp_listeners s" i t Quitting "tp_started s" None] work_mono l numberedD [OF n, of i]
    by (fastforce simp: work_def s' intro: add_le_less_mono)
next
  case (Tick ts)
  then show ?thesis
    using assms(2) by blast
qed (use assms numberedD [OF n] work_update work_start phases_less [of "tp_listeners s"] in
     \<open>auto simp: work_def to_phase_def split: option.splits prod.splits listener_phase.splits if_splits\<close>)

text \<open>Every state of the process, whenever its rounds come: the topics that the rounds read have names that the starter can split.\<close>

fun scanned :: "round_pc \<Rightarrow> string list" where
  "scanned (Scanning ts all) = ts"
| "scanned (Sending t ts all) = t # ts"
| "scanned _ = []"

definition named :: "topics \<Rightarrow> bool" where
  "named s \<longleftrightarrow> (\<forall>t \<in> set (newTopicTarget s) \<union> set (scanned (tp_round s)). topic_params t \<noteq> None)"

definition proper :: "topic_event \<Rightarrow> bool" where
  "proper e \<longleftrightarrow> (\<forall>ts t. e = Tick ts \<longrightarrow> t \<in> set ts \<longrightarrow> topic_params t \<noteq> None)"

definition process_ok :: "topics \<Rightarrow> bool" where
  "process_ok s \<longleftrightarrow> numbered s \<and> finite (OnlineTopic s) \<and> named s"

lemma process_ok_update: "process_ok s \<Longrightarrow> updateOnlineObj_step keys s (tp_round s) = Some s' \<Longrightarrow> process_ok s'"
  by (cases "(keys, s, tp_round s)" rule: updateOnlineObj_step.cases)
     (auto simp: process_ok_def numbered_def named_def split: if_splits option.splits)

lemma process_ok_step:
  assumes "process_ok s" and "proper e" and "topic_step e s = Some s'"
  shows "process_ok s'"
proof (cases e)
  case (Update keys)
  then show ?thesis
    using process_ok_update assms(1,3) by (auto simp del: updateOnlineObj_step.simps)
qed (use assms in \<open>auto simp: process_ok_def numbered_def named_def proper_def startTopic_step_def to_phase_def less_Suc_eq
       split: option.splits prod.splits listener_phase.splits list.splits if_splits bind_splits\<close>)

lemma process_ok_run:
  "topic_run es s = Some s' \<Longrightarrow> process_ok s \<Longrightarrow> list_all proper es \<Longrightarrow> process_ok s'"
  by (induction es arbitrary: s) (auto split: option.splits dest: process_ok_step)

lemma process_ok_start: "process_ok no_topics"
  by (simp add: process_ok_def numbered_def named_def no_topics_def)

lemma topic_run_work:
  "topic_run es s = Some s' \<Longrightarrow> process_ok s \<Longrightarrow> (\<And>ts. Tick ts \<notin> set es) \<Longrightarrow> length es + work s' \<le> work s"
proof (induction es arbitrary: s)
  case (Cons e es)
  obtain s1 where s1: "topic_step e s = Some s1" "topic_run es s1 = Some s'"
    using Cons.prems(1) by (auto split: option.splits)
  have "proper e" "\<And>ts. e \<noteq> Tick ts"
    using Cons.prems(3) by (auto simp: proper_def)
  then have "work s1 < work s" "process_ok s1"
    using work_less [of s e s1] process_ok_step [of s e s1] Cons.prems(2) s1(1) by (auto simp: process_ok_def)
  then show ?case
    using Cons.IH [of s1] Cons.prems(3) s1(2) by auto
qed simp

text \<open>The send at which a round may wait for ever: the trigger is not there, or there is a signal in its channel already.\<close>

definition blocked_send :: "topics \<Rightarrow> bool" where
  "blocked_send s \<longleftrightarrow> (\<exists>t ks old all. tp_round s = Signalling t ks old all \<and> (\<forall>c. preOffTrigger s t = Some c \<longrightarrow> 0 < tp_signals s c))"

lemma round_goes_on:
  assumes ok: "process_ok s" and "tp_round s \<noteq> NoRound" and "\<not> blocked_send s"
  shows "(\<exists>keys s'. topic_step (Update keys) s = Some s') \<or> (\<exists>s'. topic_step Start s = Some s')"
proof (cases "\<exists>t ts all. tp_round s = Sending t ts all \<and> \<not> length (newTopicTarget s) < 5")
  case True
  then obtain t rest where "newTopicTarget s = t # rest" "\<not> trigger_held (tp_round s)"
    by (cases "newTopicTarget s") auto
  moreover from this have "topic_params t \<noteq> None"
    using ok by (auto simp: process_ok_def named_def)
  ultimately show ?thesis
    by (auto simp: startTopic_step_def)
next
  case False
  obtain keys where "distinct keys" "set keys = OnlineTopic s"
    using finite_distinct_list ok unfolding process_ok_def by blast
  then have "\<exists>s'. topic_step (Update keys) s = Some s'"
    using False assms(2,3)
    by (cases "(keys, s, tp_round s)" rule: updateOnlineObj_step.cases) (auto simp: blocked_send_def split: option.splits)
  then show ?thesis
    by blast
qed

text \<open>
  C17: whenever the rounds come, between two of them there are at most \<open>work s\<close> sections of the goroutines; and as
  long as a round runs, its own next section or a turn of the starter is possible, with no help of a listener, unless
  the round is at the send of a signal and the trigger is missing or its channel is full. So a round ends or blocks there, and nowhere else.
\<close>
theorem round_ends_or_blocks:
  assumes "topic_run before no_topics = Some s" and "list_all proper before"
  shows "(\<forall>es s'. topic_run es s = Some s' \<and> (\<forall>ts. Tick ts \<notin> set es) \<longrightarrow> length es \<le> work s) \<and>
     (tp_round s \<noteq> NoRound \<longrightarrow> (\<exists>keys s'. topic_step (Update keys) s = Some s') \<or> (\<exists>s'. topic_step Start s = Some s') \<or> blocked_send s)"
proof -
  have ok: "process_ok s"
    using process_ok_run [OF assms(1) process_ok_start assms(2)] .
  have "length es \<le> work s" if "topic_run es s = Some s'" "\<forall>ts. Tick ts \<notin> set es" for es s'
    using topic_run_work [OF that(1) ok] that(2) by auto
  then show ?thesis
    using round_goes_on [OF ok] by blast
qed

section \<open>A round that comes too early\<close>

lemma topic_run_append: "topic_run es s = Some s' \<Longrightarrow> topic_run (es @ es') s = topic_run es' s'"
  by (induction es arbitrary: s) (auto split: option.splits)

text \<open>
  A topic comes online, goes offline while its listener is busy, and comes online again before the listener has seen
  the signal: the second listener and the new trigger are there when the first one ends.
\<close>

definition back_too_early :: "string \<Rightarrow> topic_event list" where
  "back_too_early t =
     [Tick [t], Update [], Update [], Start, ReadTrigger 0, Update [t], Update [], Update [], Update [],
      Tick [], Update [t], Update [], Update [], Update [], Update [], Update [],
      Tick [t], Update [], Update [], Start, ReadTrigger 1, Update [t], Update [], Update [], Update [],
      TakeSignal 0, DropTrigger 0]"

lemma topic_params_queue: "topic_params (GroupQueue g) = Some (''group'', fst (Atoi (fmt_d g)))"
  by (simp add: topic_params_def index_def Split_queue)

definition second_listener :: "string \<Rightarrow> topics" where
  "second_listener t = \<lparr>OnlineTopic = {t}, preOffTrigger = Map.empty, tp_signals = (\<lambda>_. 0), tp_chans = 2, newTopicTarget = [],
     tp_listeners = [0 \<mapsto> (t, Quitting), 1 \<mapsto> (t, Listening (Some 1))], tp_started = 2, tp_round = NoRound\<rparr>"

lemma back_too_early_run: "topic_run (back_too_early (GroupQueue g)) no_topics = Some (second_listener (GroupQueue g))"
  by (simp add: back_too_early_def no_topics_def startTopic_step_def to_phase_def topic_params_queue second_listener_def fun_eq_iff)

lemma stuck_step:
  assumes "tp_round s = Signalling t ks old all" and "preOffTrigger s t = None" and "topic_step e s = Some s'"
  shows "tp_round s' = tp_round s \<and> preOffTrigger s' = preOffTrigger s \<and> tp_started s' = tp_started s"
  using assms by (cases e) (auto simp: startTopic_step_def to_phase_def split: option.splits prod.splits listener_phase.splits list.splits if_splits)

lemma stuck_run:
  "tp_round s = Signalling t ks old all \<Longrightarrow> preOffTrigger s t = None \<Longrightarrow> topic_run es s = Some s' \<Longrightarrow>
   tp_round s' = tp_round s \<and> tp_started s' = tp_started s"
proof (induction es arbitrary: s)
  case (Cons e es)
  then show ?case
    using stuck_step [OF Cons.prems(1,2), of e] by (auto split: option.splits)
qed simp

text \<open>
  If the topic goes offline again between the two sections in which the first listener ends, the round sends
  the signal into the nil channel of a trigger that is no longer there. It waits for ever with the lock of the triggers
  held: no later event ends the round or starts a listener, of this or any other topic.
\<close>
theorem early_round_blocks_starter:
  "\<exists>s. topic_run (back_too_early (GroupQueue g) @ [Tick [], Update [GroupQueue g], Update []]) no_topics = Some s \<and>
     (\<forall>es s'. topic_run es s = Some s' \<longrightarrow> tp_round s' = Signalling (GroupQueue g) [] [] [] \<and> tp_started s' = 2)"
proof -
  let ?s = "(second_listener (GroupQueue g))\<lparr>tp_round := Signalling (GroupQueue g) [] [] []\<rparr>"
  have "topic_run (back_too_early (GroupQueue g) @ [Tick [], Update [GroupQueue g], Update []]) no_topics = Some ?s"
    using topic_run_append [OF back_too_early_run] by (simp add: second_listener_def)
  moreover have "tp_round s' = Signalling (GroupQueue g) [] [] [] \<and> tp_started s' = 2" if "topic_run es ?s = Some s'" for es s'
    using stuck_run [OF _ _ that] by (simp add: second_listener_def)
  ultimately show ?thesis
    by blast
qed

text \<open>A listener whose channel is not in the map of the triggers any more.\<close>

definition orphan :: "topics \<Rightarrow> nat \<Rightarrow> string \<Rightarrow> nat \<Rightarrow> bool" where
  "orphan s i t c \<longleftrightarrow> tp_listeners s i = Some (t, Listening (Some c)) \<and> c \<notin> ran (preOffTrigger s) \<and> c < tp_chans s
     \<and> tp_signals s c = 0 \<and> i < tp_started s"

lemma orphan_update: "orphan s i t c \<Longrightarrow> updateOnlineObj_step keys s (tp_round s) = Some s' \<Longrightarrow> orphan s' i t c"
  by (cases "(keys, s, tp_round s)" rule: updateOnlineObj_step.cases)
     (auto simp: orphan_def ran_def split: if_splits option.splits)

lemma orphan_start: "orphan s i t c \<Longrightarrow> startTopic_step s = Some s' \<Longrightarrow> orphan s' i t c"
  by (auto simp: startTopic_step_def orphan_def ran_def split: list.splits if_splits option.splits bind_splits)

lemma orphan_listener:
  assumes "orphan s i t c" and "tp_listeners s j = Some (u, p)" and "p \<noteq> Listening (Some c)"
    and "tp_listeners s' = (tp_listeners s)(j := l)" "tp_chans s' = tp_chans s" "tp_started s' = tp_started s"
    and "ran (preOffTrigger s') \<subseteq> ran (preOffTrigger s)" "tp_signals s' c = tp_signals s c"
  shows "orphan s' i t c"
  using assms by (auto simp: orphan_def)

lemma orphan_step:
  assumes "orphan s i t c" and "topic_step e s = Some s'"
  shows "orphan s' i t c"
proof (cases e)
  case (TakeSignal j)
  then obtain u d where l: "tp_listeners s j = Some (u, Listening (Some d))" "0 < tp_signals s d"
    and s': "s' = to_phase j u Signalled (s\<lparr>tp_signals := (tp_signals s)(d := tp_signals s d - 1)\<rparr>)"
    using assms(2) by (auto split: option.splits prod.splits listener_phase.splits if_splits)
  then have "d \<noteq> c"
    using assms(1) by (auto simp: orphan_def)
  then show ?thesis
    by (intro orphan_listener [OF assms(1) l(1), of s' "Some (u, Signalled)"]) (simp_all add: s' to_phase_def)
next
  case (DropTrigger j)
  then obtain u where l: "tp_listeners s j = Some (u, Signalled)"
    and s': "s' = to_phase j u Quitting (s\<lparr>preOffTrigger := (preOffTrigger s)(u := None)\<rparr>)"
    using assms(2) by (auto split: option.splits prod.splits listener_phase.splits if_splits)
  show ?thesis
    by (intro orphan_listener [OF assms(1) l, of s' "Some (u, Quitting)"]) (auto simp: s' to_phase_def ran_def)
next
  case (ReadTrigger j)
  then obtain u where l: "tp_listeners s j = Some (u, Starting)" and s': "s' = to_phase j u (Listening (preOffTrigger s u)) s"
    using assms(2) by (auto split: option.splits prod.splits listener_phase.splits)
  show ?thesis
    by (rule orphan_listener [OF assms(1) l]) (simp_all add: s' to_phase_def)
next
  case (Finish j)
  then obtain u where l: "tp_listeners s j = Some (u, Quitting)"
    and s': "s' = s\<lparr>OnlineTopic := OnlineTopic s - {u}, tp_listeners := (tp_listeners s)(j := None)\<rparr>"
    using assms(2) by (auto split: option.splits prod.splits listener_phase.splits if_splits)
  show ?thesis
    by (rule orphan_listener [OF assms(1) l]) (simp_all add: s')
next
  case (Tick ts)
  then show ?thesis
    using assms by (auto simp: orphan_def split: if_splits)
next
  case (Update keys)
  then show ?thesis
    using orphan_update [OF assms(1)] assms(2) by (auto simp del: updateOnlineObj_step.simps)
next
  case Start
  then show ?thesis
    using orphan_start [OF assms(1)] assms(2) by auto
qed

lemma orphan_run: "orphan s i t c \<Longrightarrow> topic_run es s = Some s' \<Longrightarrow> orphan s' i t c"
  by (induction es arbitrary: s) (auto split: option.splits dest: orphan_step)

text \<open>
  C39: if the topic stays online, the end of the first listener takes it out of the table and the next round starts a third
  one: the topic has two listeners, and no later event stops the second.
\<close>
theorem early_round_leaks_listener:
  "\<exists>s. topic_run (back_too_early (GroupQueue g) @ [Finish 0, Tick [GroupQueue g], Update [], Update [], Start, ReadTrigger 2]) no_topics = Some s \<and>
     listeners_of s (GroupQueue g) = {1, 2} \<and>
     (\<forall>es s'. topic_run es s = Some s' \<longrightarrow> tp_listeners s' 1 = Some (GroupQueue g, Listening (Some 1)))"
proof -
  let ?t = "GroupQueue g"
  let ?s = "\<lparr>OnlineTopic = {?t}, preOffTrigger = [?t \<mapsto> 2], tp_signals = (\<lambda>_. 0), tp_chans = 3, newTopicTarget = [],
     tp_listeners = [1 \<mapsto> (?t, Listening (Some 1)), 2 \<mapsto> (?t, Listening (Some 2))], tp_started = 3, tp_round = Scanning [] [?t]\<rparr>"
  have "topic_run (back_too_early ?t @ [Finish 0, Tick [?t], Update [], Update [], Start, ReadTrigger 2]) no_topics = Some ?s"
    using topic_run_append [OF back_too_early_run]
    by (simp add: second_listener_def startTopic_step_def to_phase_def topic_params_queue fun_eq_iff)
  moreover have "listeners_of ?s ?t = {1, 2}"
    by (auto simp: listeners_of_def)
  moreover have "tp_listeners s' 1 = Some (?t, Listening (Some 1))" if "topic_run es ?s = Some s'" for es s'
    using orphan_run [OF _ that, of 1 ?t 1] by (simp add: orphan_def)
  ultimately show ?thesis
    by blast
qed

section \<open>Instances\<close>

theorem topic_params_roundtrip_witness: "topic_params ''group_chat_7'' = Some (''group'', 7)"
proof -
  have "GroupQueue 7 = ''group_chat_7''"
    by (simp add: GroupQueue_def) code_simp
  then show ?thesis
    using topic_params_roundtrip [of 7] by (simp add: int64_range_def)
qed

text \<open>A group comes online.\<close>

definition first_round :: "topic_event list" where
  "first_round = [Update [], Update [], Start, ReadTrigger 0, Update [GroupQueue 7], Update [], Update [], Update []]"

definition scanning7 :: topics where
  "scanning7 = no_topics\<lparr>tp_round := Scanning [GroupQueue 7] [GroupQueue 7]\<rparr>"

definition listening7 :: topics where
  "listening7 = no_topics\<lparr>OnlineTopic := {GroupQueue 7}, preOffTrigger := [GroupQueue 7 \<mapsto> 0], tp_chans := 1,
     tp_listeners := [0 \<mapsto> (GroupQueue 7, Listening (Some 0))], tp_started := 1\<rparr>"

lemma scanning7_timely: "timely_run scanning7 [GroupQueue 7]"
  by (rule timely_run.timely_tick [OF timely_run.timely_start]) (simp_all add: stopping_def no_topics_def scanning7_def)

lemma first_round_run: "topic_run first_round scanning7 = Some listening7" "\<And>ts. Tick ts \<notin> set first_round"
  by (simp_all add: first_round_def scanning7_def no_topics_def startTopic_step_def to_phase_def topic_params_queue listening7_def fun_eq_iff)

text \<open>It goes offline, and the next round but one comes while its listener has not yet taken the signal.\<close>

definition next_round :: "topic_event list" where
  "next_round = [Update [GroupQueue 7], Update [], Update [], Update [], Update [], Update []]"

definition told7 :: topics where
  "told7 = no_topics\<lparr>preOffTrigger := [GroupQueue 7 \<mapsto> 0], tp_chans := 1, tp_signals := (\<lambda>_. 0)(0 := 1),
     tp_listeners := [0 \<mapsto> (GroupQueue 7, Listening (Some 0))], tp_started := 1\<rparr>"

lemma next_round_run: "topic_run next_round (listening7\<lparr>tp_round := Scanning [] []\<rparr>) = Some told7"
    "\<And>ts. Tick ts \<notin> set next_round"
  by (simp_all add: next_round_def told7_def listening7_def no_topics_def fun_eq_iff)

lemma told7_timely: "timely_run (told7\<lparr>tp_round := Scanning [] []\<rparr>) []"
proof -
  have "timely_run (listening7\<lparr>tp_round := Scanning [] []\<rparr>) []"
    using topic_run_timely [OF first_round_run(1) scanning7_timely first_round_run(2)]
    by (rule timely_run.timely_tick) (simp_all add: listening7_def no_topics_def)
  then have "timely_run told7 []"
    using topic_run_timely [OF next_round_run(1) _ next_round_run(2)] by blast
  then show ?thesis
    by (rule timely_run.timely_tick) (simp_all add: told7_def no_topics_def)
qed

theorem one_listener_each_witness:
  "tp_round listening7 = NoRound \<and> OnlineTopic listening7 = {GroupQueue 7} \<and> card (listeners_of listening7 (GroupQueue 7)) = 1
   \<and> listeners_of listening7 (GroupQueue 8) = {} \<and> card (listeners_of (told7\<lparr>tp_round := Scanning [] []\<rparr>) (GroupQueue 7)) \<le> 1"
proof -
  have run: "timely_run listening7 [GroupQueue 7]"
    using topic_run_timely [OF first_round_run(1) scanning7_timely first_round_run(2)] .
  have "tp_round listening7 = NoRound" "newTopicTarget listening7 = []" "\<not> stopping listening7 (GroupQueue 8)" "GroupQueue 8 \<noteq> GroupQueue 7"
    by (auto simp: listening7_def no_topics_def stopping_def GroupQueue_def)
  then show ?thesis
    using one_listener_each [OF run, of "GroupQueue 7"] one_listener_each [OF run, of "GroupQueue 8"]
      one_listener_each [OF told7_timely, of "GroupQueue 7"] by auto
qed

lemma back_too_early_proper: "list_all proper (back_too_early (GroupQueue g))"
  by (simp add: back_too_early_def proper_def topic_params_queue)

text \<open>A round that goes on with the queue of the starter empty, and one that is blocked.\<close>

theorem round_ends_or_blocks_witness:
  "length first_round \<le> work scanning7 \<and> (\<exists>keys s'. topic_step (Update keys) scanning7 = Some s')
   \<and> (\<exists>s. topic_run (back_too_early (GroupQueue 7) @ [Tick [], Update [GroupQueue 7], Update []]) no_topics = Some s \<and> blocked_send s)"
proof -
  have "topic_run [Tick [GroupQueue 7]] no_topics = Some scanning7" "list_all proper [Tick [GroupQueue 7]]"
    by (simp_all add: no_topics_def scanning7_def proper_def topic_params_queue)
  from round_ends_or_blocks [OF this]
  have "length first_round \<le> work scanning7 \<and> (\<exists>keys s'. topic_step (Update keys) scanning7 = Some s')"
    using first_round_run by (auto simp: scanning7_def no_topics_def startTopic_step_def blocked_send_def)
  moreover let ?s = "(second_listener (GroupQueue 7))\<lparr>tp_round := Signalling (GroupQueue 7) [] [] []\<rparr>"
  have run: "topic_run (back_too_early (GroupQueue 7) @ [Tick [], Update [GroupQueue 7], Update []]) no_topics = Some ?s"
    using topic_run_append [OF back_too_early_run] by (simp add: second_listener_def)
  have "list_all proper (back_too_early (GroupQueue 7) @ [Tick [], Update [GroupQueue 7], Update []])"
    using back_too_early_proper by (simp add: proper_def)
  from round_ends_or_blocks [OF run this] have "blocked_send ?s"
    by (auto simp: second_listener_def startTopic_step_def)
  ultimately show ?thesis
    using run by blast
qed

theorem early_round_blocks_starter_witness:
  "\<exists>s. topic_run (back_too_early (GroupQueue 7) @ [Tick [], Update [GroupQueue 7], Update []]) no_topics = Some s \<and>
     tp_round s = Signalling (GroupQueue 7) [] [] [] \<and> tp_started s = 2"
  using early_round_blocks_starter [of 7] by (metis topic_run.simps(1))

theorem early_round_leaks_listener_witness:
  "\<exists>s. topic_run (back_too_early (GroupQueue 7) @ [Finish 0, Tick [GroupQueue 7], Update [], Update [], Start, ReadTrigger 2]) no_topics = Some s
     \<and> listeners_of s (GroupQueue 7) = {1, 2} \<and> tp_listeners s 1 = Some (GroupQueue 7, Listening (Some 1))"
  using early_round_leaks_listener [of 7] by (metis topic_run.simps(1))

end
