(* ===== verification/Fetch.thy ===== *)
theory Fetch
  imports Topics
begin

text \<open>
  One listener of the task layer (\<^verbatim>\<open>fetchMsgFromTopic\<close> and \<^verbatim>\<open>fetchNextOffsetMsg\<close> in \<^verbatim>\<open>task/kafka_queue.go\<close>): a goroutine
  fetches the next message of the topic when it is told to, the listener waits for the topic's lock in Redis, which the
  connect layer releases when the previous message has reached a client, and then pushes the message. The
  two channels between them are unbuffered: sending and receiving are one event.
\<close>

record 'w fetch_env =
  fe_redis :: "'w redis_api"
  fe_servers :: RedisEnv
  fe_kafka :: "'w kafka_api"
  fe_address :: string
  fe_CloseReader :: "nat \<Rightarrow> ('w, string option) state"

section \<open>State\<close>

datatype fetcher_pc = AwaitNext | Fetching | Offering "string + KafkaMessage" | Returned

record fetcher =
  f_reader :: "nat option"
  f_cancelled :: bool \<comment> \<open>its context\<close>
  f_pc :: fetcher_pc

text \<open>
  The listener takes the lock once to open its reader; then it waits for a response, tries to deliver one, is blocked in \<^verbatim>\<open>Push\<close>, or
  has some \<^verbatim>\<open>fetchNext\<close> to send.
\<close>

datatype listen_pc = Opening | AwaitResp | Delivering KafkaMessage | Pushing KafkaMessage | Triggering nat | Quit

record listener =
  fl_topic :: string
  fl_suffix :: string
  fl_lock :: RedisLockObj
  fl_reader :: "nat option"
  fl_hasCommit :: KafkaMsgInfo
  fl_curOffset :: int
  fl_fetchers :: "fetcher list"
  fl_pc :: listen_pc

text \<open>The lock's expiry is set before the constructor's error is looked at: without a lock that is a nil pointer.\<close>

definition fetchMsgFromTopic :: "'w fetch_env \<Rightarrow> string \<Rightarrow> int \<Rightarrow> string \<Rightarrow> listener option" where
  "fetchMsgFromTopic fe ty objId topic =
     (case NewRedisLocker (fe_servers fe) (RedisLock topic) topic of
        Inl _ \<Rightarrow> None
      | Inr redisLock \<Rightarrow> Some
          \<lparr>fl_topic = topic, fl_suffix = consumer_suffix ty objId, fl_lock = SetExpire 60 redisLock, fl_reader = None,
           fl_hasCommit = zero_KafkaMsgInfo, fl_curOffset = 0, fl_fetchers = [], fl_pc = Opening\<rparr>)"

text \<open>
  A new reader at the position that Redis has committed. An error leaves what was done so far; the offset 0 is not
  committed.
\<close>

definition initKafkaReader :: "'w fetch_env \<Rightarrow> listener \<Rightarrow> ('w, listener) state" where
  "initKafkaReader fe l = do {
     r \<leftarrow> GetConsumeReader (fe_kafka fe) (fe_address fe) (fl_suffix l) (fl_topic l);
     (case r of
        Inl _ \<Rightarrow> State_Monad.return (l\<lparr>fl_reader := None\<rparr>)
      | Inr reader \<Rightarrow> do {
          res \<leftarrow> RedisGetString (fe_redis fe) (fe_servers fe) (KafkaTopicOffset (fl_topic l));
          (case res of
             Inl _ \<Rightarrow> State_Monad.return (l\<lparr>fl_reader := Some reader\<rparr>)
           | Inr body \<Rightarrow>
               (let hasCommit = fst (Unmarshal dec_KafkaMsgInfo body (fl_hasCommit l));
                    l' = l\<lparr>fl_reader := Some reader, fl_hasCommit := hasCommit\<rparr>
                in if ki_Offset hasCommit \<noteq> 0 then do {
                     _ \<leftarrow> k_CommitMessages (fe_kafka fe) reader
                       (plain_msg (ki_Topic hasCommit) (ki_Offset hasCommit) [] \<lparr>km_Partition := ki_Partition hasCommit\<rparr>);
                     State_Monad.return l'
                   } else State_Monad.return l'))
        })
   }"

text \<open>\<^verbatim>\<open>go task.fetchNextOffsetMsg\<close> with a fresh context, and \<^verbatim>\<open>cancel\<close>, which belongs to the latest one.\<close>

definition spawn :: "listener \<Rightarrow> listener" where
  "spawn l = l\<lparr>fl_fetchers := fl_fetchers l @ [\<lparr>f_reader = fl_reader l, f_cancelled = False, f_pc = AwaitNext\<rparr>]\<rparr>"

definition cancel :: "listener \<Rightarrow> listener" where
  "cancel l = (case fl_fetchers l of [] \<Rightarrow> l | _ \<Rightarrow>
     l\<lparr>fl_fetchers := butlast (fl_fetchers l) @ [(last (fl_fetchers l))\<lparr>f_cancelled := True\<rparr>]\<rparr>)"

definition restart :: "'w fetch_env \<Rightarrow> listener \<Rightarrow> ('w, listener) state" where
  "restart fe l = do { l' \<leftarrow> initKafkaReader fe l; State_Monad.return (spawn (cancel l')) }"

section \<open>Events\<close>

text \<open>
  \<open>Open\<close> is an attempt at the first lock; \<open>Trigger i\<close> and \<open>Respond i\<close> are the two channels, with fetcher number \<open>i\<close> at the
  other end; \<open>Fetch i\<close> is the return of \<^verbatim>\<open>FetchMessage\<close>; \<open>Deliver\<close> is a turn of the loop labelled \<^verbatim>\<open>over\<close> and \<open>TimedOut\<close> its
  ticker; \<open>PushTo r\<close> puts the message into the channel that the random number \<open>r\<close> chooses; \<open>StopSignal\<close> comes when the
  topic went offline. What a client can see of an event is the list of messages fetched and pushed.
\<close>

datatype fetch_event = Open | Trigger nat | Fetch nat | Respond nat | Deliver | TimedOut | PushTo nat | StopSignal

datatype 'a outcome = Disabled | Panics | Next 'a

type_synonym 'w fetch_state = "'w \<times> listener \<times> push_channels"

definition set_fetcher :: "nat \<Rightarrow> fetcher_pc \<Rightarrow> listener \<Rightarrow> listener" where
  "set_fetcher i pc l = l\<lparr>fl_fetchers := (fl_fetchers l)[i := (fl_fetchers l ! i)\<lparr>f_pc := pc\<rparr>]\<rparr>"

definition set_pc :: "listen_pc \<Rightarrow> listener \<Rightarrow> listener" where
  "set_pc pc l = l\<lparr>fl_pc := pc\<rparr>"

definition Open_step :: "'w fetch_env \<Rightarrow> 'w \<Rightarrow> listener \<Rightarrow> ('w \<times> listener) outcome" where
  "Open_step fe w l =
     (if fl_pc l = Opening then
        (case run_state (Acquire (fe_redis fe) (fl_lock l)) w of
           ((lock, _), w1) \<Rightarrow>
             if \<not> lock then Next (w1, l)
             else (case run_state (initKafkaReader fe l) w1 of
               (l1, w2) \<Rightarrow> (case run_state (Release (fe_redis fe) (fl_lock l)) w2 of
                 (_, w3) \<Rightarrow> Next (w3, set_pc (Triggering 1) (spawn l1)))))
      else Disabled)"

text \<open>A fetcher that is told to go on and whose context was cancelled returns instead.\<close>

definition Trigger_step :: "nat \<Rightarrow> listener \<Rightarrow> listener outcome" where
  "Trigger_step i l =
     (case fl_pc l of
        Triggering (Suc n) \<Rightarrow>
          if i < length (fl_fetchers l) \<and> f_pc (fl_fetchers l ! i) = AwaitNext
          then Next (set_pc (if n = 0 then AwaitResp else Triggering n)
                 (set_fetcher i (if f_cancelled (fl_fetchers l ! i) then Returned else Fetching) l))
          else Disabled
      | _ \<Rightarrow> Disabled)"

text \<open>
  After the fetch the goroutine looks whether the response channel is closed. If another fetcher is just sending its
  response, the look receives it, and both responses are lost.
\<close>

fun is_offering :: "fetcher_pc \<Rightarrow> bool" where
  "is_offering (Offering r) = True"
| "is_offering pc = False"

definition other_offering :: "nat \<Rightarrow> listener \<Rightarrow> nat option" where
  "other_offering i l = List.find (\<lambda>j. j \<noteq> i \<and> is_offering (f_pc (fl_fetchers l ! j))) [0..<length (fl_fetchers l)]"

definition Fetch_step :: "'w fetch_env \<Rightarrow> nat \<Rightarrow> 'w \<Rightarrow> listener \<Rightarrow> ('w \<times> listener \<times> KafkaMessage list) outcome" where
  "Fetch_step fe i w l =
     (if i < length (fl_fetchers l) \<and> f_pc (fl_fetchers l ! i) = Fetching then
        (case f_reader (fl_fetchers l ! i) of
           None \<Rightarrow> Panics
         | Some reader \<Rightarrow>
             (case run_state (k_FetchMessage (fe_kafka fe) reader) w of
                (resp, w') \<Rightarrow> Next (w',
                  if fl_pc l = Quit then set_fetcher i Returned l
                  else (case other_offering i l of
                    Some j \<Rightarrow> set_fetcher j AwaitNext (set_fetcher i AwaitNext l)
                  | None \<Rightarrow> set_fetcher i (Offering resp) l),
                  case resp of Inl _ \<Rightarrow> [] | Inr msg \<Rightarrow> [msg])))
      else Disabled)"

text \<open>An error makes the listener open a new reader and start a new fetcher; the old one is told to end.\<close>

definition Respond_step :: "'w fetch_env \<Rightarrow> nat \<Rightarrow> 'w \<Rightarrow> listener \<Rightarrow> ('w \<times> listener) outcome" where
  "Respond_step fe i w l =
     (if fl_pc l = AwaitResp \<and> i < length (fl_fetchers l) then
        (case f_pc (fl_fetchers l ! i) of
           Offering (Inr msg) \<Rightarrow> Next (w, set_pc (Delivering msg) (set_fetcher i AwaitNext l))
         | Offering (Inl _) \<Rightarrow>
             (case run_state (restart fe (set_fetcher i AwaitNext l)) w of (l', w') \<Rightarrow> Next (w', set_pc (Triggering 1) l'))
         | _ \<Rightarrow> Disabled)
      else Disabled)"

text \<open>The message is pushed once the lock is free; the lock is left for the connect layer to release.\<close>

definition Deliver_step :: "'w fetch_env \<Rightarrow> 'w \<Rightarrow> listener \<Rightarrow> ('w \<times> listener) outcome" where
  "Deliver_step fe w l =
     (case fl_pc l of
        Delivering msg \<Rightarrow>
          (case run_state (Acquire (fe_redis fe) (fl_lock l)) w of
             ((lock, _), w') \<Rightarrow> Next (w', if lock then set_pc (Pushing msg) l else l))
      | _ \<Rightarrow> Disabled)"

definition PushTo_step :: "nat \<Rightarrow> listener \<Rightarrow> push_channels \<Rightarrow> (listener \<times> push_channels \<times> KafkaMessage list) outcome" where
  "PushTo_step r l pc =
     (case fl_pc l of
        Pushing msg \<Rightarrow>
          (case task_Push r msg pc of
             None \<Rightarrow> Disabled
           | Some pc' \<Rightarrow> Next (set_pc (Triggering 1) (l\<lparr>fl_curOffset := km_Offset msg\<rparr>), pc', [msg]))
      | _ \<Rightarrow> Disabled)"

text \<open>After thirty seconds without the lock the message is dropped; if one was pushed before, the reader starts again.\<close>

definition TimedOut_step :: "'w fetch_env \<Rightarrow> 'w \<Rightarrow> listener \<Rightarrow> ('w \<times> listener) outcome" where
  "TimedOut_step fe w l =
     (case fl_pc l of
        Delivering msg \<Rightarrow>
          if fl_curOffset l > 0
          then (case run_state (restart fe l) w of (l', w') \<Rightarrow> Next (w', set_pc (Triggering 2) l'))
          else Next (w, set_pc (Triggering 1) l)
      | _ \<Rightarrow> Disabled)"

text \<open>
  The end: the lock is released, the context cancelled and both channels closed, which panics in a fetcher that is sending
  its response and ends the waiting ones; then the reader is closed.
\<close>

definition end_waiting :: "fetcher \<Rightarrow> fetcher" where
  "end_waiting f = (if f_pc f = AwaitNext then f\<lparr>f_pc := Returned\<rparr> else f)"

definition StopSignal_step :: "'w fetch_env \<Rightarrow> 'w \<Rightarrow> listener \<Rightarrow> ('w \<times> listener) outcome" where
  "StopSignal_step fe w l =
     (if fl_pc l = AwaitResp then
        (case run_state (Release (fe_redis fe) (fl_lock l)) w of
           (_, w1) \<Rightarrow>
             if list_ex (\<lambda>f. is_offering (f_pc f)) (fl_fetchers l) then Panics
             else (let l1 = cancel l; l2 = set_pc Quit (l1\<lparr>fl_fetchers := map end_waiting (fl_fetchers l1)\<rparr>)
                   in case fl_reader l of
                        None \<Rightarrow> Panics
                      | Some reader \<Rightarrow> (case run_state (fe_CloseReader fe reader) w1 of (_, w2) \<Rightarrow> Next (w2, l2))))
      else Disabled)"

text \<open>One event, with the messages it fetched and those it pushed.\<close>

fun quiet :: "push_channels \<Rightarrow> ('w \<times> listener) outcome \<Rightarrow> ('w fetch_state \<times> KafkaMessage list \<times> KafkaMessage list) outcome" where
  "quiet pc Disabled = Disabled"
| "quiet pc Panics = Panics"
| "quiet pc (Next (w, l)) = Next ((w, l, pc), [], [])"

fun fetch_step :: "'w fetch_env \<Rightarrow> fetch_event \<Rightarrow> 'w fetch_state \<Rightarrow> ('w fetch_state \<times> KafkaMessage list \<times> KafkaMessage list) outcome" where
  "fetch_step fe Open (w, l, pc) = quiet pc (Open_step fe w l)"
| "fetch_step fe (Trigger i) (w, l, pc) =
     (case Trigger_step i l of Disabled \<Rightarrow> Disabled | Panics \<Rightarrow> Panics | Next l' \<Rightarrow> Next ((w, l', pc), [], []))"
| "fetch_step fe (Fetch i) (w, l, pc) =
     (case Fetch_step fe i w l of Disabled \<Rightarrow> Disabled | Panics \<Rightarrow> Panics | Next (w', l', ms) \<Rightarrow> Next ((w', l', pc), ms, []))"
| "fetch_step fe (Respond i) (w, l, pc) = quiet pc (Respond_step fe i w l)"
| "fetch_step fe Deliver (w, l, pc) = quiet pc (Deliver_step fe w l)"
| "fetch_step fe (PushTo r) (w, l, pc) =
     (case PushTo_step r l pc of Disabled \<Rightarrow> Disabled | Panics \<Rightarrow> Panics | Next (l', pc', ms) \<Rightarrow> Next ((w, l', pc'), [], ms))"
| "fetch_step fe TimedOut (w, l, pc) = quiet pc (TimedOut_step fe w l)"
| "fetch_step fe StopSignal (w, l, pc) = quiet pc (StopSignal_step fe w l)"

end
