(* ===== verification/Delivery.thy ===== *)
theory Delivery
  imports Fetch "HOL-Library.Sublist"
begin

text \<open>
  What a listener does with the messages of its topic: it pushes them in the order in which it fetched them, one at a time
  (\<open>pushed_in_order\<close>), each only after the lock of the topic was free (\<open>push_takes_lock\<close>). A failed fetch can stop it for
  good (\<open>error_restart_stalls\<close>).
\<close>

section \<open>Runs\<close>

text \<open>
  The runs of a listener with the messages fetched and pushed so far. Between its events the rest of the system may do what it
  likes with the world and the channels; \<open>b\<close> says whether the ticker of thirty seconds fires at all.
\<close>

inductive fetch_run :: "'w fetch_env \<Rightarrow> bool \<Rightarrow> 'w fetch_state \<Rightarrow> KafkaMessage list \<Rightarrow> KafkaMessage list \<Rightarrow> bool" for fe b where
  run_start: "fetchMsgFromTopic fe ty objId topic = Some l \<Longrightarrow> fetch_run fe b (w, l, pc) [] []"
| run_step: "fetch_run fe b s F P \<Longrightarrow> fetch_step fe e s = Next (s', f, p) \<Longrightarrow> (e = TimedOut \<Longrightarrow> b) \<Longrightarrow> fetch_run fe b s' (F @ f) (P @ p)"
| run_others: "fetch_run fe b (w, l, pc) F P \<Longrightarrow> fetch_run fe b (w', l, pc') F P"

fun pc_flight :: "listen_pc \<Rightarrow> KafkaMessage list" where
  "pc_flight (Delivering m) = [m]"
| "pc_flight (Pushing m) = [m]"
| "pc_flight _ = []"

fun fetcher_flight :: "fetcher_pc \<Rightarrow> KafkaMessage list" where
  "fetcher_flight (Offering (Inr m)) = [m]"
| "fetcher_flight _ = []"

text \<open>The messages that were fetched and not pushed yet.\<close>

definition in_flight :: "listener \<Rightarrow> KafkaMessage list" where
  "in_flight l = pc_flight (fl_pc l) @ concat (map (fetcher_flight \<circ> f_pc) (fl_fetchers l))"

text \<open>
  All fetchers but the latest were told to end and wait for it or have ended; the latest is the only one that may be at
  work, and waits while a message is delivered.
\<close>

definition idle :: "fetcher \<Rightarrow> bool" where
  "idle f \<longleftrightarrow> f_pc f = AwaitNext \<or> f_pc f = Returned"

definition fetchers_ok :: "listener \<Rightarrow> bool" where
  "fetchers_ok l \<longleftrightarrow>
     (if fl_pc l = Opening then fl_fetchers l = []
      else if fl_pc l = Quit then \<forall>f \<in> set (butlast (fl_fetchers l)). idle f
      else \<exists>fs f. fl_fetchers l = fs @ [f] \<and> (\<forall>g \<in> set fs. f_cancelled g \<and> idle g) \<and> \<not> f_cancelled f \<and> f_pc f \<noteq> Returned
        \<and> (pc_flight (fl_pc l) \<noteq> [] \<longrightarrow> f_pc f = AwaitNext))"

lemma idle_flight: "idle f \<Longrightarrow> fetcher_flight (f_pc f) = []"
  by (auto simp: idle_def)

lemma idle_flights: "\<forall>g \<in> set fs. idle g \<Longrightarrow> concat (map (fetcher_flight \<circ> f_pc) fs) = []"
  by (simp add: idle_flight)

text \<open>The usual form of a listener that has opened its reader.\<close>

lemma fetchers_okE:
  assumes "fetchers_ok l" and "fl_pc l \<noteq> Opening" and "fl_pc l \<noteq> Quit"
  obtains fs f where "fl_fetchers l = fs @ [f]" "\<forall>g \<in> set fs. f_cancelled g \<and> idle g" "\<not> f_cancelled f" "f_pc f \<noteq> Returned"
    "pc_flight (fl_pc l) \<noteq> [] \<longrightarrow> f_pc f = AwaitNext" "in_flight l = pc_flight (fl_pc l) @ fetcher_flight (f_pc f)"
  using assms idle_flights by (fastforce simp: fetchers_ok_def in_flight_def)

lemma initKafkaReader_keeps:
  assumes "run_state (initKafkaReader fe l) w = (l', w')"
  shows "fl_fetchers l' = fl_fetchers l \<and> fl_pc l' = fl_pc l \<and> fl_curOffset l' = fl_curOffset l \<and> fl_topic l' = fl_topic l \<and> fl_lock l' = fl_lock l"
  using assms by (auto simp: initKafkaReader_def Let_def split: prod.splits sum.splits if_splits)

lemma cancel_snoc: "fl_fetchers l = fs @ [f] \<Longrightarrow> cancel l = l\<lparr>fl_fetchers := fs @ [f\<lparr>f_cancelled := True\<rparr>]\<rparr>"
  by (cases fs) (auto simp: cancel_def)

lemma restart_fetchers:
  assumes "run_state (restart fe l) w = (l', w')" and "fl_fetchers l = fs @ [f]"
  shows "\<exists>r. fl_fetchers l' = fs @ [f\<lparr>f_cancelled := True\<rparr>, \<lparr>f_reader = r, f_cancelled = False, f_pc = AwaitNext\<rparr>]"
proof -
  obtain l1 w1 where l1: "run_state (initKafkaReader fe l) w = (l1, w1)"
    by (metis surj_pair)
  then have "fl_fetchers l1 = fs @ [f]" "l' = spawn (cancel l1)"
    using assms initKafkaReader_keeps [OF l1] by (simp_all add: restart_def)
  then show ?thesis
    by (simp add: cancel_snoc spawn_def)
qed

lemma set_fetcher_snoc:
  assumes "fl_fetchers l = fs @ [f]" and "i < length (fl_fetchers l)" and "\<forall>g \<in> set fs. idle g" and "\<not> idle (fl_fetchers l ! i)"
  shows "i = length fs \<and> fl_fetchers l ! i = f \<and> fl_fetchers (set_fetcher i pc l) = fs @ [f\<lparr>f_pc := pc\<rparr>] \<and> other_offering i l = None"
proof -
  have i: "i = length fs"
    using assms by (metis length_append_singleton less_Suc_eq nth_append nth_mem)
  have "\<not> is_offering (f_pc g)" if "g \<in> set fs" for g
    using assms(3) that by (auto simp: idle_def)
  then have "other_offering i l = None"
    by (auto simp: other_offering_def find_None_iff assms(1) i nth_append)
  then show ?thesis
    using i by (simp add: assms(1) set_fetcher_def list_update_append)
qed

lemma fetchers_okI:
  assumes "fl_fetchers l = fs @ [f]" and "\<forall>g \<in> set fs. f_cancelled g \<and> idle g" and "\<not> f_cancelled f" and "f_pc f \<noteq> Returned"
    and "pc_flight (fl_pc l) \<noteq> [] \<Longrightarrow> f_pc f = AwaitNext" and "fl_pc l \<noteq> Opening" and "fl_pc l \<noteq> Quit"
  shows "fetchers_ok l" and "in_flight l = pc_flight (fl_pc l) @ fetcher_flight (f_pc f)"
  using assms idle_flights [of fs] by (auto simp: fetchers_ok_def in_flight_def)

text \<open>What an event does to the invariant and to the messages in flight.\<close>

definition flows :: "listener \<Rightarrow> KafkaMessage list \<Rightarrow> KafkaMessage list \<Rightarrow> listener \<Rightarrow> bool" where
  "flows l f p l' \<longleftrightarrow> fetchers_ok l' \<and> in_flight l @ f = p @ in_flight l'"

lemma Open_flows: "fetchers_ok l \<Longrightarrow> Open_step fe w l = Next (w', l') \<Longrightarrow> flows l [] [] l'"
  by (auto simp: Open_step_def fetchers_ok_def flows_def in_flight_def set_pc_def spawn_def split: if_splits prod.splits
      dest: initKafkaReader_keeps)

lemma Trigger_flows:
  assumes "fetchers_ok l" and "Trigger_step i l = Next l'"
  shows "flows l [] [] l'"
proof -
  obtain n where pc: "fl_pc l = Triggering (Suc n)" and i: "i < length (fl_fetchers l)" "f_pc (fl_fetchers l ! i) = AwaitNext"
    and l': "l' = set_pc (if n = 0 then AwaitResp else Triggering n)
      (set_fetcher i (if f_cancelled (fl_fetchers l ! i) then Returned else Fetching) l)"
    using assms(2) by (auto simp: Trigger_step_def split: listen_pc.splits nat.splits if_splits)
  obtain fs f where f: "fl_fetchers l = fs @ [f]" "\<forall>g \<in> set fs. f_cancelled g \<and> idle g" "\<not> f_cancelled f" "f_pc f \<noteq> Returned"
    "in_flight l = fetcher_flight (f_pc f)"
    using assms(1) pc by (elim fetchers_okE) simp_all
  show ?thesis
  proof (cases "i < length fs")
    case True
    then have "f_cancelled (fs ! i)"
      using f(2) by simp
    then have l'f: "fl_fetchers l' = fs[i := (fs ! i)\<lparr>f_pc := Returned\<rparr>] @ [f]"
      using True by (simp add: l' f(1) set_pc_def set_fetcher_def nth_append list_update_append)
    have "\<forall>g \<in> set (fs[i := (fs ! i)\<lparr>f_pc := Returned\<rparr>]). f_cancelled g \<and> idle g"
      using f(2) True by (auto simp: idle_def dest!: subsetD [OF set_update_subset_insert])
    then show ?thesis
      using fetchers_okI [OF l'f _ f(3,4)] f(5) by (simp add: flows_def l' set_pc_def set_fetcher_def)
  next
    case False
    then have "i = length fs"
      using i(1) f(1) by simp
    then have l'f: "fl_fetchers l' = fs @ [f\<lparr>f_pc := Fetching\<rparr>]"
      using f(3) by (simp add: l' f(1) set_pc_def set_fetcher_def)
    then show ?thesis
      using fetchers_okI [OF l'f f(2)] f i \<open>i = length fs\<close> by (simp add: flows_def l' set_pc_def set_fetcher_def)
  qed
qed

lemma Fetch_flows:
  assumes "fetchers_ok l" and "Fetch_step fe i w l = Next (w', l', ms)" and "fl_pc l \<noteq> Quit"
  shows "flows l ms [] l'"
proof -
  obtain resp where i: "i < length (fl_fetchers l)" "f_pc (fl_fetchers l ! i) = Fetching"
    and l': "l' = (case other_offering i l of Some j \<Rightarrow> set_fetcher j AwaitNext (set_fetcher i AwaitNext l) | None \<Rightarrow> set_fetcher i (Offering resp) l)"
    and ms: "ms = (case resp of Inl _ \<Rightarrow> [] | Inr msg \<Rightarrow> [msg])"
    using assms(2,3) by (auto simp: Fetch_step_def split: if_splits option.splits prod.splits)
  have "fl_pc l \<noteq> Opening"
    using assms(1) i(1) by (auto simp: fetchers_ok_def)
  then obtain fs f where f: "fl_fetchers l = fs @ [f]" "\<forall>g \<in> set fs. f_cancelled g \<and> idle g" "\<not> f_cancelled f" "f_pc f \<noteq> Returned"
    "pc_flight (fl_pc l) \<noteq> [] \<longrightarrow> f_pc f = AwaitNext" "in_flight l = pc_flight (fl_pc l) @ fetcher_flight (f_pc f)"
    by (rule fetchers_okE [OF assms(1) _ assms(3)])
  have u: "fl_fetchers l ! i = f" "fl_fetchers (set_fetcher i pc l) = fs @ [f\<lparr>f_pc := pc\<rparr>]" "other_offering i l = None" for pc
    using set_fetcher_snoc [OF f(1) i(1), of pc] f(2) i(2) by (auto simp: idle_def)
  have l'f: "fl_fetchers l' = fs @ [f\<lparr>f_pc := Offering resp\<rparr>]" "fl_pc l' = fl_pc l"
    using u by (simp_all add: l' set_fetcher_def)
  have "pc_flight (fl_pc l) = []"
    using f(5) i(2) u(1) by auto
  then show ?thesis
    using fetchers_okI [OF l'f(1) f(2)] f(3,6) \<open>fl_pc l \<noteq> Opening\<close> assms(3) i(2) u(1)
    by (simp add: flows_def l'f(2) ms split: sum.splits)
qed

lemma Respond_flows:
  assumes "fetchers_ok l" and "Respond_step fe i w l = Next (w', l')"
  shows "flows l [] [] l'"
proof -
  obtain resp where i: "i < length (fl_fetchers l)" "f_pc (fl_fetchers l ! i) = Offering resp" and pc: "fl_pc l = AwaitResp"
    using assms(2) by (auto simp: Respond_step_def split: if_splits fetcher_pc.splits)
  obtain fs f where f: "fl_fetchers l = fs @ [f]" "\<forall>g \<in> set fs. f_cancelled g \<and> idle g" "\<not> f_cancelled f"
    "in_flight l = fetcher_flight (f_pc f)"
    using assms(1) pc by (elim fetchers_okE) simp_all
  have u: "fl_fetchers l ! i = f" "fl_fetchers (set_fetcher i AwaitNext l) = fs @ [f\<lparr>f_pc := AwaitNext\<rparr>]"
    using set_fetcher_snoc [OF f(1) i(1), of AwaitNext] f(2) i(2) by (auto simp: idle_def)
  show ?thesis
  proof (cases resp)
    case (Inr msg)
    then have l': "l' = set_pc (Delivering msg) (set_fetcher i AwaitNext l)"
      using assms(2) i pc by (simp add: Respond_step_def)
    then have l'f: "fl_fetchers l' = fs @ [f\<lparr>f_pc := AwaitNext\<rparr>]" "fl_pc l' = Delivering msg"
      using u by (simp_all add: set_pc_def)
    show ?thesis
      using fetchers_okI [OF l'f(1) f(2)] f(3,4) l'f(2) i(2) u(1) Inr by (simp add: flows_def)
  next
    case (Inl e)
    then obtain l1 where l1: "run_state (restart fe (set_fetcher i AwaitNext l)) w = (l1, w')" and l': "l' = set_pc (Triggering 1) l1"
      using assms(2) i pc by (auto simp: Respond_step_def split: prod.splits)
    obtain r where "fl_fetchers l1 = fs @ [f\<lparr>f_pc := AwaitNext, f_cancelled := True\<rparr>, \<lparr>f_reader = r, f_cancelled = False, f_pc = AwaitNext\<rparr>]"
      using restart_fetchers [OF l1 u(2)] by auto
    then have l'f: "fl_fetchers l' = (fs @ [f\<lparr>f_pc := AwaitNext, f_cancelled := True\<rparr>]) @ [\<lparr>f_reader = r, f_cancelled = False, f_pc = AwaitNext\<rparr>]"
      "fl_pc l' = Triggering 1"
      by (simp_all add: l' set_pc_def)
    show ?thesis
      using fetchers_okI [OF l'f(1)] f(2,4) l'f(2) i(2) u(1) Inl by (simp add: flows_def idle_def)
  qed
qed

lemma Deliver_flows:
  assumes "fetchers_ok l" and "Deliver_step fe w l = Next (w', l')"
  shows "flows l [] [] l'"
proof -
  obtain msg where pc: "fl_pc l = Delivering msg" and l': "l' = set_pc (Pushing msg) l \<or> l' = l"
    using assms(2) by (auto simp: Deliver_step_def split: listen_pc.splits prod.splits if_splits)
  then show ?thesis
    using assms(1) by (auto simp: flows_def fetchers_ok_def in_flight_def set_pc_def)
qed

lemma PushTo_flows:
  assumes "fetchers_ok l" and "PushTo_step r l pc = Next (l', pc', ms)"
  shows "flows l [] ms l'"
  using assms by (auto simp: PushTo_step_def flows_def fetchers_ok_def in_flight_def set_pc_def split: listen_pc.splits option.splits)

text \<open>A timeout loses the message that was to be delivered, the end of the listener what its fetcher brings later.\<close>

lemma TimedOut_drops:
  assumes "fetchers_ok l" and "TimedOut_step fe w l = Next (w', l')"
  shows "fetchers_ok l' \<and> in_flight l' = []"
proof -
  obtain msg where pc: "fl_pc l = Delivering msg"
    using assms(2) by (auto simp: TimedOut_step_def split: listen_pc.splits)
  obtain fs f where f: "fl_fetchers l = fs @ [f]" "\<forall>g \<in> set fs. f_cancelled g \<and> idle g" "\<not> f_cancelled f" "f_pc f = AwaitNext"
    using assms(1) pc by (elim fetchers_okE) simp_all
  show ?thesis
  proof (cases "fl_curOffset l > 0")
    case True
    then obtain l1 where l1: "run_state (restart fe l) w = (l1, w')" and l': "l' = set_pc (Triggering 2) l1"
      using assms(2) pc by (auto simp: TimedOut_step_def split: prod.splits)
    obtain r where "fl_fetchers l1 = fs @ [f\<lparr>f_cancelled := True\<rparr>, \<lparr>f_reader = r, f_cancelled = False, f_pc = AwaitNext\<rparr>]"
      using restart_fetchers [OF l1 f(1)] by auto
    then have l'f: "fl_fetchers l' = (fs @ [f\<lparr>f_cancelled := True\<rparr>]) @ [\<lparr>f_reader = r, f_cancelled = False, f_pc = AwaitNext\<rparr>]"
      "fl_pc l' = Triggering 2"
      by (simp_all add: l' set_pc_def)
    show ?thesis
      using fetchers_okI [OF l'f(1)] f(2,4) l'f(2) by (simp add: idle_def)
  next
    case False
    then have l'f: "fl_fetchers l' = fs @ [f]" "fl_pc l' = Triggering 1"
      using assms(2) pc f(1) by (auto simp: TimedOut_step_def set_pc_def)
    show ?thesis
      using fetchers_okI [OF l'f(1) f(2,3)] f(4) l'f(2) by simp
  qed
qed

lemma StopSignal_drops:
  assumes "fetchers_ok l" and "StopSignal_step fe w l = Next (w', l')"
  shows "fetchers_ok l' \<and> fl_pc l' = Quit \<and> in_flight l' = []"
proof -
  have pc: "fl_pc l = AwaitResp" and no: "\<not> list_ex (\<lambda>f. is_offering (f_pc f)) (fl_fetchers l)"
    and l': "l' = set_pc Quit (l\<lparr>fl_fetchers := map end_waiting (fl_fetchers (cancel l))\<rparr>) \<or> l' = set_pc Quit ((cancel l)\<lparr>fl_fetchers := map end_waiting (fl_fetchers (cancel l))\<rparr>)"
    using assms(2) by (auto simp: StopSignal_step_def Let_def split: if_splits prod.splits option.splits)
  obtain fs f where f: "fl_fetchers l = fs @ [f]" "\<forall>g \<in> set fs. f_cancelled g \<and> idle g"
    using assms(1) pc by (elim fetchers_okE) simp_all
  have off: "fetcher_flight (f_pc g) = []" if "\<not> is_offering (f_pc g)" for g
    using that by (cases "f_pc g") auto
  have "fl_fetchers l' = map end_waiting fs @ [end_waiting (f\<lparr>f_cancelled := True\<rparr>)]" "fl_pc l' = Quit"
    using l' by (auto simp: set_pc_def cancel_snoc [OF f(1)])
  moreover have "idle (end_waiting g)" if "g \<in> set fs" for g
    using f(2) that by (auto simp: idle_def end_waiting_def)
  moreover have "\<not> is_offering (f_pc (end_waiting g))" if "g \<in> insert (f\<lparr>f_cancelled := True\<rparr>) (set fs)" for g
    using no that by (auto simp: f(1) end_waiting_def list_ex_iff)
  ultimately show ?thesis
    using off by (auto simp: fetchers_ok_def in_flight_def)
qed

lemma Fetch_after_quit:
  assumes "fetchers_ok l" and "Fetch_step fe i w l = Next (w', l', ms)" and "fl_pc l = Quit"
  shows "fetchers_ok l' \<and> fl_pc l' = Quit \<and> in_flight l' = in_flight l"
proof -
  have i: "i < length (fl_fetchers l)" "f_pc (fl_fetchers l ! i) = Fetching" and l': "l' = set_fetcher i Returned l"
    using assms(2,3) by (auto simp: Fetch_step_def split: if_splits option.splits prod.splits)
  let ?flight = "fetcher_flight \<circ> f_pc" and ?f = "(fl_fetchers l ! i)\<lparr>f_pc := Returned\<rparr>"
  have "map ?flight ((fl_fetchers l)[i := ?f]) = map ?flight (fl_fetchers l)"
    using i by (simp add: map_update list_update_same_conv)
  moreover have "idle g" if "g \<in> set (butlast ((fl_fetchers l)[i := ?f]))" for g
    using assms(1,3) i that set_update_subset_insert [of "butlast (fl_fetchers l)" i ?f]
    by (auto simp: fetchers_ok_def butlast_list_update idle_def split: if_splits)
  ultimately show ?thesis
    using assms(1,3) by (simp add: fetchers_ok_def in_flight_def l' set_fetcher_def)
qed

lemma quietE:
  assumes "quiet pc x = Next ((w', l', pc'), f, p)"
  obtains "x = Next (w', l')" "pc' = pc" "f = []" "p = []"
  using assms by (cases "(pc, x)" rule: quiet.cases) auto

definition drops :: "listener \<Rightarrow> KafkaMessage list \<Rightarrow> listener \<Rightarrow> bool" where
  "drops l p l' \<longleftrightarrow> fetchers_ok l' \<and> p = [] \<and> subseq (in_flight l') (in_flight l)"

lemma fetch_step_flows:
  assumes ok: "fetchers_ok l" and "fetch_step fe e (w, l, pc) = Next ((w', l', pc'), f, p)"
  shows "(flows l f p l' \<or> drops l p l' \<and> (e = TimedOut \<or> fl_pc l' = Quit)) \<and> (fl_pc l = Quit \<longrightarrow> fl_pc l' = Quit)"
proof (cases "fl_pc l = Quit")
  case True
  then obtain i where "Fetch_step fe i w l = Next (w', l', f)" "p = []"
    using assms(2) by (cases e) (auto simp: Open_step_def Trigger_step_def Respond_step_def Deliver_step_def PushTo_step_def
        TimedOut_step_def StopSignal_step_def split: outcome.splits)
  then show ?thesis
    using Fetch_after_quit [OF ok _ True, of fe i w w' l' f] by (simp add: drops_def)
next
  case False
  show ?thesis
  proof (cases e)
    case (Fetch i)
    then show ?thesis
      using assms(2) False Fetch_flows [OF ok _ False, of fe i w w' l' f] by (auto split: outcome.splits)
  qed (use assms(2) False in \<open>auto simp: drops_def elim!: quietE split: outcome.splits
         dest: Open_flows [OF ok] Trigger_flows [OF ok] Respond_flows [OF ok] Deliver_flows [OF ok] PushTo_flows [OF ok]
           TimedOut_drops [OF ok] StopSignal_drops [OF ok]\<close>)
qed

lemma subseq_flow: "subseq (P @ xs) F \<Longrightarrow> xs @ f = p @ ys \<Longrightarrow> subseq ((P @ p) @ ys) (F @ f)"
  by (metis append.assoc list_emb_append_mono subseq_order.order_refl)

lemma fetch_run_flows:
  "fetch_run fe b s F P \<Longrightarrow> fetchers_ok (fst (snd s)) \<and> subseq (P @ in_flight (fst (snd s))) F
     \<and> (\<not> b \<longrightarrow> fl_pc (fst (snd s)) = Quit \<or> F = P @ in_flight (fst (snd s)))"
proof (induction rule: fetch_run.induct)
  case (run_start ty objId topic l w pc)
  then show ?case
    by (auto simp: fetchMsgFromTopic_def fetchers_ok_def in_flight_def split: sum.splits)
next
  case (run_step s F P e s' f p)
  obtain w l pc w' l' pc' where s: "s = (w, l, pc)" "s' = (w', l', pc')"
    by (metis surj_pair)
  have ok: "fetchers_ok l" "subseq (P @ in_flight l) F" "\<not> b \<longrightarrow> fl_pc l = Quit \<or> F = P @ in_flight l"
    using run_step.IH by (simp_all add: s)
  have "(flows l f p l' \<or> drops l p l' \<and> (e = TimedOut \<or> fl_pc l' = Quit)) \<and> (fl_pc l = Quit \<longrightarrow> fl_pc l' = Quit)"
    using fetch_step_flows [OF ok(1)] run_step.hyps(2) by (simp add: s)
  then consider (flow) "flows l f p l'" "fl_pc l = Quit \<longrightarrow> fl_pc l' = Quit" | (drop) "drops l p l'" "e = TimedOut \<or> fl_pc l' = Quit"
    by blast
  then show ?case
  proof cases
    case flow
    then have eq: "fetchers_ok l'" "in_flight l @ f = p @ in_flight l'"
      by (simp_all add: flows_def)
    have "\<not> b \<longrightarrow> fl_pc l' = Quit \<or> F @ f = (P @ p) @ in_flight l'"
      using ok(3) flow(2) eq(2) by auto
    then show ?thesis
      using eq(1) subseq_flow [OF ok(2) eq(2)] by (simp add: s)
  next
    case drop
    then have "subseq ((P @ p) @ in_flight l') (F @ f)"
      using ok(2) by (metis append_Nil2 drops_def list_emb_append_mono list_emb_append2 subseq_order.order_refl subseq_order.trans)
    then show ?thesis
      using drop run_step.hyps(3) by (auto simp: s drops_def)
  qed
qed simp

text \<open>
  C3: whatever the goroutines of a listener do, the messages it pushes are among those it fetched, in the same order and none
  more often, and at most one message is fetched and not pushed. As long as the ticker does not fire and the topic is
  online, no message is lost: those fetched are those pushed and that one.
\<close>
theorem pushed_in_order:
  assumes "fetch_run fe b (w, l, pc) F P"
  shows "subseq P F \<and> length (in_flight l) \<le> 1 \<and> (\<not> b \<and> fl_pc l \<noteq> Quit \<longrightarrow> F = P @ in_flight l)"
proof -
  have ok: "fetchers_ok l" "subseq (P @ in_flight l) F" "\<not> b \<longrightarrow> fl_pc l = Quit \<or> F = P @ in_flight l"
    using fetch_run_flows [OF assms] by auto
  have le: "length (fetcher_flight x) \<le> 1" for x
    by (cases x rule: fetcher_flight.cases) auto
  have "length (in_flight l) \<le> 1"
  proof (cases "fl_pc l = Opening \<or> fl_pc l = Quit")
    case True
    then show ?thesis
      using ok(1) le idle_flights [of "butlast (fl_fetchers l)"]
      by (cases "fl_fetchers l" rule: rev_cases) (auto simp: fetchers_ok_def in_flight_def simp del: concat_eq_Nil_conv)
  next
    case False
    then show ?thesis
      using ok(1) le by (elim fetchers_okE) (cases "fl_pc l"; auto)+
  qed
  then show ?thesis
    using ok(2,3) by (auto intro: subseq_order.trans [of _ "P @ in_flight l"] list_emb_append2)
qed

section \<open>The lock\<close>

text \<open>
  C21: a listener gets to push a message only by taking the lock of its topic: nobody held it before, and it is held
  under the name of the topic afterwards, so the next message has to wait until the lock is released or has expired.
\<close>
theorem push_takes_lock:
  assumes "lock_server (fe_redis fe) view" and "fl_lock l = SetExpire 60 rl" "NewRedisLocker (fe_servers fe) (RedisLock topic) topic = Inr rl"
    and "fetch_step fe e (w, l, pc) = Next ((w', l', pc'), f, p)" and "fl_pc l' = Pushing msg" and "fl_pc l \<noteq> Pushing msg"
  shows "store view (fe_servers fe) w (RedisLock topic) = None \<and> store view (fe_servers fe) w' (RedisLock topic) = Some (RStr topic)"
proof -
  have "\<exists>x. run_state (Acquire (fe_redis fe) (fl_lock l)) w = ((True, x), w')"
    using assms(4-6) initKafkaReader_keeps [of fe l]
    by (cases e) (auto elim!: quietE simp: Open_step_def Trigger_step_def Respond_step_def Deliver_step_def PushTo_step_def Fetch_step_def
        TimedOut_step_def StopSignal_step_def set_pc_def set_fetcher_def Let_def
        split: outcome.splits if_splits prod.splits listen_pc.splits nat.splits fetcher_pc.splits sum.splits option.splits)
  then obtain x where "run_state (Acquire (fe_redis fe) (SetExpire 60 rl)) w = ((True, x), w')"
    using assms(2) by auto
  then show ?thesis
    using lock_server.Acquire_True [OF assms(1)] assms(3)
    by (fastforce simp: NewRedisLocker_def SetExpire_def store_def split: sum.splits)
qed

section \<open>A failed fetch\<close>

text \<open>Nobody is left to fetch.\<close>

definition stalled :: "listener \<Rightarrow> bool" where
  "stalled l \<longleftrightarrow> fl_pc l = AwaitResp \<and> (\<forall>f \<in> set (fl_fetchers l). idle f)"

lemma stalled_step:
  assumes "stalled l" and "fetch_step fe e (w, l, pc) = Next (s, f, p)"
  shows "e = StopSignal"
proof -
  have idle: "f_pc (fl_fetchers l ! i) \<noteq> Fetching" "f_pc (fl_fetchers l ! i) \<noteq> Offering r" if "i < length (fl_fetchers l)" for i r
    using assms(1) nth_mem [OF that] by (auto simp: stalled_def idle_def)
  show ?thesis
    using assms by (cases e) (auto simp: idle stalled_def Open_step_def Trigger_step_def Respond_step_def Deliver_step_def PushTo_step_def
        Fetch_step_def TimedOut_step_def split: if_splits fetcher_pc.splits)
qed

text \<open>
  C40: after a failed fetch both the old fetcher and the new one wait to be told to go on, and the listener tells one of them. If
  that is the old one, which returns, the listener waits for ever: no event is possible any more until the topic goes
  offline, whatever arrives in it.
\<close>
theorem error_restart_stalls:
  assumes "fetch_run fe b (w, l, pc) F P" and "fl_pc l = AwaitResp" and "i < length (fl_fetchers l)"
    and "f_pc (fl_fetchers l ! i) = Offering (Inl err)"
  shows "\<exists>w1 l1 l2. fetch_step fe (Respond i) (w, l, pc) = Next ((w1, l1, pc), [], [])
    \<and> fetch_step fe (Trigger i) (w1, l1, pc) = Next ((w1, l2, pc), [], [])
    \<and> (\<forall>e w' pc' s f p. fetch_step fe e (w', l2, pc') = Next (s, f, p) \<longrightarrow> e = StopSignal)"
proof -
  have "fetchers_ok l"
    using fetch_run_flows [OF assms(1)] by simp
  then obtain fs f where f: "fl_fetchers l = fs @ [f]" "\<forall>g \<in> set fs. f_cancelled g \<and> idle g"
    using assms(2) by (elim fetchers_okE) simp_all
  have "\<not> idle (fl_fetchers l ! i)"
    using assms(4) by (simp add: idle_def)
  then have u: "i = length fs" "fl_fetchers (set_fetcher i AwaitNext l) = fs @ [f\<lparr>f_pc := AwaitNext\<rparr>]"
    using set_fetcher_snoc [OF f(1) assms(3), of AwaitNext] f(2) by auto
  obtain l' w1 where l': "run_state (restart fe (set_fetcher i AwaitNext l)) w = (l', w1)"
    by (metis surj_pair)
  obtain r where r: "fl_fetchers l' = fs @ [f\<lparr>f_pc := AwaitNext, f_cancelled := True\<rparr>, \<lparr>f_reader = r, f_cancelled = False, f_pc = AwaitNext\<rparr>]"
    using restart_fetchers [OF l' u(2)] by auto
  let ?l2 = "set_pc AwaitResp (set_fetcher i Returned (set_pc (Triggering 1) l'))"
  have st: "stalled ?l2"
    using r u(1) f(2) by (auto simp: stalled_def set_pc_def set_fetcher_def idle_def list_update_append nth_append)
  have "fetch_step fe (Respond i) (w, l, pc) = Next ((w1, set_pc (Triggering 1) l', pc), [], [])"
    using assms(2-4) l' by (simp add: Respond_step_def)
  moreover have "fetch_step fe (Trigger i) (w1, set_pc (Triggering 1) l', pc) = Next ((w1, ?l2, pc), [], [])"
    using r u(1) by (simp add: Trigger_step_def set_pc_def nth_append)
  moreover have "e = StopSignal" if "fetch_step fe e (w', ?l2, pc') = Next (s, f, p)" for e w' pc' s f p
    using st that by (rule stalled_step)
  ultimately show ?thesis
    by blast
qed

section \<open>A listener in memory\<close>

text \<open>A broker that answers every fetch in the same way, and an empty Redis.\<close>

definition ref_fetch :: "(string + KafkaMessage) \<Rightarrow> rstore fetch_env" where
  "ref_fetch resp = \<lparr>fe_redis = mem_redis (\<lambda>w. w) (\<lambda>s w. s), fe_servers = env1,
     fe_kafka = \<lparr>k_Now = State_Monad.return 0, k_DialLeader = (\<lambda>a t p. State_Monad.return (Inr 0)),
       k_SetWriteDeadline = (\<lambda>c d. State_Monad.return None), k_WriteMessages = (\<lambda>c v. State_Monad.return None),
       k_Close = (\<lambda>c. State_Monad.return None), k_NewReader = (\<lambda>bs t g mn mx. State_Monad.return 0),
       k_FetchMessage = (\<lambda>r. State_Monad.return resp), k_CommitMessages = (\<lambda>r m. State_Monad.return None)\<rparr>,
     fe_address = ''h'', fe_CloseReader = (\<lambda>r. State_Monad.return None)\<rparr>"

definition lock7 :: RedisLockObj where
  "lock7 = \<lparr>rl_client = ''h:1'', rl_timout = 0, rl_key = RedisLock ''t'', rl_value = ''t''\<rparr>"

text \<open>The listener of a group, with one fetcher.\<close>

definition ears :: "fetcher_pc \<Rightarrow> listen_pc \<Rightarrow> listener" where
  "ears fpc pc = \<lparr>fl_topic = ''t'', fl_suffix = consumer_suffix ''group'' 7, fl_lock = SetExpire 60 lock7, fl_reader = Some 0,
     fl_hasCommit = zero_KafkaMsgInfo, fl_curOffset = 0, fl_fetchers = [\<lparr>f_reader = Some 0, f_cancelled = False, f_pc = fpc\<rparr>], fl_pc = pc\<rparr>"

abbreviation no_keys :: rstore where
  "no_keys \<equiv> (\<lambda>a k. None)"

lemma ref_fetch_lock: "NewRedisLocker (fe_servers (ref_fetch resp)) (RedisLock ''t'') ''t'' = Inr lock7"
  by (simp add: NewRedisLocker_def ref_fetch_def env1_routes lock7_def)

lemma no_offset: "fst (Unmarshal dec_KafkaMsgInfo [] zero_KafkaMsgInfo) = zero_KafkaMsgInfo" "ki_Offset zero_KafkaMsgInfo = 0"
  by (simp add: Unmarshal_def zero_KafkaMsgInfo_def, code_simp) (simp add: zero_KafkaMsgInfo_def)

lemma opens: "fetch_run (ref_fetch resp) b (no_keys, ears AwaitNext (Triggering 1), pc) [] []"
proof -
  obtain l where l: "fetchMsgFromTopic (ref_fetch resp) ''group'' 7 ''t'' = Some l"
    by (simp add: fetchMsgFromTopic_def ref_fetch_lock)
  then have l_eq: "l = (ears AwaitNext (Triggering 1))\<lparr>fl_reader := None, fl_fetchers := [], fl_pc := Opening\<rparr>"
    by (auto simp: fetchMsgFromTopic_def ref_fetch_lock ears_def)
  have "\<exists>w'. fetch_step (ref_fetch resp) Open (no_keys, l, pc) = Next ((w', ears AwaitNext (Triggering 1), pc), [], [])"
    by (simp add: l_eq Open_step_def ears_def lock7_def SetExpire_def Acquire_mem Release_mem initKafkaReader_def GetConsumeReader_def
        getConsumerReader_def RedisGetString_def with_client_def env1_routes ref_fetch_def mem_cmds mem_read_def nil_as_def
        upd_store_def no_offset spawn_def set_pc_def Let_def RedisLock_def KafkaTopicOffset_def)
  then obtain w' where "fetch_step (ref_fetch resp) Open (no_keys, l, pc) = Next ((w', ears AwaitNext (Triggering 1), pc), [], [])"
    by blast
  then have "fetch_run (ref_fetch resp) b (w', ears AwaitNext (Triggering 1), pc) [] []"
    using run_step [OF run_start [OF l]] by (metis append_Nil2 fetch_event.distinct(9))
  then show ?thesis
    by (rule run_others)
qed

lemma fetches:
  "fetch_run (ref_fetch resp) b (no_keys, ears (Offering resp) AwaitResp, pc) (case resp of Inl _ \<Rightarrow> [] | Inr m \<Rightarrow> [m]) []"
proof -
  have "fetch_step (ref_fetch resp) (Trigger 0) (no_keys, ears AwaitNext (Triggering 1), pc) = Next ((no_keys, ears Fetching AwaitResp, pc), [], [])"
    by (simp add: Trigger_step_def ears_def set_pc_def set_fetcher_def)
  then have run: "fetch_run (ref_fetch resp) b (no_keys, ears Fetching AwaitResp, pc) [] []"
    using run_step [OF opens] by fastforce
  have "fetch_step (ref_fetch resp) (Fetch 0) (no_keys, ears Fetching AwaitResp, pc)
      = Next ((no_keys, ears (Offering resp) AwaitResp, pc), case resp of Inl _ \<Rightarrow> [] | Inr m \<Rightarrow> [m], [])"
    by (simp add: Fetch_step_def ears_def set_pc_def set_fetcher_def ref_fetch_def other_offering_def)
  then show ?thesis
    using run_step [OF run] by fastforce
qed

definition m0 :: KafkaMessage where
  "m0 = plain_msg ''t'' 1 ''hi''"

lemma delivers: "\<exists>w'. fetch_step (ref_fetch resp) Deliver (no_keys, ears AwaitNext (Delivering m), pc) = Next ((w', ears AwaitNext (Pushing m), pc), [], [])"
  by (simp add: Deliver_step_def ears_def lock7_def SetExpire_def Acquire_mem ref_fetch_def upd_store_def set_pc_def)

lemma pushes: "fetch_run (ref_fetch (Inr m0)) b (no_keys, (ears AwaitNext (Triggering 1))\<lparr>fl_curOffset := 1\<rparr>, GoPush\<lparr>pc_push := [[m0], []]\<rparr>) [m0] [m0]"
proof -
  let ?fe = "ref_fetch (Inr m0)"
  have "fetch_step ?fe (Respond 0) (no_keys, ears (Offering (Inr m0)) AwaitResp, GoPush) = Next ((no_keys, ears AwaitNext (Delivering m0), GoPush), [], [])"
    by (simp add: Respond_step_def ears_def set_pc_def set_fetcher_def)
  then have run: "fetch_run ?fe b (no_keys, ears AwaitNext (Delivering m0), GoPush) [m0] []"
    using run_step [OF fetches [of "Inr m0"]] by fastforce
  obtain w' where "fetch_step ?fe Deliver (no_keys, ears AwaitNext (Delivering m0), GoPush) = Next ((w', ears AwaitNext (Pushing m0), GoPush), [], [])"
    using delivers by blast
  then have "fetch_run ?fe b (w', ears AwaitNext (Pushing m0), GoPush) [m0] []"
    using run_step [OF run] by fastforce
  then have run: "fetch_run ?fe b (no_keys, ears AwaitNext (Pushing m0), GoPush) [m0] []"
    by (rule run_others)
  have "fetch_step ?fe (PushTo 0) (no_keys, ears AwaitNext (Pushing m0), GoPush)
      = Next ((no_keys, (ears AwaitNext (Triggering 1))\<lparr>fl_curOffset := 1\<rparr>, GoPush\<lparr>pc_push := [[m0], []]\<rparr>), [], [m0])"
    by (simp add: PushTo_step_def ears_def task_Push_def send_to_def GoPush_def set_pc_def m0_def plain_msg_def)
  then show ?thesis
    using run_step [OF run] by fastforce
qed

theorem pushed_in_order_witness:
  "\<exists>w l pc. fetch_run (ref_fetch (Inr m0)) False (w, l, pc) [m0] [m0] \<and> [m0] = [m0] @ in_flight l \<and> length (in_flight l) \<le> 1"
  using pushes [of False] pushed_in_order [OF pushes [of False]] by (fastforce simp: ears_def)

theorem push_takes_lock_witness:
  "\<exists>w'. fetch_step (ref_fetch (Inr m0)) Deliver (no_keys, ears AwaitNext (Delivering m0), GoPush) = Next ((w', ears AwaitNext (Pushing m0), GoPush), [], [])
    \<and> store (\<lambda>w. w) env1 w' (RedisLock ''t'') = Some (RStr ''t'')"
proof -
  have "lock_server (fe_redis (ref_fetch (Inr m0))) (\<lambda>w. w)"
    using mem_redis_lock_server [of "\<lambda>w. w" "\<lambda>s w. s"] by (simp add: ref_fetch_def)
  moreover obtain w' where w': "fetch_step (ref_fetch (Inr m0)) Deliver (no_keys, ears AwaitNext (Delivering m0), GoPush)
      = Next ((w', ears AwaitNext (Pushing m0), GoPush), [], [])"
    using delivers by blast
  ultimately show ?thesis
    using push_takes_lock [OF _ _ ref_fetch_lock w', of "\<lambda>w. w" m0] by (auto simp: ears_def ref_fetch_def)
qed

theorem error_restart_stalls_witness:
  "\<exists>w1 l1 l2. fetch_step (ref_fetch (Inl ''eof'')) (Respond 0) (no_keys, ears (Offering (Inl ''eof'')) AwaitResp, GoPush) = Next ((w1, l1, GoPush), [], [])
    \<and> fetch_step (ref_fetch (Inl ''eof'')) (Trigger 0) (w1, l1, GoPush) = Next ((w1, l2, GoPush), [], [])
    \<and> fetch_step (ref_fetch (Inl ''eof'')) (Respond 0) (w1, l2, GoPush) = Disabled"
proof -
  let ?fe = "ref_fetch (Inl ''eof'')" and ?l = "ears (Offering (Inl ''eof'')) AwaitResp"
  have l: "fl_pc ?l = AwaitResp" "0 < length (fl_fetchers ?l)" "f_pc (fl_fetchers ?l ! 0) = Offering (Inl ''eof'')"
    by (simp_all add: ears_def)
  obtain w1 l1 l2 where r: "fetch_step ?fe (Respond 0) (no_keys, ?l, GoPush) = Next ((w1, l1, GoPush), [], [])"
    "fetch_step ?fe (Trigger 0) (w1, l1, GoPush) = Next ((w1, l2, GoPush), [], [])"
    and stuck: "\<And>e w' pc' s f p. fetch_step ?fe e (w', l2, pc') = Next (s, f, p) \<Longrightarrow> e = StopSignal"
    using error_restart_stalls [OF fetches [of "Inl ''eof''" False GoPush] l] by (elim exE conjE) blast
  have "fetch_step ?fe (Respond 0) (w1, l2, GoPush) = Disabled"
  proof (cases "fetch_step ?fe (Respond 0) (w1, l2, GoPush)")
    case Panics
    then show ?thesis
      by (auto simp: Respond_step_def split: if_splits fetcher_pc.splits sum.splits prod.splits)
  next
    case (Next x)
    then show ?thesis
      using stuck [of "Respond 0" w1 GoPush "fst x" "fst (snd x)" "snd (snd x)"] by simp
  qed
  then show ?thesis
    using r by blast
qed

end
