(* ===== verification/Api.thy ===== *)
theory Api
  imports Logic Discovery
begin

text \<open>
  The HTTP interface (\<^verbatim>\<open>api/\<close>): the answers (\<^verbatim>\<open>api/utils/deal_resp.go\<close>), the link to the logic layer (\<^verbatim>\<open>api/rpc\<close>), the handlers
  (\<^verbatim>\<open>api/handler\<close>), the session check (\<^verbatim>\<open>api/utils/middleware.go\<close>) and the routes (\<^verbatim>\<open>api/router\<close>). A request is what gin
  has read of it: the JSON value in its body, its form values and files. The client of the logic layer, the clock, the
  file system and MD5 are parameters.
\<close>

section \<open>Requests and answers\<close>

record upload =
  up_Filename :: string
  up_opens :: bool
  up_data :: "string option"

record request =
  rq_Method :: string
  rq_Path :: string
  rq_json :: "json option"
  rq_form :: "string \<rightharpoonup> string"
  rq_file :: "string \<rightharpoonup> upload"

datatype api_data =
    NoData
  | StrData string
  | UserInfoData TUser
  | UsersData "User list"
  | GroupsData "Group list"
  | GroupInfoData Group
  | FriendPage GetFriendMsgByPageReply
  | GroupPage GetGroupMsgByPageReply
  | ChatData AfterLoginReply

text \<open>An answer with status 200 and its three fields, the empty answer to a preflight request, the 500 of a handler that panicked,
  or the redirection to a path.\<close>

datatype answer = Answer int string api_data | NoContent | Recovered | Redirected int string

definition CodeSuccess :: int where "CodeSuccess = 0"
definition CodeFail :: int where "CodeFail = 1"
definition CodeUnknownError :: int where "CodeUnknownError = -1"
definition CodeSessionError :: int where "CodeSessionError = 40100"

definition MsgCodeMap :: "int \<rightharpoonup> string" where
  "MsgCodeMap = [CodeSuccess \<mapsto> ''success'', CodeFail \<mapsto> ''fail'', CodeUnknownError \<mapsto> ''unknown error'', CodeSessionError \<mapsto> ''invalid session'']"

definition ResponseWithCode :: "int \<Rightarrow> string option \<Rightarrow> api_data \<Rightarrow> answer" where
  "ResponseWithCode code msg dat =
     Answer code
       (case msg of
          Some m \<Rightarrow> m
        | None \<Rightarrow> (case MsgCodeMap code of Some val \<Rightarrow> val | None \<Rightarrow> (case MsgCodeMap (-1) of Some val \<Rightarrow> val | None \<Rightarrow> [])))
       dat"

definition SuccessWithMsg :: "string option \<Rightarrow> api_data \<Rightarrow> answer" where
  "SuccessWithMsg msg dat = ResponseWithCode CodeSuccess msg dat"

definition FailWithMsg :: "string \<Rightarrow> answer" where
  "FailWithMsg msg = ResponseWithCode CodeFail (Some msg) NoData"

text \<open>The texts that are not ASCII, as their UTF-8 bytes: bad parameters, unsupported image, internal error.\<close>

definition MsgBadParams :: string where
  "MsgBadParams = map char_of ([229, 143, 130, 230, 149, 176, 230, 160, 161, 233, 170, 140, 229, 164, 177, 232, 180, 165] :: nat list)"

definition MsgBadImage :: string where
  "MsgBadImage = map char_of ([228, 184, 141, 230, 148, 175, 230, 140, 129, 231, 154, 132, 229, 155, 190, 231, 137, 135, 230, 160, 188, 229, 188, 143, 59, 228, 187, 133, 230, 148, 175, 230, 140, 129, 112, 110, 103, 124, 103, 105, 102, 124, 106, 112, 103, 230, 160, 188, 229, 188, 143] :: nat list)"

definition MsgSystem :: string where
  "MsgSystem = map char_of ([231, 179, 187, 231, 187, 159, 229, 188, 130, 229, 184, 184] :: nat list)"

section \<open>Environment\<close>

record ('w, 'c) api_client =
  ac_Register :: "'c \<Rightarrow> string \<Rightarrow> string \<Rightarrow> ('w, string + RegisterReply) state"
  ac_Login :: "'c \<Rightarrow> string \<Rightarrow> string \<Rightarrow> ('w, string + LoginReply) state"
  ac_LoginOut :: "'c \<Rightarrow> string \<Rightarrow> ('w, string + unit) state"
  ac_GetUserInfoByAccessToken :: "'c \<Rightarrow> string \<Rightarrow> ('w, string + GetUserInfoReply) state"
  ac_GetUserInfoByUserid :: "'c \<Rightarrow> int \<Rightarrow> ('w, string + GetUserInfoReply) state"
  ac_UpdateUserInfo :: "'c \<Rightarrow> User \<Rightarrow> ('w, string + GetUserInfoReply) state"
  ac_UpdatePassword :: "'c \<Rightarrow> int \<Rightarrow> string \<Rightarrow> string \<Rightarrow> string \<Rightarrow> ('w, string + unit) state"
  ac_SearchUser :: "'c \<Rightarrow> string \<Rightarrow> ('w, string + User list) state"
  ac_GetFriendMsgByPage :: "'c \<Rightarrow> int \<Rightarrow> int \<Rightarrow> int \<Rightarrow> int \<Rightarrow> ('w, string + GetFriendMsgByPageReply) state"
  ac_AddFriend :: "'c \<Rightarrow> int \<Rightarrow> int \<Rightarrow> ('w, string + unit) state"
  ac_AfterLogin :: "'c \<Rightarrow> int \<Rightarrow> ('w, string + AfterLoginReply) state"
  ac_SearchGroup :: "'c \<Rightarrow> string \<Rightarrow> ('w, string + Group list) state"
  ac_GetGroupMsgByPage :: "'c \<Rightarrow> int \<Rightarrow> int \<Rightarrow> int \<Rightarrow> ('w, string + GetGroupMsgByPageReply) state"
  ac_CreateGroup :: "'c \<Rightarrow> Group \<Rightarrow> ('w, string + Group) state"
  ac_AddGroup :: "'c \<Rightarrow> int \<Rightarrow> int \<Rightarrow> ('w, string + unit) state"
  ac_Push :: "'c \<Rightarrow> ChatMessage \<Rightarrow> ('w, string + unit) state"
  ac_PushRoom :: "'c \<Rightarrow> ChatMessage \<Rightarrow> ('w, string + unit) state"
  ac_PushRoomCount :: "'c \<Rightarrow> int \<Rightarrow> ('w, string + unit) state"
  ac_PushRoomInfo :: "'c \<Rightarrow> int \<Rightarrow> ('w, string + unit) state"

record ('w, 'c) api_env =
  ae_client :: "('w, 'c) api_client"
  ae_db :: "'w gorm_api"
  ae_now :: "('w, Time) state"
  ae_MkdirAll :: "string \<Rightarrow> ('w, string option) state"
  ae_SaveUploadedFile :: "upload \<Rightarrow> string \<Rightarrow> ('w, string option) state"
  ae_md5 :: "string \<Rightarrow> string"
  ae_Host :: string
  ae_ChatImgDir :: string
  ae_AvatarImgDir :: string

text \<open>The link to the logic layer; with \<^term>\<open>None\<close> the lookup panics.\<close>

record 'c api_link =
  ap_discovery :: "'c ServiceDiscovery"
  ap_serverId :: string

definition GetLogicRpcInstance :: "'c api_link \<Rightarrow> (discovery_error + 'c) option \<times> 'c api_link" where
  "GetLogicRpcInstance l =
     (case GetServiceByServerId (ap_serverId l) (ap_discovery l) of
        None \<Rightarrow> (None, l)
      | Some (r, d) \<Rightarrow> (Some r, l\<lparr>ap_discovery := d\<rparr>))"

type_synonym ('w, 'c) handling = "('w \<times> 'c api_link, answer) state"

section \<open>The parts the handlers share\<close>

definition with_form :: "'f option \<Rightarrow> ('f \<Rightarrow> ('w, 'c) handling) \<Rightarrow> ('w, 'c) handling" where
  "with_form form k = (case form of None \<Rightarrow> State_Monad.return (FailWithMsg MsgBadParams) | Some f \<Rightarrow> k f)"

definition with_userid :: "int option \<Rightarrow> (int \<Rightarrow> ('w, 'c) handling) \<Rightarrow> ('w, 'c) handling" where
  "with_userid userid k =
     (case userid of None \<Rightarrow> State_Monad.return (ResponseWithCode CodeSessionError None NoData) | Some u \<Rightarrow> k u)"

definition with_logic :: "('c \<Rightarrow> ('w, 'c) handling) \<Rightarrow> ('w, 'c) handling" where
  "with_logic k = do {
     ins \<leftarrow> inside GetLogicRpcInstance;
     (case ins of
        None \<Rightarrow> State_Monad.return Recovered
      | Some (Inl _) \<Rightarrow> State_Monad.return (ResponseWithCode CodeUnknownError None NoData)
      | Some (Inr c) \<Rightarrow> k c)
   }"

definition call_logic :: "int \<Rightarrow> ('w, string + 'r) state \<Rightarrow> ('r \<Rightarrow> ('w, 'c) handling) \<Rightarrow> ('w, 'c) handling" where
  "call_logic code m k = do {
     r \<leftarrow> outside m;
     (case r of
        Inl _ \<Rightarrow> State_Monad.return (ResponseWithCode code None NoData)
      | Inr reply \<Rightarrow> k reply)
   }"

text \<open>
  Binding: the JSON value is decoded into the zero value of the form's type, and a field marked \<^verbatim>\<open>required\<close> must not be
  zero. A form value of an integer field that is empty counts as zero.
\<close>

definition bind_json :: "'f decoder \<Rightarrow> 'f \<Rightarrow> ('f \<Rightarrow> bool) \<Rightarrow> request \<Rightarrow> 'f option" where
  "bind_json dec zero required rq =
     (case rq_json rq of
        None \<Rightarrow> None
      | Some j \<Rightarrow> (case dec j zero of (form, ok) \<Rightarrow> if ok \<and> required form then Some form else None))"

definition form_string :: "request \<Rightarrow> string \<Rightarrow> string" where
  "form_string rq k = (case rq_form rq k of None \<Rightarrow> [] | Some v \<Rightarrow> v)"

definition form_int :: "request \<Rightarrow> string \<Rightarrow> int option" where
  "form_int rq k = (let v = form_string rq k in if v = [] then Some 0 else (case Atoi v of (i, ok) \<Rightarrow> if ok then Some i else None))"

definition parse_local :: "string \<Rightarrow> Time" where
  "parse_local s = (case parse_time s of Some t \<Rightarrow> t | None \<Rightarrow> zero_time)"

text \<open>The user of a reply as the client sees it; \<^verbatim>\<open>reply.User\<close> may be nil.\<close>

definition user_of_reply :: "User \<Rightarrow> TUser" where
  "user_of_reply u = zero_user\<lparr>u_ID := pu_Id u, u_Username := pu_Username u, u_Avatar := pu_Avatar u, u_Role := pu_Role u,
     u_Status := pu_Status u, u_Tag := pu_Tag u, u_CreateAt := parse_local (pu_CreateAt u)\<rparr>"

definition answer_user :: "(User \<Rightarrow> TUser) \<Rightarrow> GetUserInfoReply \<Rightarrow> ('w, 'c) handling" where
  "answer_user f reply = State_Monad.return
     (case ui_User reply of None \<Rightarrow> Recovered | Some u \<Rightarrow> SuccessWithMsg None (UserInfoData (f u)))"

section \<open>Forms\<close>

text \<open>The forms of the handlers with what binding makes of a request.\<close>

record registerReq =
  rf_Username :: string
  rf_Password :: string

definition bind_registerReq :: "request \<Rightarrow> registerReq option" where
  "bind_registerReq = bind_json (dec_struct
     [fld ''username'' dec_string rf_Username (\<lambda>v m. m\<lparr>rf_Username := v\<rparr>),
      fld ''password'' dec_string rf_Password (\<lambda>v m. m\<lparr>rf_Password := v\<rparr>)])
     \<lparr>rf_Username = [], rf_Password = []\<rparr> (\<lambda>form. rf_Username form \<noteq> [] \<and> rf_Password form \<noteq> [])"

record loginReq =
  lf_Username :: string
  lf_Password :: string

definition bind_loginReq :: "request \<Rightarrow> loginReq option" where
  "bind_loginReq = bind_json (dec_struct
     [fld ''username'' dec_string lf_Username (\<lambda>v m. m\<lparr>lf_Username := v\<rparr>),
      fld ''password'' dec_string lf_Password (\<lambda>v m. m\<lparr>lf_Password := v\<rparr>)])
     \<lparr>lf_Username = [], lf_Password = []\<rparr> (\<lambda>form. lf_Username form \<noteq> [] \<and> lf_Password form \<noteq> [])"

record loginOutReq =
  lo_AccessToken :: string

definition bind_loginOutReq :: "request \<Rightarrow> loginOutReq option" where
  "bind_loginOutReq = bind_json (dec_struct
     [fld ''accessToken'' dec_string lo_AccessToken (\<lambda>v m. m\<lparr>lo_AccessToken := v\<rparr>)])
     \<lparr>lo_AccessToken = []\<rparr> (\<lambda>form. lo_AccessToken form \<noteq> [])"

record getUserInfoByUseridReq =
  gu_Userid :: int

definition bind_getUserInfoByUseridReq :: "request \<Rightarrow> getUserInfoByUseridReq option" where
  "bind_getUserInfoByUseridReq = bind_json (dec_struct
     [fld ''userid'' dec_int gu_Userid (\<lambda>v m. m\<lparr>gu_Userid := v\<rparr>)])
     \<lparr>gu_Userid = 0\<rparr> (\<lambda>form. gu_Userid form \<noteq> 0)"

record updateUserInfo =
  uf_Username :: string
  uf_Avatar :: string
  uf_Role :: int
  uf_Status :: int
  uf_Tag :: string

definition bind_updateUserInfo :: "request \<Rightarrow> updateUserInfo option" where
  "bind_updateUserInfo = bind_json (dec_struct
     [fld ''username'' dec_string uf_Username (\<lambda>v m. m\<lparr>uf_Username := v\<rparr>),
      fld ''avatar'' dec_string uf_Avatar (\<lambda>v m. m\<lparr>uf_Avatar := v\<rparr>),
      fld ''role'' dec_int uf_Role (\<lambda>v m. m\<lparr>uf_Role := v\<rparr>),
      fld ''status'' dec_int uf_Status (\<lambda>v m. m\<lparr>uf_Status := v\<rparr>),
      fld ''tag'' dec_string uf_Tag (\<lambda>v m. m\<lparr>uf_Tag := v\<rparr>)])
     \<lparr>uf_Username = [], uf_Avatar = [], uf_Role = 0, uf_Status = 0, uf_Tag = []\<rparr> (\<lambda>form. True)"

record updatePasswordReq =
  upw_OldPassword :: string
  upw_NewPassword1 :: string
  upw_NewPassword2 :: string

definition bind_updatePasswordReq :: "request \<Rightarrow> updatePasswordReq option" where
  "bind_updatePasswordReq = bind_json (dec_struct
     [fld ''oldPassword'' dec_string upw_OldPassword (\<lambda>v m. m\<lparr>upw_OldPassword := v\<rparr>),
      fld ''newPassword1'' dec_string upw_NewPassword1 (\<lambda>v m. m\<lparr>upw_NewPassword1 := v\<rparr>),
      fld ''newPassword2'' dec_string upw_NewPassword2 (\<lambda>v m. m\<lparr>upw_NewPassword2 := v\<rparr>)])
     \<lparr>upw_OldPassword = [], upw_NewPassword1 = [], upw_NewPassword2 = []\<rparr> (\<lambda>form. upw_OldPassword form \<noteq> [] \<and> upw_NewPassword1 form \<noteq> [] \<and> upw_NewPassword2 form \<noteq> [])"

record searchUserReq =
  su_Username :: string

definition bind_searchUserReq :: "request \<Rightarrow> searchUserReq option" where
  "bind_searchUserReq = bind_json (dec_struct
     [fld ''username'' dec_string su_Username (\<lambda>v m. m\<lparr>su_Username := v\<rparr>)])
     \<lparr>su_Username = []\<rparr> (\<lambda>form. su_Username form \<noteq> [])"

record getFriendMsgByPageReq =
  fpr_FriendId :: int
  fpr_Current :: int
  fpr_PageSize :: int

definition bind_getFriendMsgByPageReq :: "request \<Rightarrow> getFriendMsgByPageReq option" where
  "bind_getFriendMsgByPageReq = bind_json (dec_struct
     [fld ''friendId'' dec_int fpr_FriendId (\<lambda>v m. m\<lparr>fpr_FriendId := v\<rparr>),
      fld ''current'' dec_int fpr_Current (\<lambda>v m. m\<lparr>fpr_Current := v\<rparr>),
      fld ''pageSize'' dec_int fpr_PageSize (\<lambda>v m. m\<lparr>fpr_PageSize := v\<rparr>)])
     \<lparr>fpr_FriendId = 0, fpr_Current = 0, fpr_PageSize = 0\<rparr> (\<lambda>form. fpr_FriendId form \<noteq> 0 \<and> fpr_Current form \<noteq> 0 \<and> fpr_PageSize form \<noteq> 0)"

record addFriend =
  af_FriendId :: int

definition bind_addFriend :: "request \<Rightarrow> addFriend option" where
  "bind_addFriend = bind_json (dec_struct
     [fld ''friendId'' dec_int af_FriendId (\<lambda>v m. m\<lparr>af_FriendId := v\<rparr>)])
     \<lparr>af_FriendId = 0\<rparr> (\<lambda>form. af_FriendId form \<noteq> 0)"

record searchGroupReq =
  sg_GroupName :: string

definition bind_searchGroupReq :: "request \<Rightarrow> searchGroupReq option" where
  "bind_searchGroupReq = bind_json (dec_struct
     [fld ''groupName'' dec_string sg_GroupName (\<lambda>v m. m\<lparr>sg_GroupName := v\<rparr>)])
     \<lparr>sg_GroupName = []\<rparr> (\<lambda>form. sg_GroupName form \<noteq> [])"

record getGroupMsgByPageReq =
  gpr_GroupId :: int
  gpr_Current :: int
  gpr_PageSize :: int

definition bind_getGroupMsgByPageReq :: "request \<Rightarrow> getGroupMsgByPageReq option" where
  "bind_getGroupMsgByPageReq = bind_json (dec_struct
     [fld ''groupId'' dec_int gpr_GroupId (\<lambda>v m. m\<lparr>gpr_GroupId := v\<rparr>),
      fld ''current'' dec_int gpr_Current (\<lambda>v m. m\<lparr>gpr_Current := v\<rparr>),
      fld ''pageSize'' dec_int gpr_PageSize (\<lambda>v m. m\<lparr>gpr_PageSize := v\<rparr>)])
     \<lparr>gpr_GroupId = 0, gpr_Current = 0, gpr_PageSize = 0\<rparr> (\<lambda>form. gpr_GroupId form \<noteq> 0 \<and> gpr_Current form \<noteq> 0 \<and> gpr_PageSize form \<noteq> 0)"

record createGroupReq =
  cg_GroupName :: string
  cg_Notice :: string

definition bind_createGroupReq :: "request \<Rightarrow> createGroupReq option" where
  "bind_createGroupReq = bind_json (dec_struct
     [fld ''groupName'' dec_string cg_GroupName (\<lambda>v m. m\<lparr>cg_GroupName := v\<rparr>),
      fld ''notice'' dec_string cg_Notice (\<lambda>v m. m\<lparr>cg_Notice := v\<rparr>)])
     \<lparr>cg_GroupName = [], cg_Notice = []\<rparr> (\<lambda>form. cg_GroupName form \<noteq> [] \<and> cg_Notice form \<noteq> [])"

record addGroup =
  ag_GroupId :: int

definition bind_addGroup :: "request \<Rightarrow> addGroup option" where
  "bind_addGroup = bind_json (dec_struct
     [fld ''groupId'' dec_int ag_GroupId (\<lambda>v m. m\<lparr>ag_GroupId := v\<rparr>)])
     \<lparr>ag_GroupId = 0\<rparr> (\<lambda>form. ag_GroupId form \<noteq> 0)"

record pushReq =
  pf_FriendId :: int
  pf_Content :: string
  pf_MessageType :: string
  pf_FromUsername :: string
  pf_FriendName :: string
  pf_Avatar :: string
  pf_Watermark :: int

definition bind_pushReq :: "request \<Rightarrow> pushReq option" where
  "bind_pushReq = bind_json (dec_struct
     [fld ''friendId'' dec_int pf_FriendId (\<lambda>v m. m\<lparr>pf_FriendId := v\<rparr>),
      fld ''content'' dec_string pf_Content (\<lambda>v m. m\<lparr>pf_Content := v\<rparr>),
      fld ''messageType'' dec_string pf_MessageType (\<lambda>v m. m\<lparr>pf_MessageType := v\<rparr>),
      fld ''fromUsername'' dec_string pf_FromUsername (\<lambda>v m. m\<lparr>pf_FromUsername := v\<rparr>),
      fld ''friendName'' dec_string pf_FriendName (\<lambda>v m. m\<lparr>pf_FriendName := v\<rparr>),
      fld ''avatar'' dec_string pf_Avatar (\<lambda>v m. m\<lparr>pf_Avatar := v\<rparr>),
      fld ''watermark'' dec_int pf_Watermark (\<lambda>v m. m\<lparr>pf_Watermark := v\<rparr>)])
     \<lparr>pf_FriendId = 0, pf_Content = [], pf_MessageType = [], pf_FromUsername = [], pf_FriendName = [], pf_Avatar = [], pf_Watermark = 0\<rparr> (\<lambda>form. pf_FriendId form \<noteq> 0 \<and> pf_Content form \<noteq> [] \<and> pf_MessageType form \<noteq> [] \<and> pf_FromUsername form \<noteq> [] \<and> pf_FriendName form \<noteq> [] \<and> pf_Avatar form \<noteq> [] \<and> pf_Watermark form \<noteq> 0)"

record pushRoomReq =
  pr_GroupId :: int
  pr_Content :: string
  pr_MessageType :: string
  pr_FromUsername :: string
  pr_GroupName :: string
  pr_Avatar :: string
  pr_Watermark :: int

definition bind_pushRoomReq :: "request \<Rightarrow> pushRoomReq option" where
  "bind_pushRoomReq = bind_json (dec_struct
     [fld ''groupId'' dec_int pr_GroupId (\<lambda>v m. m\<lparr>pr_GroupId := v\<rparr>),
      fld ''content'' dec_string pr_Content (\<lambda>v m. m\<lparr>pr_Content := v\<rparr>),
      fld ''messageType'' dec_string pr_MessageType (\<lambda>v m. m\<lparr>pr_MessageType := v\<rparr>),
      fld ''fromUsername'' dec_string pr_FromUsername (\<lambda>v m. m\<lparr>pr_FromUsername := v\<rparr>),
      fld ''groupName'' dec_string pr_GroupName (\<lambda>v m. m\<lparr>pr_GroupName := v\<rparr>),
      fld ''avatar'' dec_string pr_Avatar (\<lambda>v m. m\<lparr>pr_Avatar := v\<rparr>),
      fld ''watermark'' dec_int pr_Watermark (\<lambda>v m. m\<lparr>pr_Watermark := v\<rparr>)])
     \<lparr>pr_GroupId = 0, pr_Content = [], pr_MessageType = [], pr_FromUsername = [], pr_GroupName = [], pr_Avatar = [], pr_Watermark = 0\<rparr> (\<lambda>form. pr_GroupId form \<noteq> 0 \<and> pr_Content form \<noteq> [] \<and> pr_MessageType form \<noteq> [] \<and> pr_FromUsername form \<noteq> [] \<and> pr_GroupName form \<noteq> [] \<and> pr_Avatar form \<noteq> [] \<and> pr_Watermark form \<noteq> 0)"

record pushRoomCountReq =
  prc_GroupId :: int

definition bind_pushRoomCountReq :: "request \<Rightarrow> pushRoomCountReq option" where
  "bind_pushRoomCountReq = bind_json (dec_struct
     [fld ''groupId'' dec_int prc_GroupId (\<lambda>v m. m\<lparr>prc_GroupId := v\<rparr>)])
     \<lparr>prc_GroupId = 0\<rparr> (\<lambda>form. prc_GroupId form \<noteq> 0)"

record pushRoomInfoReq =
  pri_GroupId :: int

definition bind_pushRoomInfoReq :: "request \<Rightarrow> pushRoomInfoReq option" where
  "bind_pushRoomInfoReq = bind_json (dec_struct
     [fld ''groupId'' dec_int pri_GroupId (\<lambda>v m. m\<lparr>pri_GroupId := v\<rparr>)])
     \<lparr>pri_GroupId = 0\<rparr> (\<lambda>form. pri_GroupId form \<noteq> 0)"

record accessTokenForm =
  at_AccessToken :: string

definition bind_accessTokenForm :: "request \<Rightarrow> accessTokenForm option" where
  "bind_accessTokenForm = bind_json (dec_struct
     [fld ''accessToken'' dec_string at_AccessToken (\<lambda>v m. m\<lparr>at_AccessToken := v\<rparr>)])
     \<lparr>at_AccessToken = []\<rparr> (\<lambda>form. at_AccessToken form \<noteq> [])"

text \<open>The two forms with a file.\<close>

record reqUploadAvtar =
  ua_AvatarPic :: upload
  ua_AccessToken :: string

definition bind_reqUploadAvtar :: "request \<Rightarrow> reqUploadAvtar option" where
  "bind_reqUploadAvtar rq =
     (case rq_file rq ''avatarPic'' of
        None \<Rightarrow> None
      | Some f \<Rightarrow> if form_string rq ''accessToken'' = [] then None
                  else Some \<lparr>ua_AvatarPic = f, ua_AccessToken = form_string rq ''accessToken''\<rparr>)"

record reqPushImgMsg =
  im_Content :: upload
  im_Ty :: string
  im_FromId :: int
  im_FromUsername :: string
  im_Avatar :: string
  im_AccessToken :: string
  im_Watermark :: int
  im_GroupId :: int
  im_GroupName :: string
  im_FriendId :: int
  im_FriendName :: string

definition bind_reqPushImgMsg :: "request \<Rightarrow> reqPushImgMsg option" where
  "bind_reqPushImgMsg rq = do {
     content \<leftarrow> rq_file rq ''content'';
     fromId \<leftarrow> form_int rq ''fromId'';
     watermark \<leftarrow> form_int rq ''watermark'';
     groupId \<leftarrow> form_int rq ''groupId'';
     friendId \<leftarrow> form_int rq ''friendId'';
     (if form_string rq ''type'' \<noteq> [] \<and> fromId \<noteq> 0 \<and> form_string rq ''fromUsername'' \<noteq> [] \<and> form_string rq ''avatar'' \<noteq> []
         \<and> form_string rq ''accessToken'' \<noteq> [] \<and> watermark \<noteq> 0
      then Some \<lparr>im_Content = content, im_Ty = form_string rq ''type'', im_FromId = fromId,
        im_FromUsername = form_string rq ''fromUsername'', im_Avatar = form_string rq ''avatar'',
        im_AccessToken = form_string rq ''accessToken'', im_Watermark = watermark, im_GroupId = groupId,
        im_GroupName = form_string rq ''groupName'', im_FriendId = friendId, im_FriendName = form_string rq ''friendName''\<rparr>
      else None)
   }"

text \<open>\<^verbatim>\<open>getUserInfoByAccessTokenReq\<close>, from the query.\<close>

definition bind_token_form :: "request \<Rightarrow> string option" where
  "bind_token_form rq = (let t = form_string rq ''accessToken'' in if t = [] then None else Some t)"

section \<open>Users\<close>

text \<open>A failure of \<^verbatim>\<open>AddGroup\<close> is logged with the error of \<^verbatim>\<open>Register\<close>, which is nil.\<close>

definition api_Register :: "('w, 'c) api_env \<Rightarrow> request \<Rightarrow> ('w, 'c) handling" where
  "api_Register ae rq = with_form (bind_registerReq rq) (\<lambda>form. with_logic (\<lambda>c.
     call_logic CodeUnknownError (ac_Register (ae_client ae) c (rf_Username form) (rf_Password form)) (\<lambda>reply. do {
       r \<leftarrow> outside (ac_AddGroup (ae_client ae) c (rr_Userid reply) 1);
       State_Monad.return (case r of
         Inl _ \<Rightarrow> Recovered
       | Inr _ \<Rightarrow> ResponseWithCode (rr_Code reply) None (StrData (rr_AccessToken reply)))
     })))"

definition api_Login :: "('w, 'c) api_env \<Rightarrow> request \<Rightarrow> ('w, 'c) handling" where
  "api_Login ae rq = with_form (bind_loginReq rq) (\<lambda>form. with_logic (\<lambda>c.
     call_logic CodeUnknownError (ac_Login (ae_client ae) c (lf_Username form) (lf_Password form)) (\<lambda>reply.
       State_Monad.return (ResponseWithCode (lr_Code reply) None (StrData (lr_AccessToken reply))))))"

definition api_LoginOut :: "('w, 'c) api_env \<Rightarrow> request \<Rightarrow> ('w, 'c) handling" where
  "api_LoginOut ae rq = with_form (bind_loginOutReq rq) (\<lambda>form. with_logic (\<lambda>c.
     call_logic CodeUnknownError (ac_LoginOut (ae_client ae) c (lo_AccessToken form)) (\<lambda>_.
       State_Monad.return (SuccessWithMsg None NoData))))"

definition api_GetUserInfoByAccessToken :: "('w, 'c) api_env \<Rightarrow> request \<Rightarrow> ('w, 'c) handling" where
  "api_GetUserInfoByAccessToken ae rq = with_form (bind_token_form rq) (\<lambda>token. with_logic (\<lambda>c.
     call_logic CodeUnknownError (ac_GetUserInfoByAccessToken (ae_client ae) c token) (answer_user user_of_reply)))"

definition api_GetUserInfoByUserid :: "('w, 'c) api_env \<Rightarrow> request \<Rightarrow> ('w, 'c) handling" where
  "api_GetUserInfoByUserid ae rq = with_form (bind_getUserInfoByUseridReq rq) (\<lambda>form. with_logic (\<lambda>c.
     call_logic CodeUnknownError (ac_GetUserInfoByUserid (ae_client ae) c (gu_Userid form)) (answer_user user_of_reply)))"

definition api_UpdateUserInfo :: "('w, 'c) api_env \<Rightarrow> request \<Rightarrow> int option \<Rightarrow> ('w, 'c) handling" where
  "api_UpdateUserInfo ae rq userid = with_form (bind_updateUserInfo rq) (\<lambda>form. with_userid userid (\<lambda>u. with_logic (\<lambda>c.
     call_logic CodeUnknownError
       (ac_UpdateUserInfo (ae_client ae) c (zero_User\<lparr>pu_Id := u, pu_Username := uf_Username form, pu_Avatar := uf_Avatar form,
          pu_Role := to_int32 (uf_Role form), pu_Status := to_int32 (uf_Status form), pu_Tag := uf_Tag form\<rparr>))
       (answer_user (\<lambda>v. (user_of_reply v)\<lparr>u_UpdateAt := parse_local (pu_UpdateAt v)\<rparr>)))))"

definition api_UpdatePassword :: "('w, 'c) api_env \<Rightarrow> request \<Rightarrow> int option \<Rightarrow> ('w, 'c) handling" where
  "api_UpdatePassword ae rq userid = with_form (bind_updatePasswordReq rq) (\<lambda>form. with_userid userid (\<lambda>u. with_logic (\<lambda>c.
     call_logic CodeUnknownError
       (ac_UpdatePassword (ae_client ae) c u (upw_OldPassword form) (upw_NewPassword1 form) (upw_NewPassword2 form)) (\<lambda>_.
       State_Monad.return (SuccessWithMsg None NoData)))))"

definition api_SearchUser :: "('w, 'c) api_env \<Rightarrow> request \<Rightarrow> ('w, 'c) handling" where
  "api_SearchUser ae rq = with_form (bind_searchUserReq rq) (\<lambda>form. with_logic (\<lambda>c.
     call_logic CodeUnknownError (ac_SearchUser (ae_client ae) c (su_Username form)) (\<lambda>reply.
       State_Monad.return (SuccessWithMsg None (UsersData reply)))))"

definition api_GetFriendMsgByPage :: "('w, 'c) api_env \<Rightarrow> request \<Rightarrow> int option \<Rightarrow> ('w, 'c) handling" where
  "api_GetFriendMsgByPage ae rq userid = with_form (bind_getFriendMsgByPageReq rq) (\<lambda>form. with_userid userid (\<lambda>u. with_logic (\<lambda>c.
     call_logic CodeUnknownError
       (ac_GetFriendMsgByPage (ae_client ae) c (fpr_FriendId form) u (fpr_Current form) (fpr_PageSize form)) (\<lambda>reply.
       State_Monad.return (SuccessWithMsg None (FriendPage reply))))))"

definition api_AddFriend :: "('w, 'c) api_env \<Rightarrow> request \<Rightarrow> int option \<Rightarrow> ('w, 'c) handling" where
  "api_AddFriend ae rq userid = with_form (bind_addFriend rq) (\<lambda>form. with_userid userid (\<lambda>u. with_logic (\<lambda>c.
     call_logic CodeUnknownError (ac_AddFriend (ae_client ae) c u (af_FriendId form)) (\<lambda>_.
       State_Monad.return (SuccessWithMsg None NoData)))))"

definition api_GetChatHistoryAfterLogin :: "('w, 'c) api_env \<Rightarrow> request \<Rightarrow> int option \<Rightarrow> ('w, 'c) handling" where
  "api_GetChatHistoryAfterLogin ae rq userid = with_userid userid (\<lambda>u. with_logic (\<lambda>c.
     call_logic CodeUnknownError (ac_AfterLogin (ae_client ae) c u) (\<lambda>reply.
       State_Monad.return (SuccessWithMsg None (ChatData reply)))))"

section \<open>Images\<close>

text \<open>
  The extension of a file name, as the handlers check it: the conjunction rejects only names that do not have two parts and whose second
  part is not one of the three; without a dot the second part is out of range.
\<close>

definition image_extension :: "string \<Rightarrow> answer + string" where
  "image_extension filename =
     (let extendName = Split (CHR ''.'') filename
      in case index extendName 1 of
           None \<Rightarrow> Inl Recovered
         | Some ext \<Rightarrow>
             if length extendName \<noteq> 2 \<and> ext \<noteq> ''png'' \<and> ext \<noteq> ''gif'' \<and> ext \<noteq> ''jpg'' then Inl (FailWithMsg MsgBadImage)
             else Inr ext)"

text \<open>
  Storing an image in a directory, under the MD5 sum of its contents. The result is its name. The directory is \<^term>\<open>None\<close> where
  the code reads a field of a nil pointer to make its name.
\<close>

definition store_image :: "('w, 'c) api_env \<Rightarrow> upload \<Rightarrow> string option \<Rightarrow> (string \<Rightarrow> ('w, 'c) handling) \<Rightarrow> ('w, 'c) handling" where
  "store_image ae f path k =
     (case image_extension (up_Filename f) of
        Inl a \<Rightarrow> State_Monad.return a
      | Inr ext \<Rightarrow>
          if \<not> up_opens f then State_Monad.return Recovered
          else (case up_data f of
            None \<Rightarrow> State_Monad.return (FailWithMsg MsgSystem)
          | Some fileData \<Rightarrow> (case path of
              None \<Rightarrow> State_Monad.return Recovered
            | Some dir \<Rightarrow> do {
                err \<leftarrow> outside (ae_MkdirAll ae dir);
                (if err \<noteq> None then State_Monad.return (FailWithMsg MsgSystem)
                 else (let fileName = ae_md5 ae fileData @ ''.'' @ ext
                       in do {
                         err \<leftarrow> outside (ae_SaveUploadedFile ae f (dir @ fileName));
                         (if err \<noteq> None then State_Monad.return (FailWithMsg MsgSystem) else k fileName)
                       }))
              })))"

text \<open>The token is looked up by the handler itself.\<close>

definition api_UploadAvtar :: "('w, 'c) api_env \<Rightarrow> request \<Rightarrow> ('w, 'c) handling" where
  "api_UploadAvtar ae rq = with_form (bind_reqUploadAvtar rq) (\<lambda>form. with_logic (\<lambda>c.
     call_logic CodeSessionError (ac_GetUserInfoByAccessToken (ae_client ae) c (ua_AccessToken form)) (\<lambda>reply.
       store_image ae (ua_AvatarPic form) (map_option (\<lambda>u. ae_AvatarImgDir ae @ fmt_d (pu_Id u) @ ''/'') (ui_User reply)) (\<lambda>fileName.
         (case ui_User reply of
            None \<Rightarrow> State_Monad.return Recovered
          | Some u \<Rightarrow>
              (let imgUrl = ae_Host ae @ ''/api/avatars/'' @ fmt_d (pu_Id u) @ ''/'' @ fileName
               in do {
                 _ \<leftarrow> outside (UpdateUser (ae_db ae) (zero_user\<lparr>u_ID := pu_Id u, u_Avatar := imgUrl\<rparr>));
                 State_Monad.return (SuccessWithMsg None (StrData imgUrl))
               }))))))"

section \<open>Messages\<close>

definition zero_ChatMessage :: ChatMessage where
  "zero_ChatMessage = \<lparr>cm_Id = 0, cm_Userid = 0, cm_GroupId = 0, cm_FriendId = 0, cm_Content = [], cm_MessageType = [], cm_CreateAt = [],
     cm_FromUsername = [], cm_FriendName = [], cm_GroupName = [], cm_Avatar = [], cm_SnowId = [], cm_Watermark = 0\<rparr>"

definition api_Push :: "('w, 'c) api_env \<Rightarrow> request \<Rightarrow> int option \<Rightarrow> ('w, 'c) handling" where
  "api_Push ae rq userid = with_form (bind_pushReq rq) (\<lambda>form. with_userid userid (\<lambda>u. with_logic (\<lambda>c. do {
     now \<leftarrow> outside (ae_now ae);
     call_logic CodeUnknownError (ac_Push (ae_client ae) c
       (zero_ChatMessage\<lparr>cm_Userid := u, cm_FriendId := pf_FriendId form, cm_Content := pf_Content form,
          cm_MessageType := pf_MessageType form, cm_FromUsername := pf_FromUsername form, cm_FriendName := pf_FriendName form,
          cm_Avatar := pf_Avatar form, cm_CreateAt := format_rfc3339 now, cm_Watermark := pf_Watermark form\<rparr>)) (\<lambda>_.
       State_Monad.return (SuccessWithMsg None (StrData ''success'')))
   })))"

definition api_PushRoom :: "('w, 'c) api_env \<Rightarrow> request \<Rightarrow> int option \<Rightarrow> ('w, 'c) handling" where
  "api_PushRoom ae rq userid = with_form (bind_pushRoomReq rq) (\<lambda>form. with_userid userid (\<lambda>u. with_logic (\<lambda>c. do {
     now \<leftarrow> outside (ae_now ae);
     call_logic CodeUnknownError (ac_PushRoom (ae_client ae) c
       (zero_ChatMessage\<lparr>cm_Userid := u, cm_GroupId := pr_GroupId form, cm_Content := pr_Content form,
          cm_MessageType := pr_MessageType form, cm_FromUsername := pr_FromUsername form, cm_GroupName := pr_GroupName form,
          cm_CreateAt := format_rfc3339 now, cm_Avatar := pr_Avatar form, cm_Watermark := pr_Watermark form\<rparr>)) (\<lambda>_.
       State_Monad.return (SuccessWithMsg None (StrData ''success'')))
   })))"

definition api_PushRoomCount :: "('w, 'c) api_env \<Rightarrow> request \<Rightarrow> ('w, 'c) handling" where
  "api_PushRoomCount ae rq = with_form (bind_pushRoomCountReq rq) (\<lambda>form. with_logic (\<lambda>c.
     call_logic CodeUnknownError (ac_PushRoomCount (ae_client ae) c (prc_GroupId form)) (\<lambda>_.
       State_Monad.return (SuccessWithMsg None NoData))))"

definition api_PushRoomInfo :: "('w, 'c) api_env \<Rightarrow> request \<Rightarrow> ('w, 'c) handling" where
  "api_PushRoomInfo ae rq = with_form (bind_pushRoomInfoReq rq) (\<lambda>form. with_logic (\<lambda>c.
     call_logic CodeUnknownError (ac_PushRoomInfo (ae_client ae) c (pri_GroupId form)) (\<lambda>_.
       State_Monad.return (SuccessWithMsg None NoData))))"

text \<open>The directory is made of what the client sent; a type that is neither of the two is stored and not pushed.\<close>

definition push_image :: "('w, 'c) api_env \<Rightarrow> 'c \<Rightarrow> User option \<Rightarrow> reqPushImgMsg \<Rightarrow> string \<Rightarrow> ('w, 'c) handling" where
  "push_image ae c user form imgUrl =
     (if im_Ty form = ''group'' then
        (case user of
           None \<Rightarrow> State_Monad.return Recovered
         | Some u \<Rightarrow> do {
             now \<leftarrow> outside (ae_now ae);
             call_logic CodeUnknownError (ac_PushRoom (ae_client ae) c
               (zero_ChatMessage\<lparr>cm_Userid := pu_Id u, cm_GroupId := im_GroupId form, cm_Content := imgUrl, cm_MessageType := ''image'',
                  cm_FromUsername := im_FromUsername form, cm_GroupName := im_GroupName form, cm_CreateAt := format_rfc3339 now,
                  cm_Avatar := im_Avatar form, cm_Watermark := im_Watermark form\<rparr>))
               (\<lambda>_. State_Monad.return (SuccessWithMsg None (StrData imgUrl)))
           })
      else if im_Ty form = ''friend'' then
        (case user of
           None \<Rightarrow> State_Monad.return Recovered
         | Some u \<Rightarrow> do {
             now \<leftarrow> outside (ae_now ae);
             call_logic CodeUnknownError (ac_Push (ae_client ae) c
               (zero_ChatMessage\<lparr>cm_Userid := pu_Id u, cm_FriendId := im_FriendId form, cm_Content := imgUrl, cm_MessageType := ''image'',
                  cm_FromUsername := im_FromUsername form, cm_FriendName := im_FriendName form, cm_Avatar := im_Avatar form,
                  cm_CreateAt := format_rfc3339 now, cm_Watermark := im_Watermark form\<rparr>))
               (\<lambda>_. State_Monad.return (SuccessWithMsg None (StrData imgUrl)))
           })
      else State_Monad.return (SuccessWithMsg None (StrData imgUrl)))"

definition api_PushImgMsg :: "('w, 'c) api_env \<Rightarrow> request \<Rightarrow> ('w, 'c) handling" where
  "api_PushImgMsg ae rq = with_form (bind_reqPushImgMsg rq) (\<lambda>form. with_logic (\<lambda>c.
     call_logic CodeSessionError (ac_GetUserInfoByAccessToken (ae_client ae) c (im_AccessToken form)) (\<lambda>reply.
       store_image ae (im_Content form) (Some (ae_ChatImgDir ae @ im_Ty form @ ''/'' @ fmt_d (im_FromId form) @ ''/'')) (\<lambda>fileName.
         push_image ae c (ui_User reply) form
           (ae_Host ae @ ''/api/images/'' @ im_Ty form @ ''/'' @ fmt_d (im_FromId form) @ ''/'' @ fileName)))))"

section \<open>Groups\<close>

definition api_SearchGroup :: "('w, 'c) api_env \<Rightarrow> request \<Rightarrow> ('w, 'c) handling" where
  "api_SearchGroup ae rq = with_form (bind_searchGroupReq rq) (\<lambda>form. with_logic (\<lambda>c.
     call_logic CodeUnknownError (ac_SearchGroup (ae_client ae) c (sg_GroupName form)) (\<lambda>reply.
       State_Monad.return (SuccessWithMsg None (GroupsData reply)))))"

definition api_GetGroupMsgByPage :: "('w, 'c) api_env \<Rightarrow> request \<Rightarrow> ('w, 'c) handling" where
  "api_GetGroupMsgByPage ae rq = with_form (bind_getGroupMsgByPageReq rq) (\<lambda>form. with_logic (\<lambda>c.
     call_logic CodeUnknownError
       (ac_GetGroupMsgByPage (ae_client ae) c (gpr_GroupId form) (gpr_Current form) (gpr_PageSize form)) (\<lambda>reply.
       State_Monad.return (SuccessWithMsg None (GroupPage reply)))))"

definition api_CreateGroup :: "('w, 'c) api_env \<Rightarrow> request \<Rightarrow> int option \<Rightarrow> ('w, 'c) handling" where
  "api_CreateGroup ae rq userid = with_form (bind_createGroupReq rq) (\<lambda>form. with_userid userid (\<lambda>u. with_logic (\<lambda>c.
     call_logic CodeUnknownError
       (ac_CreateGroup (ae_client ae) c \<lparr>pg_Id = 0, pg_Userid = u, pg_GroupName = cg_GroupName form, pg_Notice = cg_Notice form,
          pg_CreateAt = [], pg_UpdateAt = []\<rparr>) (\<lambda>reply.
       call_logic CodeUnknownError (ac_AddGroup (ae_client ae) c u (pg_Id reply)) (\<lambda>_.
         State_Monad.return (SuccessWithMsg None (GroupInfoData reply)))))))"

definition api_AddGroup :: "('w, 'c) api_env \<Rightarrow> request \<Rightarrow> int option \<Rightarrow> ('w, 'c) handling" where
  "api_AddGroup ae rq userid = with_form (bind_addGroup rq) (\<lambda>form. with_userid userid (\<lambda>u. with_logic (\<lambda>c.
     call_logic CodeUnknownError (ac_AddGroup (ae_client ae) c u (ag_GroupId form)) (\<lambda>_.
       State_Monad.return (SuccessWithMsg None NoData)))))"

section \<open>Session check and routes\<close>

text \<open>The token comes from the JSON body or, failing that, from the form.\<close>

definition session_token :: "request \<Rightarrow> string option" where
  "session_token rq = (case bind_accessTokenForm rq of Some form \<Rightarrow> Some (at_AccessToken form) | None \<Rightarrow> bind_token_form rq)"

definition CheckSession :: "('w, 'c) api_env \<Rightarrow> request \<Rightarrow> (int option \<Rightarrow> ('w, 'c) handling) \<Rightarrow> ('w, 'c) handling" where
  "CheckSession ae rq handler =
     (case session_token rq of
        None \<Rightarrow> State_Monad.return (ResponseWithCode CodeSessionError None NoData)
      | Some token \<Rightarrow> with_logic (\<lambda>c.
          call_logic CodeSessionError (ac_GetUserInfoByAccessToken (ae_client ae) c token) (\<lambda>reply.
            case ui_User reply of None \<Rightarrow> State_Monad.return Recovered | Some u \<Rightarrow> handler (Some (pu_Id u)))))"

text \<open>The routes: those registered before \<^verbatim>\<open>Use(utils.CheckSession())\<close> are open, the others protected.\<close>

definition open_routes :: "('w, 'c) api_env \<Rightarrow> request \<Rightarrow> (string \<times> string \<times> ('w, 'c) handling) list" where
  "open_routes ae rq =
     [(''POST'', ''/user/register'', api_Register ae rq),
      (''POST'', ''/user/login'', api_Login ae rq),
      (''GET'', ''/user/check-auth'', api_GetUserInfoByAccessToken ae rq),
      (''POST'', ''/user/upload-avatar'', api_UploadAvtar ae rq),
      (''POST'', ''/push/img-msg'', api_PushImgMsg ae rq)]"

definition protected_routes :: "('w, 'c) api_env \<Rightarrow> request \<Rightarrow> (string \<times> string \<times> (int option \<Rightarrow> ('w, 'c) handling)) list" where
  "protected_routes ae rq =
     [(''GET'', ''/user/login-out'', \<lambda>_. api_LoginOut ae rq),
      (''GET'', ''/user/chat-data'', api_GetChatHistoryAfterLogin ae rq),
      (''GET'', ''/user/info'', \<lambda>_. api_GetUserInfoByUserid ae rq),
      (''POST'', ''/user/update-info'', api_UpdateUserInfo ae rq),
      (''POST'', ''/user/update-password'', api_UpdatePassword ae rq),
      (''POST'', ''/user/search'', \<lambda>_. api_SearchUser ae rq),
      (''POST'', ''/user/chat-history'', api_GetFriendMsgByPage ae rq),
      (''POST'', ''/user/add-friend'', api_AddFriend ae rq),
      (''POST'', ''/group/search'', \<lambda>_. api_SearchGroup ae rq),
      (''POST'', ''/group/chat-history'', \<lambda>_. api_GetGroupMsgByPage ae rq),
      (''POST'', ''/group/create'', api_CreateGroup ae rq),
      (''POST'', ''/group/add-group'', api_AddGroup ae rq),
      (''POST'', ''/push/push-friend'', api_Push ae rq),
      (''POST'', ''/push/push-group'', api_PushRoom ae rq),
      (''POST'', ''/push/push-group-count'', \<lambda>_. api_PushRoomCount ae rq),
      (''POST'', ''/push/push-group-info'', \<lambda>_. api_PushRoomInfo ae rq)]"

fun route_of :: "string \<Rightarrow> string \<Rightarrow> (string \<times> string \<times> 'h) list \<Rightarrow> 'h option" where
  "route_of m p [] = None"
| "route_of m p ((m', p', h) # rs) = (if m = m' \<and> p = p' then Some h else route_of m p rs)"

text \<open>
  \<^verbatim>\<open>Cors\<close> comes first on every route. A path that has a route but for a slash at its end is redirected there, before
  any handler (the engine's \<^verbatim>\<open>RedirectTrailingSlash\<close>, which \<^verbatim>\<open>gin.Default\<close> sets). The two static directories are not modelled.
\<close>

definition without_slash :: "string \<Rightarrow> string option" where
  "without_slash p = (if p \<noteq> [] \<and> last p = CHR ''/'' then Some (butlast p) else None)"

definition has_route :: "('w, 'c) api_env \<Rightarrow> request \<Rightarrow> string \<Rightarrow> bool" where
  "has_route ae rq p \<longleftrightarrow> \<not> Option.is_none (route_of (rq_Method rq) p (open_routes ae rq)) \<or> \<not> Option.is_none (route_of (rq_Method rq) p (protected_routes ae rq))"

definition NoRoute_answer :: "('w, 'c) api_env \<Rightarrow> request \<Rightarrow> answer" where
  "NoRoute_answer ae rq =
     (case without_slash (rq_Path rq) of
        None \<Rightarrow> FailWithMsg ''not support the url''
      | Some p \<Rightarrow> if has_route ae rq p then Redirected (if rq_Method rq = ''GET'' then 301 else 307) p else FailWithMsg ''not support the url'')"

definition serve :: "('w, 'c) api_env \<Rightarrow> request \<Rightarrow> ('w, 'c) handling" where
  "serve ae rq =
     (if rq_Method rq = ''OPTIONS'' then State_Monad.return NoContent
      else (case route_of (rq_Method rq) (rq_Path rq) (open_routes ae rq) of
        Some h \<Rightarrow> h
      | None \<Rightarrow> (case route_of (rq_Method rq) (rq_Path rq) (protected_routes ae rq) of
          Some h \<Rightarrow> CheckSession ae rq h
        | None \<Rightarrow> State_Monad.return (NoRoute_answer ae rq))))"

end
