(* ===== verification/Access.thy ===== *)
theory Access
  imports Api Reference
begin

text \<open>
  What the HTTP interface guarantees: a protected handler runs for the user of a valid token only, every answer has a known code and
  carries data only when it reports success; and how the handlers' client is the logic layer.
\<close>

section \<open>Answers\<close>

definition answers :: "(answer \<Rightarrow> bool) \<Rightarrow> ('w, 'c) handling \<Rightarrow> bool" where
  "answers P m \<longleftrightarrow> (\<forall>s. P (fst (run_state m s)))"

named_theorems answering \<open>which answers a handler can give\<close>

lemma answers_return [answering]: "P a \<Longrightarrow> answers P (State_Monad.return a)"
  by (simp add: answers_def)

lemma answers_bind [answering]: "(\<And>x. answers P (k x)) \<Longrightarrow> answers P (State_Monad.bind m k)"
  by (auto simp: answers_def split: prod.splits)

lemma answers_if [answering]: "answers P m \<Longrightarrow> answers P n \<Longrightarrow> answers P (if c then m else n)"
  by simp

lemma answers_option [answering]: "answers P m \<Longrightarrow> (\<And>x. answers P (k x)) \<Longrightarrow> answers P (case x of None \<Rightarrow> m | Some y \<Rightarrow> k y)"
  by (cases x) auto

lemma answers_sum [answering]: "(\<And>x. answers P (j x)) \<Longrightarrow> (\<And>x. answers P (k x)) \<Longrightarrow> answers P (case x of Inl y \<Rightarrow> j y | Inr y \<Rightarrow> k y)"
  by (cases x) auto

text \<open>An answer has one of the four codes, and carries data only if it reports success.\<close>

fun well_formed :: "answer \<Rightarrow> bool" where
  "well_formed (Answer code msg dat) \<longleftrightarrow> MsgCodeMap code \<noteq> None \<and> (code \<noteq> CodeSuccess \<longrightarrow> dat = NoData)"
| "well_formed _ \<longleftrightarrow> True"

lemmas api_codes = CodeSuccess_def CodeFail_def CodeUnknownError_def CodeSessionError_def MsgCodeMap_def

lemma well_formed_answers [answering]:
  "well_formed (ResponseWithCode CodeUnknownError msg NoData)" "well_formed (ResponseWithCode CodeSessionError msg NoData)"
  "well_formed (ResponseWithCode CodeSuccess msg dat)" "well_formed (SuccessWithMsg msg dat)" "well_formed (FailWithMsg text)" "well_formed Recovered" "well_formed NoContent"
  by (simp_all add: ResponseWithCode_def SuccessWithMsg_def FailWithMsg_def api_codes)

lemma NoRoute_well_formed [answering]: "well_formed (NoRoute_answer ae rq)"
  by (simp add: NoRoute_answer_def answering split: option.splits)

lemma answers_with_form [answering]: "(\<And>f. answers well_formed (k f)) \<Longrightarrow> answers well_formed (with_form form k)"
  unfolding with_form_def by (intro answering)

lemma answers_with_userid [answering]: "(\<And>u. answers well_formed (k u)) \<Longrightarrow> answers well_formed (with_userid userid k)"
  unfolding with_userid_def by (intro answering)

lemma answers_with_logic [answering]: "(\<And>c. answers well_formed (k c)) \<Longrightarrow> answers well_formed (with_logic k)"
  unfolding with_logic_def by (intro answering)

lemma answers_call_logic:
  assumes "\<And>w r w'. run_state m w = (Inr r, w') \<Longrightarrow> answers well_formed (k r)" and "code = CodeUnknownError \<or> code = CodeSessionError"
  shows "answers well_formed (call_logic code m k)"
  using assms well_formed_answers(1,2) by (auto simp: answers_def call_logic_def split: prod.splits sum.splits)

lemma answers_call [answering]:
  "(\<And>r. answers well_formed (k r)) \<Longrightarrow> answers well_formed (call_logic CodeUnknownError m k)"
  "(\<And>r. answers well_formed (k r)) \<Longrightarrow> answers well_formed (call_logic CodeSessionError m k)"
  by (auto intro: answers_call_logic)

lemma answers_user [answering]: "answers well_formed (answer_user f reply)"
  unfolding answer_user_def by (auto simp: answers_def well_formed_answers split: option.splits)

lemma image_extension_answer: "image_extension name = Inl a \<Longrightarrow> well_formed a"
  by (auto simp: image_extension_def Let_def well_formed_answers split: option.splits if_splits)

lemma answers_store_image [answering]:
  assumes k: "\<And>n. answers well_formed (k n)"
  shows "answers well_formed (store_image ae f path k)"
proof (cases "image_extension (up_Filename f)")
  case (Inl a)
  show ?thesis
    unfolding store_image_def Inl sum.case by (intro answers_return image_extension_answer [OF Inl])
next
  case (Inr ext)
  show ?thesis
    unfolding store_image_def Let_def Inr sum.case by (intro answering k)
qed

section \<open>The client of the logic layer\<close>

text \<open>The contract the handlers rely on: \<^verbatim>\<open>Register\<close> and \<^verbatim>\<open>Login\<close> reply with the code of success.\<close>

locale logic_service =
  fixes client :: "('w, 'c) api_client"
  assumes Register_code: "run_state (ac_Register client c n p) w = (Inr r, w') \<Longrightarrow> rr_Code r = CodeSuccess"
    and Login_code: "run_state (ac_Login client c n p) w = (Inr r', w') \<Longrightarrow> lr_Code r' = CodeSuccess"
begin

lemma register_answers [answering]: "ae_client ae = client \<Longrightarrow> answers well_formed (api_Register ae rq)"
  unfolding api_Register_def
  by (intro answering answers_call_logic) (auto simp: Register_code answers_def well_formed_answers split: prod.splits sum.splits)

lemma login_answers [answering]: "ae_client ae = client \<Longrightarrow> answers well_formed (api_Login ae rq)"
  unfolding api_Login_def
  by (intro answering answers_call_logic) (auto simp: Login_code answers_def well_formed_answers)

end

lemma handler_answers [answering]:
  "answers well_formed (api_LoginOut ae rq)" "answers well_formed (api_GetUserInfoByAccessToken ae rq)"
  "answers well_formed (api_GetUserInfoByUserid ae rq)" "answers well_formed (api_UpdateUserInfo ae rq u)"
  "answers well_formed (api_UpdatePassword ae rq u)" "answers well_formed (api_SearchUser ae rq)"
  "answers well_formed (api_GetFriendMsgByPage ae rq u)" "answers well_formed (api_AddFriend ae rq u)"
  "answers well_formed (api_GetChatHistoryAfterLogin ae rq u)" "answers well_formed (api_UploadAvtar ae rq)"
  "answers well_formed (api_Push ae rq u)" "answers well_formed (api_PushRoom ae rq u)" "answers well_formed (api_PushRoomCount ae rq)"
  "answers well_formed (api_PushRoomInfo ae rq)" "answers well_formed (api_PushImgMsg ae rq)" "answers well_formed (api_SearchGroup ae rq)"
  "answers well_formed (api_GetGroupMsgByPage ae rq)" "answers well_formed (api_CreateGroup ae rq u)" "answers well_formed (api_AddGroup ae rq u)"
  unfolding api_LoginOut_def api_GetUserInfoByAccessToken_def api_GetUserInfoByUserid_def api_UpdateUserInfo_def api_UpdatePassword_def
    api_SearchUser_def api_GetFriendMsgByPage_def api_AddFriend_def api_GetChatHistoryAfterLogin_def api_UploadAvtar_def api_Push_def
    api_PushRoom_def api_PushRoomCount_def api_PushRoomInfo_def api_PushImgMsg_def push_image_def api_SearchGroup_def
    api_GetGroupMsgByPage_def api_CreateGroup_def api_AddGroup_def Let_def
  by (intro answering)+

lemma answers_CheckSession [answering]: "(\<And>u. answers well_formed (h u)) \<Longrightarrow> answers well_formed (CheckSession ae rq h)"
  unfolding CheckSession_def by (intro answering)

lemma route_of_mem: "route_of m p rs = Some h \<Longrightarrow> (m, p, h) \<in> set rs"
  by (induction m p rs rule: route_of.induct) (auto split: if_splits)

lemma serve_cases:
  obtains (preflight) "serve ae rq = State_Monad.return NoContent"
  | (open_route) h where "(rq_Method rq, rq_Path rq, h) \<in> set (open_routes ae rq)" "serve ae rq = h"
  | (protected_route) h where "(rq_Method rq, rq_Path rq, h) \<in> set (protected_routes ae rq)" "serve ae rq = CheckSession ae rq h"
  | (no_route) "serve ae rq = State_Monad.return (NoRoute_answer ae rq)"
proof (cases "rq_Method rq = ''OPTIONS''")
  case False
  then show thesis
    using that(2-4) route_of_mem
    by (cases "route_of (rq_Method rq) (rq_Path rq) (open_routes ae rq)"; cases "route_of (rq_Method rq) (rq_Path rq) (protected_routes ae rq)")
       (fastforce simp: serve_def)+
qed (use that(1) in \<open>simp add: serve_def\<close>)

lemma open_answers:
  assumes "logic_service (ae_client ae)" and "(m, p, h) \<in> set (open_routes ae rq)"
  shows "answers well_formed h"
  using assms(2) logic_service.register_answers [OF assms(1) refl] logic_service.login_answers [OF assms(1) refl]
  by (auto simp: open_routes_def handler_answers)

lemma protected_answers: "(m, p, h) \<in> set (protected_routes ae rq) \<Longrightarrow> answers well_formed (h u)"
  by (auto simp: protected_routes_def handler_answers)

text \<open>
  C27: every answer of the interface with status 200 has one of the four codes of \<^verbatim>\<open>MsgCodeMap\<close>, and one that reports an
  error carries no data.
\<close>
theorem serve_well_formed:
  assumes "logic_service (ae_client ae)" and "run_state (serve ae rq) s = (Answer code msg dat, s')"
  shows "MsgCodeMap code \<noteq> None \<and> (code \<noteq> CodeSuccess \<longrightarrow> dat = NoData)"
proof -
  have "answers well_formed (serve ae rq)"
  proof (cases rule: serve_cases [of ae rq])
    case (open_route h)
    then show ?thesis
      using open_answers [OF assms(1)] by simp
  next
    case (protected_route h)
    show ?thesis
      unfolding protected_route(2) by (intro answers_CheckSession protected_answers [OF protected_route(1)])
  qed (simp_all add: answering)
  then show ?thesis
    using assms(2) unfolding answers_def by (metis fst_conv well_formed.simps(1))
qed

section \<open>Protected routes\<close>

lemma serve_protected:
  assumes "(rq_Method rq, rq_Path rq, h) \<in> set (protected_routes ae rq)"
  shows "serve ae rq = CheckSession ae rq h"
proof -
  have "rq_Method rq \<noteq> ''OPTIONS'' \<and> route_of (rq_Method rq) (rq_Path rq) (open_routes ae rq) = None
      \<and> route_of (rq_Method rq) (rq_Path rq) (protected_routes ae rq) = Some h"
    using assms unfolding protected_routes_def open_routes_def by (simp, elim disjE conjE) simp_all
  then show ?thesis
    by (simp add: serve_def)
qed

lemma with_logic_run:
  "run_state (with_logic k) (w, l) = (a, s') \<Longrightarrow>
   (\<exists>c l1. GetLogicRpcInstance l = (Some (Inr c), l1) \<and> run_state (k c) (w, l1) = (a, s'))
   \<or> (fst s' = w \<and> (a = Recovered \<or> a = ResponseWithCode CodeUnknownError None NoData))"
  by (auto simp: with_logic_def split: prod.splits option.splits sum.splits)

lemma call_logic_run:
  "run_state (call_logic code m k) (w, l) = (a, s') \<Longrightarrow>
   (\<exists>r w1. run_state m w = (Inr r, w1) \<and> run_state (k r) (w1, l) = (a, s'))
   \<or> (\<exists>e w1. run_state m w = (Inl e, w1) \<and> s' = (w1, l) \<and> a = ResponseWithCode code None NoData)"
  by (auto simp: call_logic_def split: prod.splits sum.splits)

text \<open>
  C4: a request to a protected route is handled only if it carries a token for which the logic layer returned a user,
  and then for that user. Any other such request is answered with an error, and nothing has been done for it
  but to look up the token.
\<close>
theorem protected_needs_session:
  assumes "(rq_Method rq, rq_Path rq, h) \<in> set (protected_routes ae rq)" and "run_state (serve ae rq) (w, l) = (a, w', l')"
  shows "(\<exists>token c l1 reply u w1. session_token rq = Some token \<and> GetLogicRpcInstance l = (Some (Inr c), l1)
        \<and> run_state (ac_GetUserInfoByAccessToken (ae_client ae) c token) w = (Inr reply, w1) \<and> ui_User reply = Some u
        \<and> run_state (h (Some (pu_Id u))) (w1, l1) = (a, w', l'))
    \<or> ((a = ResponseWithCode CodeSessionError None NoData \<or> a = ResponseWithCode CodeUnknownError None NoData \<or> a = Recovered)
        \<and> (w' = w \<or> (\<exists>token c r. session_token rq = Some token
             \<and> run_state (ac_GetUserInfoByAccessToken (ae_client ae) c token) w = (r, w'))))"
proof (cases "session_token rq")
  case None
  then show ?thesis
    using assms(2) serve_protected [OF assms(1)] by (auto simp: CheckSession_def)
next
  case (Some token)
  have "run_state (with_logic (\<lambda>c. call_logic CodeSessionError (ac_GetUserInfoByAccessToken (ae_client ae) c token)
      (\<lambda>reply. case ui_User reply of None \<Rightarrow> State_Monad.return Recovered | Some u \<Rightarrow> h (Some (pu_Id u))))) (w, l) = (a, w', l')"
    using assms(2) serve_protected [OF assms(1)] by (simp add: CheckSession_def Some)
  then show ?thesis
    using Some by (auto dest!: with_logic_run call_logic_run split: option.splits)
qed

section \<open>The interface on top of the logic layer\<close>

text \<open>The errors of the handlers of the logic layer come over the wire as text.\<close>

definition over_rpc :: "('w, 'e + 'a) state \<Rightarrow> ('w, string + 'a) state" where
  "over_rpc m = do { r \<leftarrow> m; State_Monad.return (map_sum (\<lambda>_. ''rpc error'') id r) }"

definition logic_direct :: "'w logic_env \<Rightarrow> ('w \<times> KafkaProducerConn, 'c) api_client" where
  "logic_direct e =
     \<lparr>ac_Register = (\<lambda>c n p. outside (over_rpc (logic_Register e n p))),
      ac_Login = (\<lambda>c n p. outside (over_rpc (logic_Login e n p))),
      ac_LoginOut = (\<lambda>c t. outside (over_rpc (logic_LoginOut e t))),
      ac_GetUserInfoByAccessToken = (\<lambda>c t. outside (over_rpc (logic_GetUserInfoByAccessToken e t))),
      ac_GetUserInfoByUserid = (\<lambda>c u. outside (over_rpc (logic_GetUserInfoByUserid e u))),
      ac_UpdateUserInfo = (\<lambda>c u. outside (over_rpc (logic_UpdateUserInfo e (Some u)))),
      ac_UpdatePassword = (\<lambda>c u o' n1 n2. outside (over_rpc (logic_UpdatePassword e u o' n1 n2))),
      ac_SearchUser = (\<lambda>c n. outside (over_rpc (logic_SearchUser e n))),
      ac_GetFriendMsgByPage = (\<lambda>c f u cur size. outside (over_rpc (logic_GetFriendMsgByPage e f u cur size))),
      ac_AddFriend = (\<lambda>c u f. outside (over_rpc (logic_AddFriend e u f))),
      ac_AfterLogin = (\<lambda>c u. outside (over_rpc (logic_AfterLogin e u))),
      ac_SearchGroup = (\<lambda>c n. outside (over_rpc (logic_SearchGroup e n))),
      ac_GetGroupMsgByPage = (\<lambda>c g cur size. outside (over_rpc (logic_GetGroupMsgByPage e g cur size))),
      ac_CreateGroup = (\<lambda>c g. outside (over_rpc (logic_CreateGroup e g))),
      ac_AddGroup = (\<lambda>c u g. outside (over_rpc (logic_AddGroup e u g))),
      ac_Push = (\<lambda>c m. over_rpc (rpc_Push e (Some m))),
      ac_PushRoom = (\<lambda>c m. over_rpc (rpc_PushRoom e (Some m))),
      ac_PushRoomCount = (\<lambda>c g. outside (over_rpc (rpc_PushRoomCount e g))),
      ac_PushRoomInfo = (\<lambda>c g. outside (over_rpc (rpc_PushRoomInfo e g)))\<rparr>"

lemma over_rpc_Inr: "run_state (over_rpc m) w = (Inr a, w') \<longleftrightarrow> run_state m w = (Inr a, w')"
  by (cases "fst (run_state m w)") (auto simp: over_rpc_def split: prod.splits)

lemma outside_Inr: "run_state (outside (over_rpc m)) (w, s) = (Inr a, w', s') \<longleftrightarrow> run_state m w = (Inr a, w') \<and> s' = s"
  using over_rpc_Inr [of m w a w'] by (auto split: prod.splits)

lemma case_sum_Inr: "(case x of Inl err \<Rightarrow> Inl (f err) | Inr y \<Rightarrow> Inr (g y)) = Inr r \<longleftrightarrow> (\<exists>y. x = Inr y \<and> r = g y)"
  by (cases x) auto

lemma register_code: "run_state (logic_Register e n p) v = (Inr r, v') \<Longrightarrow> rr_Code r = CodeSuccess"
  by (auto simp: logic_Register_def bind_run case_sum_Inr SuccessReplyCode_def CodeSuccess_def simp del: run_state_bind split: if_splits)

lemma login_code: "run_state (logic_Login e n p) v = (Inr r, v') \<Longrightarrow> lr_Code r = CodeSuccess"
  by (auto simp: logic_Login_def or_fail_Inr bind_run SuccessReplyCode_def CodeSuccess_def simp del: run_state_bind split: if_splits)

interpretation direct: logic_service "logic_direct e :: ('w \<times> KafkaProducerConn, 'c) api_client" for e :: "'w logic_env"
proof
  fix c :: 'c and n p and w w' :: "'w \<times> KafkaProducerConn" and r
  assume "run_state (ac_Register (logic_direct e) c n p) w = (Inr r, w')"
  then show "rr_Code r = CodeSuccess"
    by (cases w; cases w') (auto simp: logic_direct_def outside_Inr simp del: run_outside dest: register_code)
next
  fix c :: 'c and n p and w w' :: "'w \<times> KafkaProducerConn" and r
  assume "run_state (ac_Login (logic_direct e) c n p) w = (Inr r, w')"
  then show "lr_Code r = CodeSuccess"
    by (cases w; cases w') (auto simp: logic_direct_def outside_Inr simp del: run_outside dest: login_code)
qed

lemma not_success:
  "SuccessWithMsg None dat \<noteq> Recovered" "ResponseWithCode CodeUnknownError None NoData \<noteq> SuccessWithMsg None dat"
  "ResponseWithCode CodeSessionError None NoData \<noteq> SuccessWithMsg None dat" "FailWithMsg text \<noteq> SuccessWithMsg None dat"
  by (simp_all add: SuccessWithMsg_def FailWithMsg_def ResponseWithCode_def api_codes)

lemma CheckSession_success:
  assumes "run_state (CheckSession ae rq h) (w, l) = (SuccessWithMsg None dat, w', l')"
  obtains t c l1 reply u w1 where "session_token rq = Some t"
    "run_state (ac_GetUserInfoByAccessToken (ae_client ae) c t) w = (Inr reply, w1)" "ui_User reply = Some u"
    "run_state (h (Some (pu_Id u))) (w1, l1) = (SuccessWithMsg None dat, w', l')"
proof (cases "session_token rq")
  case None
  then show ?thesis
    using assms not_success(3) [of dat] by (simp add: CheckSession_def)
next
  case (Some t)
  have "run_state (with_logic (\<lambda>c. call_logic CodeSessionError (ac_GetUserInfoByAccessToken (ae_client ae) c t)
      (\<lambda>reply. case ui_User reply of None \<Rightarrow> State_Monad.return Recovered | Some u \<Rightarrow> h (Some (pu_Id u))))) (w, l)
      = (SuccessWithMsg None dat, w', l')"
    using assms by (simp add: CheckSession_def Some)
  then show ?thesis
    using that [OF Some] not_success(1-3) [of dat] by (auto dest!: with_logic_run call_logic_run split: option.splits)
qed

lemma api_Push_success:
  assumes "run_state (api_Push ae rq (Some u)) (w, l) = (SuccessWithMsg None dat, w', l')"
  obtains form c now w1 m where "bind_pushReq rq = Some form" "run_state (ae_now ae) w = (now, w1)"
    "run_state (ac_Push (ae_client ae) c m) w1 = (Inr (), w')" "cm_Userid m = u" "cm_FriendId m = pf_FriendId form"
    "cm_Content m = pf_Content form"
proof -
  obtain form where form: "bind_pushReq rq = Some form"
    using assms not_success by (cases "bind_pushReq rq") (auto simp: api_Push_def with_form_def)
  obtain now w1 where now: "run_state (ae_now ae) w = (now, w1)"
    by (metis surj_pair)
  let ?m = "zero_ChatMessage\<lparr>cm_Userid := u, cm_FriendId := pf_FriendId form, cm_Content := pf_Content form,
          cm_MessageType := pf_MessageType form, cm_FromUsername := pf_FromUsername form, cm_FriendName := pf_FriendName form,
          cm_Avatar := pf_Avatar form, cm_CreateAt := format_rfc3339 now, cm_Watermark := pf_Watermark form\<rparr>"
  let ?answer = "\<lambda>_ :: unit. State_Monad.return (SuccessWithMsg None (StrData ''success''))"
  have "run_state (with_logic (\<lambda>c. State_Monad.bind (outside (ae_now ae)) (\<lambda>now. call_logic CodeUnknownError (ac_Push (ae_client ae) c
       (zero_ChatMessage\<lparr>cm_Userid := u, cm_FriendId := pf_FriendId form, cm_Content := pf_Content form,
          cm_MessageType := pf_MessageType form, cm_FromUsername := pf_FromUsername form, cm_FriendName := pf_FriendName form,
          cm_Avatar := pf_Avatar form, cm_CreateAt := format_rfc3339 now, cm_Watermark := pf_Watermark form\<rparr>)) ?answer))) (w, l)
      = (SuccessWithMsg None dat, w', l')"
    using assms by (simp add: api_Push_def with_form_def with_userid_def form)
  then obtain c l1 where "run_state (call_logic CodeUnknownError (ac_Push (ae_client ae) c ?m) ?answer) (w1, l1) = (SuccessWithMsg None dat, w', l')"
    using now not_success(1) [of dat] not_success(2) [of dat] by (auto dest!: with_logic_run)
  then have "run_state (ac_Push (ae_client ae) c ?m) w1 = (Inr (), w')"
    using not_success(2) [of dat] by (auto dest!: call_logic_run)
  then show ?thesis
    by (rule that [OF form now]) (simp_all add: zero_ChatMessage_def)
qed

text \<open>The name of an uploaded file is taken apart at its dots, and only the part after the first one is looked at.\<close>

lemma image_extension_dots:
  assumes "CHR ''.'' \<notin> set a"
  shows "image_extension a = Inl Recovered"
    and "CHR ''.'' \<notin> set b \<Longrightarrow> image_extension (a @ ''.'' @ b) = Inr b"
    and "CHR ''.'' \<notin> set b \<Longrightarrow> b \<in> {''png'', ''gif'', ''jpg''} \<Longrightarrow> image_extension (a @ ''.'' @ b @ ''.'' @ c) = Inr b"
    and "CHR ''.'' \<notin> set b \<Longrightarrow> b \<notin> {''png'', ''gif'', ''jpg''} \<Longrightarrow> image_extension (a @ ''.'' @ b @ ''.'' @ c) = Inl (FailWithMsg MsgBadImage)"
  using assms by (auto simp: image_extension_def Split_no_sep Split_append Let_def index_def)

text \<open>
  An image whose name has exactly one dot is stored, whatever its extension is; the three extensions are asked for only when
  the name has more than one dot, and then of the part after the first. A name without a dot makes the handler panic.
\<close>
theorem any_extension_stored:
  assumes "CHR ''.'' \<notin> set a" and "CHR ''.'' \<notin> set b" and "up_opens f" and "up_data f = Some d"
  shows "(up_Filename f = a @ ''.'' @ b \<longrightarrow> run_state (ae_MkdirAll ae dir) w = (None, w1) \<longrightarrow>
        run_state (ae_SaveUploadedFile ae f (dir @ ae_md5 ae d @ ''.'' @ b)) w1 = (None, w2) \<longrightarrow>
        run_state (store_image ae f (Some dir) k) (w, l) = run_state (k (ae_md5 ae d @ ''.'' @ b)) (w2, l))
    \<and> (up_Filename f = a @ ''.'' @ b @ ''.'' @ c \<longrightarrow> b \<notin> {''png'', ''gif'', ''jpg''} \<longrightarrow>
        run_state (store_image ae f (Some dir) k) (w, l) = (FailWithMsg MsgBadImage, w, l))
    \<and> (up_Filename f = a \<longrightarrow> run_state (store_image ae f (Some dir) k) (w, l) = (Recovered, w, l))"
  using image_extension_dots [OF assms(1)] assms(2-4) by (auto simp: store_image_def Let_def)

section \<open>The small server behind the interface\<close>

definition no_db :: "'w gorm_api" where
  "no_db = \<lparr>g_First_user = (\<lambda>q. unsupported), g_First_group = (\<lambda>q. unsupported), g_First_relation = (\<lambda>q. unsupported),
     g_Find_users = (\<lambda>q. unsupported), g_Find_groups = (\<lambda>q. unsupported), g_Find_relations = (\<lambda>q. unsupported),
     g_Find_friend_messages = (\<lambda>q. unsupported), g_Find_group_messages = (\<lambda>q. unsupported), g_Create_user = unsupported,
     g_Create_group = unsupported, g_Create_relation = unsupported, g_Updates_Find_user = unsupported, g_Updates_group = unsupported,
     g_Update_user = (\<lambda>q c v. State_Monad.return (Some (DbError ''not supported''))), g_CreateInBatches = (\<lambda>ms n. State_Monad.return None)\<rparr>"

definition ref_api :: "(chat_world \<times> KafkaProducerConn, nat) api_env" where
  "ref_api = \<lparr>ae_client = logic_direct ref_env, ae_db = no_db, ae_now = State_Monad.return zero_time,
     ae_MkdirAll = (\<lambda>_. State_Monad.return None), ae_SaveUploadedFile = (\<lambda>_ _. State_Monad.return None), ae_md5 = (\<lambda>s. ''m''),
     ae_Host = ''h'', ae_ChatImgDir = ''c/'', ae_AvatarImgDir = ''a/''\<rparr>"

definition ref_link :: "nat api_link" where
  "ref_link = \<lparr>ap_discovery = \<lparr>sd_serverList = [''logic'' \<mapsto> [1]], sd_indexMap = [''logic'' \<mapsto> 0], sd_serverKey = Map.empty\<rparr>,
     ap_serverId = ''logic''\<rparr>"

definition send_hello :: "request" where
  "send_hello = \<lparr>rq_Method = ''POST'', rq_Path = ''/push/push-friend'',
     rq_json = Some (JObj [(''accessToken'', JStr ''t''), (''friendId'', JNum 2), (''content'', JStr ''hello''), (''messageType'', JStr ''text''),
       (''fromUsername'', JStr ''ada''), (''friendName'', JStr ''bob''), (''avatar'', JStr ''a''), (''watermark'', JNum 1)]),
     rq_form = Map.empty, rq_file = Map.empty\<rparr>"

lemma ref_link_found: "\<exists>l. GetLogicRpcInstance ref_link = (Some (Inr 1), l) \<and> ap_serverId l = ''logic''"
  by (simp add: GetLogicRpcInstance_def ref_link_def GetServiceByServerId_def get_read_def get_advance_def)

lemma hello_bound:
  "session_token send_hello = Some ''t''"
  "bind_pushReq send_hello = Some \<lparr>pf_FriendId = 2, pf_Content = ''hello'', pf_MessageType = ''text'', pf_FromUsername = ''ada'',
     pf_FriendName = ''bob'', pf_Avatar = ''a'', pf_Watermark = 1\<rparr>"
  by code_simp+

lemma ada_session:
  "\<exists>v. run_state (ac_GetUserInfoByAccessToken (logic_direct ref_env) c ''t'') (logged_in, p)
       = (Inr \<lparr>ui_Code = 0, ui_User = Some v\<rparr>, logged_in, p) \<and> pu_Id v = 5"
proof -
  obtain v where "fst (Unmarshal (dec_pointer dec_proto_User zero_User) (json_print (enc_user ada)) None) = Some v" "pu_Id v = 5"
    using session_user [OF ada_row] by auto
  then have "run_state (logic_GetUserInfoByAccessToken ref_env ''t'') logged_in = (Inr \<lparr>ui_Code = 0, ui_User = Some v\<rparr>, logged_in)"
    by (simp add: logic_GetUserInfoByAccessToken_def or_fail_def session_get json_print_obj_not_Nil SuccessReplyCode_def)
  then show ?thesis
    using \<open>pu_Id v = 5\<close> by (simp add: logic_direct_def outside_Inr del: run_outside)
qed

lemma ref_push_runs:
  "\<exists>w' p'. run_state (ac_Push (logic_direct ref_env) c m) (logged_in, no_producers) = (Inr (), w', p')"
proof -
  have "\<exists>w' p'. run_state (rpc_Push ref_env (Some m)) (logged_in, no_producers) = (Inr (), w', p')"
    by (simp add: rpc_Push_def or_fail_def logic_Push_def produce_twice_def TopicProduce_def getProducerConn_def topic_for_def
        mem_kafka_def no_producers_def mem_conn_def Let_def ref_env_def op_defs put_conn_def)
  then show ?thesis
    by (simp add: logic_direct_def over_rpc_Inr)
qed

lemma hello_route: "(rq_Method send_hello, rq_Path send_hello, api_Push ae send_hello) \<in> set (protected_routes ae send_hello)"
  by (simp add: protected_routes_def send_hello_def)

lemma hello_served:
  "\<exists>w' p' l'. run_state (serve ref_api send_hello) ((logged_in, no_producers), ref_link)
     = (SuccessWithMsg None (StrData ''success''), (w', p'), l')"
proof -
  obtain l where l: "GetLogicRpcInstance ref_link = (Some (Inr 1), l)" "GetLogicRpcInstance l = (Some (Inr 1), l)"
    by (simp add: GetLogicRpcInstance_def ref_link_def GetServiceByServerId_def get_read_def get_advance_def at_index_def at_list_def)
  obtain v where v: "run_state (ac_GetUserInfoByAccessToken (logic_direct ref_env) (1 :: nat) ''t'') (logged_in, no_producers)
       = (Inr \<lparr>ui_Code = 0, ui_User = Some v\<rparr>, logged_in, no_producers)"
    using ada_session [where c = "1 :: nat" and p = no_producers] by blast
  have client: "ae_client ref_api = logic_direct ref_env" "ae_now ref_api = State_Monad.return zero_time"
    by (simp_all add: ref_api_def)
  let ?m = "zero_ChatMessage\<lparr>cm_Userid := pu_Id v, cm_FriendId := 2, cm_Content := ''hello'', cm_MessageType := ''text'',
     cm_FromUsername := ''ada'', cm_FriendName := ''bob'', cm_Avatar := ''a'', cm_CreateAt := format_rfc3339 zero_time, cm_Watermark := 1\<rparr>"
  obtain w' p' where push: "run_state (ac_Push (logic_direct ref_env) (1 :: nat) ?m) (logged_in, no_producers) = (Inr (), w', p')"
    using ref_push_runs [where c = "1 :: nat" and m = ?m] by blast
  have "run_state (api_Push ref_api send_hello (Some (pu_Id v))) ((logged_in, no_producers), l)
      = (SuccessWithMsg None (StrData ''success''), (w', p'), l)"
    by (simp add: api_Push_def hello_bound with_form_def with_userid_def with_logic_def l(2) call_logic_def client push [simplified])
  then have "run_state (CheckSession ref_api send_hello (api_Push ref_api send_hello)) ((logged_in, no_producers), ref_link)
      = (SuccessWithMsg None (StrData ''success''), (w', p'), l)"
    by (simp add: CheckSession_def hello_bound with_logic_def l(1) call_logic_def client v [simplified])
  then show ?thesis
    unfolding serve_protected [OF hello_route] by blast
qed

theorem protected_needs_session_witness:
  "\<exists>c reply u w1 w' l1 l'. session_token send_hello = Some ''t''
     \<and> run_state (ac_GetUserInfoByAccessToken (ae_client ref_api) c ''t'') (logged_in, no_producers) = (Inr reply, w1)
     \<and> ui_User reply = Some u
     \<and> run_state (api_Push ref_api send_hello (Some (pu_Id u))) (w1, l1) = (SuccessWithMsg None (StrData ''success''), w', l')"
proof -
  obtain w' p' l' where "run_state (serve ref_api send_hello) ((logged_in, no_producers), ref_link)
     = (SuccessWithMsg None (StrData ''success''), (w', p'), l')"
    using hello_served by blast
  from protected_needs_session [OF hello_route this] show ?thesis
    unfolding hello_bound option.inject using not_success(1) not_success(2,3) [THEN not_sym] by (elim disjE conjE exE) (blast, simp_all)
qed

theorem serve_well_formed_witness:
  "run_state (serve ref_api (send_hello\<lparr>rq_json := None\<rparr>)) ((nobody, no_producers), ref_link)
     = (Answer 40100 ''invalid session'' NoData, (nobody, no_producers), ref_link) \<and> MsgCodeMap 40100 \<noteq> None"
proof -
  have "logic_service (ae_client ref_api)"
    using direct.logic_service_axioms by (simp add: ref_api_def)
  moreover have "session_token (send_hello\<lparr>rq_json := None\<rparr>) = None"
    by code_simp
  then have "run_state (serve ref_api (send_hello\<lparr>rq_json := None\<rparr>)) ((nobody, no_producers), ref_link)
     = (Answer 40100 ''invalid session'' NoData, (nobody, no_producers), ref_link)"
    using serve_protected [of "send_hello\<lparr>rq_json := None\<rparr>"  "api_Push ref_api (send_hello\<lparr>rq_json := None\<rparr>)" ref_api]
    by (simp add: CheckSession_def ResponseWithCode_def api_codes protected_routes_def send_hello_def)
  ultimately show ?thesis
    using serve_well_formed by blast
qed

definition tool :: upload where
  "tool = \<lparr>up_Filename = ''tool.exe'', up_opens = True, up_data = Some ''MZ''\<rparr>"

theorem any_extension_stored_witness:
  "run_state (store_image ref_api tool (Some ''d/'') (\<lambda>n. State_Monad.return (SuccessWithMsg None (StrData n)))) ((nobody, no_producers), ref_link)
     = (SuccessWithMsg None (StrData ''m.exe''), (nobody, no_producers), ref_link)"
  using any_extension_stored [of "''tool''" "''exe''" tool "''MZ''" ref_api "''d/''" "(nobody, no_producers)" "(nobody, no_producers)"
      "(nobody, no_producers)" "\<lambda>n. State_Monad.return (SuccessWithMsg None (StrData n))" ref_link]
  by (simp add: tool_def ref_api_def)

end
