(* ===== verification/Startup.thy ===== *)
theory Startup
  imports Api Pumps Topics Task
begin

text \<open>
  Start-up: the configuration (\<^verbatim>\<open>config/config.go\<close>), the choice of the layer (\<^verbatim>\<open>cmd/root.go\<close>), and what each layer does before it serves
  (\<^verbatim>\<open>logic/logic.go\<close>, \<^verbatim>\<open>connect/connect.go\<close>, \<^verbatim>\<open>connect/websocket.go\<close>, \<^verbatim>\<open>connect/rpc.go\<close>, \<^verbatim>\<open>task/task.go\<close>, \<^verbatim>\<open>task/rpc.go\<close>, \<^verbatim>\<open>api/chat.go\<close>,
  \<^verbatim>\<open>api/rpc/rpc.go\<close>). Viper, the network, gRPC, etcd and the UUID library are parameters. A panic is \<^term>\<open>Inl\<close> with its text. What a layer
  starts with \<^verbatim>\<open>go\<close> is the subject of the theories that model it; here it is the state it starts from.
\<close>

section \<open>Configuration\<close>

record Config =
  cf_DbAddress :: string
  cf_DbUsername :: string
  cf_DbPassword :: string
  cf_DbName :: string
  cf_InitModel :: bool
  cf_RedisAddress :: string
  cf_RedisPassword :: string
  cf_RedisDb :: int
  cf_KafkaAddress :: string
  cf_KafkaUsername :: string
  cf_KafkaPassword :: string
  cf_EtcdAddress :: string
  cf_BasePath :: string
  cf_ServerPathLogic :: string
  cf_ServerPathConnect :: string
  cf_EtcdUsername :: string
  cf_EtcdPassword :: string
  cf_ConnectionTimeout :: int
  cf_ApiHost :: string
  cf_ApiPort :: int
  cf_ChatImgDir :: string
  cf_AvatarImgDir :: string
  cf_DefaultAvatar :: string
  cf_LogicServerId :: string
  cf_LogicHost :: string
  cf_LogicRpcAddress :: string
  cf_LogicCerPath :: string
  cf_LogicKeyPath :: string
  cf_CpuNum :: int
  cf_WsHost :: string
  cf_WsBind :: string
  cf_WsRpcAddress :: string
  cf_WsCerPath :: string
  cf_WsKeyPath :: string

text \<open>The value of \<^verbatim>\<open>RUN_MODE\<close>, empty when it is not set.\<close>

definition GetRunMode :: "string \<Rightarrow> string" where
  "GetRunMode env = (if env = [] then ''dev'' else env)"

definition GetGinRunMode :: "string \<Rightarrow> string" where
  "GetGinRunMode env =
     (let env = GetRunMode env
      in if env = ''dev'' then ''debug'' else if env = ''test'' then ''debug'' else if env = ''prod'' then ''release'' else ''release'')"

text \<open>\<^verbatim>\<open>strings.StringsJoin\<close>, and the directory of the file that \<^verbatim>\<open>runtime.Caller\<close> names.\<close>

fun StringsJoin :: "string \<Rightarrow> string list \<Rightarrow> string" where
  "StringsJoin sep [] = []"
| "StringsJoin sep [x] = x"
| "StringsJoin sep (x # y # zs) = x @ sep @ StringsJoin sep (y # zs)"

definition GetCurrentDirPath :: "string \<Rightarrow> string" where
  "GetCurrentDirPath filename = (let aPath = Split (CHR ''/'') filename in StringsJoin ''/'' (take (length aPath - 1) aPath))"

text \<open>The library that reads the configuration: a file is read or merged by its directory and name.\<close>

record 'w viper_api =
  vi_ReadConfig :: "string \<Rightarrow> string \<Rightarrow> ('w, string + unit) state"
  vi_Unmarshal :: "('w, Config) state"
  vi_MkdirAll :: "string \<Rightarrow> ('w, string option) state"

text \<open>\<^verbatim>\<open>once.Do\<close>: the second component is the configuration once it has been read.\<close>

definition InitConfig :: "'w viper_api \<Rightarrow> string \<Rightarrow> string \<Rightarrow> ('w \<times> Config option, string + unit) state" where
  "InitConfig api env filename = do {
     done \<leftarrow> inside (\<lambda>c. (c \<noteq> None, c));
     (if done then State_Monad.return (Inr ())
      else (let configFilePath = GetCurrentDirPath filename @ ''/'' @ GetRunMode env @ ''/''
            in then_do (outside (for_each (vi_ReadConfig api configFilePath) [''api'', ''common'', ''connect'', ''logic''])) (\<lambda>_. do {
              conf \<leftarrow> outside (vi_Unmarshal api);
              _ \<leftarrow> inside (\<lambda>_. ((), Some conf));
              _ \<leftarrow> outside (vi_MkdirAll api (cf_ChatImgDir conf));
              _ \<leftarrow> outside (vi_MkdirAll api (cf_AvatarImgDir conf));
              State_Monad.return (Inr ())
            })))
   }"

section \<open>Services and their registration\<close>

record ('w, 'c) boot_env =
  bo_etcd :: "'w etcd_api"
  bo_Get :: "nat \<Rightarrow> string \<Rightarrow> ('w, string + (string \<times> string) list) state" \<comment> \<open>\<^verbatim>\<open>cli.Get\<close> with \<^verbatim>\<open>WithPrefix\<close>\<close>
  bo_Dial :: "string \<Rightarrow> string + 'c"
  bo_Listen :: "string \<Rightarrow> string \<Rightarrow> ('w, string + nat) state"
  bo_Serve :: "nat \<Rightarrow> ('w, unit) state"
  bo_Uuid :: "('w, string) state"

text \<open>Both layers register alike; \<^verbatim>\<open>strings.Split\<close> never returns an empty slice. A lease lives 6 seconds, the client waits 10.\<close>

definition register_at :: "('w, 'c) boot_env \<Rightarrow> Config \<Rightarrow> string \<Rightarrow> string \<Rightarrow> string \<Rightarrow> ('w, string + unit) state" where
  "register_at be conf serverPath address serverId =
     (let endpoint = Split (CHR '';'') (cf_EtcdAddress conf)
      in if length endpoint = 0 then State_Monad.return (Inl ''at least one ETCD service is required !'')
         else then_do (NewServiceRegister (bo_etcd be) endpoint (service_key (cf_BasePath conf) serverPath serverId address) address 6 10)
                (\<lambda>_. State_Monad.return (Inr ())))"

definition logic_registerServer2Etcd :: "('w, 'c) boot_env \<Rightarrow> Config \<Rightarrow> string \<Rightarrow> string \<Rightarrow> ('w, string + unit) state" where
  "logic_registerServer2Etcd be conf address serverId = register_at be conf (cf_ServerPathLogic conf) address serverId"

definition connect_registerServer2Etcd :: "('w, 'c) boot_env \<Rightarrow> Config \<Rightarrow> string \<Rightarrow> string \<Rightarrow> ('w, string + unit) state" where
  "connect_registerServer2Etcd be conf address serverId = register_at be conf (cf_ServerPathConnect conf) address serverId"

text \<open>An address of the form \<^verbatim>\<open>network@port\<close> is listened on, served, and registered under the host of the layer.\<close>

definition init_rpc_server ::
  "('w, 'c) boot_env \<Rightarrow> (string \<Rightarrow> string \<Rightarrow> ('w, string + unit) state) \<Rightarrow> string \<Rightarrow> string \<Rightarrow> string \<Rightarrow> ('w, string + unit) state" where
  "init_rpc_server be register host address serverId =
     (case Split (CHR ''@'') address of
        [network, port] \<Rightarrow> then_do (bo_Listen be network ('':'' @ port)) (\<lambda>lis. do {
          _ \<leftarrow> bo_Serve be lis;
          register (host @ '':'' @ port) serverId
        })
      | _ \<Rightarrow> State_Monad.return (Inl ''the address is not suitable the rule network@port''))"

definition initLogicRpcServer :: "('w, 'c) boot_env \<Rightarrow> Config \<Rightarrow> string \<Rightarrow> string \<Rightarrow> ('w, string + unit) state" where
  "initLogicRpcServer be conf = init_rpc_server be (logic_registerServer2Etcd be conf) (cf_LogicHost conf)"

definition initConnectRpcServer :: "('w, 'c) boot_env \<Rightarrow> Config \<Rightarrow> string \<Rightarrow> string \<Rightarrow> ('w, string + unit) state" where
  "initConnectRpcServer be conf = init_rpc_server be (connect_registerServer2Etcd be conf) (cf_WsHost conf)"

definition logic_Run :: "('w, 'c) boot_env \<Rightarrow> Config \<Rightarrow> ('w, string + unit) state" where
  "logic_Run be conf =
     for_each (\<lambda>val. initLogicRpcServer be conf val (cf_LogicServerId conf)) (Split (CHR '';'') (cf_LogicRpcAddress conf))"

section \<open>Clients\<close>

text \<open>
  A new discovery that watches a prefix; it starts from the services found there. The first component of the result is the error of
  \<^verbatim>\<open>WatchService\<close>, after which the discovery is empty.
\<close>

definition watch_prefix ::
  "('w, 'c) boot_env \<Rightarrow> Config \<Rightarrow> string \<Rightarrow> ('w, string + string option \<times> 'c ServiceDiscovery) state" where
  "watch_prefix be conf serverPath =
     then_do (et_New (bo_etcd be) (Split (CHR '';'') (cf_EtcdAddress conf)) 10000000000) (\<lambda>cli. do {
       resp \<leftarrow> bo_Get be cli (cf_BasePath conf @ ''/'' @ serverPath);
       State_Monad.return (case resp of
         Inl e \<Rightarrow> Inr (Some e, NewServiceDiscovery)
       | Inr kvs \<Rightarrow> (case WatchService (bo_Dial be) kvs [] NewServiceDiscovery of
           None \<Rightarrow> Inl ''index out of range''
         | Some d \<Rightarrow> Inr (None, d)))
     })"

text \<open>The logic layer's clients look an instance up once; the lookup may fail but it takes a turn.\<close>

definition first_lookup :: "string \<Rightarrow> 'c ServiceDiscovery \<Rightarrow> string + 'c option \<times> 'c ServiceDiscovery" where
  "first_lookup serverId d =
     (case GetServiceByServerId serverId d of
        None \<Rightarrow> Inl ''integer divide by zero''
      | Some (Inl _, d') \<Rightarrow> Inr (None, d')
      | Some (Inr c, d') \<Rightarrow> Inr (Some c, d'))"

definition logic_discovery :: "('w, 'c) boot_env \<Rightarrow> Config \<Rightarrow> ('w, string + 'c option \<times> 'c ServiceDiscovery) state" where
  "logic_discovery be conf =
     then_do (watch_prefix be conf (cf_ServerPathLogic conf)) (\<lambda>r.
       State_Monad.return (case r of
         (Some e, _) \<Rightarrow> Inl e
       | (None, d) \<Rightarrow> first_lookup (cf_LogicServerId conf) d))"

definition api_InitLogicClient :: "('w, 'c) boot_env \<Rightarrow> Config \<Rightarrow> ('w, string + 'c api_link) state" where
  "api_InitLogicClient be conf =
     then_do (logic_discovery be conf) (\<lambda>(_, d).
       State_Monad.return (Inr \<lparr>ap_discovery = d, ap_serverId = cf_LogicServerId conf\<rparr>))"

definition connect_InitLogicClient :: "('w, 'c) boot_env \<Rightarrow> Config \<Rightarrow> ('w, string + 'c LogicRpcInstance) state" where
  "connect_InitLogicClient be conf =
     then_do (logic_discovery be conf) (\<lambda>(ins, d).
       State_Monad.return (Inr \<lparr>ll_discovery = d, ll_serverId = cf_LogicServerId conf, ll_ins = ins\<rparr>))"

text \<open>The task layer only logs the error of \<^verbatim>\<open>WatchService\<close>.\<close>

definition InitConnectRpcClient :: "('w, 'c) boot_env \<Rightarrow> Config \<Rightarrow> ('w, string + 'c task_state) state" where
  "InitConnectRpcClient be conf =
     then_do (watch_prefix be conf (cf_ServerPathConnect conf)) (\<lambda>(_, d).
       State_Monad.return (Inr \<lparr>ts_discovery = d, ts_ins = None\<rparr>))"

section \<open>The layers\<close>

text \<open>\<^verbatim>\<open>make\<close> panics for a negative length, and so may \<^verbatim>\<open>NewBucket\<close>.\<close>

definition new_buckets :: "int \<Rightarrow> Bucket list option" where
  "new_buckets n = (if n < 0 then None else those (replicate (nat n) (NewBucket [])))"

record 'c connect_boot =
  cb_ServerId :: string
  cb_server :: WsServer
  cb_link :: "'c LogicRpcInstance"

definition connect_Run :: "('w, 'c) boot_env \<Rightarrow> Config \<Rightarrow> ('w, string + 'c connect_boot) state" where
  "connect_Run be conf =
     then_do (connect_InitLogicClient be conf) (\<lambda>link.
       (case new_buckets (cf_CpuNum conf) of
          None \<Rightarrow> State_Monad.return (Inl ''makeslice: len out of range'')
        | Some buckets \<Rightarrow> do {
            uuid \<leftarrow> bo_Uuid be;
            (let serverId = ''ws-'' @ uuid
             in then_do (for_each (\<lambda>val. initConnectRpcServer be conf val serverId) (Split (CHR '';'') (cf_WsRpcAddress conf))) (\<lambda>_.
                  State_Monad.return (Inr \<lparr>cb_ServerId = serverId, cb_server = NewServer buckets [], cb_link = link\<rparr>)))
          }))"

text \<open>
  The handler of \<^verbatim>\<open>/ws\<close>: a request that can be upgraded gets a fresh channel, and its two pumps start. \<^term>\<open>None\<close> for the upgrade is its error.
  The result is the channel, or \<^term>\<open>None\<close> for a panic.
\<close>

definition StartWebSocket_accept :: "nat option \<Rightarrow> conn_state \<Rightarrow> ((nat \<times> cref) option \<times> conn_state) option" where
  "StartWebSocket_accept upgraded s =
     (case upgraded of
        None \<Rightarrow> Some (None, s)
      | Some conn \<Rightarrow> (case s of (ws, h) \<Rightarrow>
          (case NewChannel (BroadcastSize (ws_Options ws)) h of
             None \<Rightarrow> None
           | Some (c, h') \<Rightarrow> Some (Some (conn, c), ws, h'))))"

record 'c task_boot =
  tb_state :: "'c task_state"
  tb_topics :: topics
  tb_channels :: push_channels

definition task_Run :: "('w, 'c) boot_env \<Rightarrow> Config \<Rightarrow> ('w, string + 'c task_boot) state" where
  "task_Run be conf =
     then_do (InitConnectRpcClient be conf) (\<lambda>ts.
       State_Monad.return (Inr \<lparr>tb_state = ts, tb_topics = no_topics, tb_channels = GoPush\<rparr>))"

text \<open>The HTTP server: where it listens, in which mode gin runs, and its link to the logic layer.\<close>

record 'c api_boot =
  ab_Addr :: string
  ab_mode :: string
  ab_link :: "'c api_link"

definition api_Run :: "('w, 'c) boot_env \<Rightarrow> string \<Rightarrow> Config \<Rightarrow> ('w, string + 'c api_boot) state" where
  "api_Run be env conf =
     then_do (api_InitLogicClient be conf) (\<lambda>link.
       State_Monad.return (Inr \<lparr>ab_Addr = '':'' @ fmt_d (cf_ApiPort conf), ab_mode = GetGinRunMode env, ab_link = link\<rparr>))"

section \<open>The command\<close>

text \<open>The flag \<^verbatim>\<open>--module\<close> if it is given, else \<^verbatim>\<open>APP_MODULE\<close> if it is set, else the default.\<close>

definition module_of :: "string option \<Rightarrow> string \<Rightarrow> string" where
  "module_of flag env = (case flag of Some m \<Rightarrow> m | None \<Rightarrow> if env \<noteq> [] then env else ''logic'')"

datatype 'c running = LogicRuns | ConnectRuns "'c connect_boot" | TcpNotWritten | TaskRuns "'c task_boot" | ApiRuns "'c api_boot" | WrongMode

definition Execute :: "('w, 'c) boot_env \<Rightarrow> string \<Rightarrow> Config \<Rightarrow> string \<Rightarrow> ('w, string + 'c running) state" where
  "Execute be env conf module =
     (if module = ''logic'' then then_do (logic_Run be conf) (\<lambda>_. State_Monad.return (Inr LogicRuns))
      else if module = ''connect_websocket'' then then_do (connect_Run be conf) (\<lambda>b. State_Monad.return (Inr (ConnectRuns b)))
      else if module = ''connect_tcp'' then State_Monad.return (Inr TcpNotWritten)
      else if module = ''task'' then then_do (task_Run be conf) (\<lambda>b. State_Monad.return (Inr (TaskRuns b)))
      else if module = ''api'' then then_do (api_Run be env conf) (\<lambda>b. State_Monad.return (Inr (ApiRuns b)))
      else State_Monad.return (Inr WrongMode))"

end
