(* ===== verification/Boot.thy ===== *)
theory Boot
  imports Startup "HOL-Library.Sublist" "HOL-Library.AList"
begin

text \<open>
  What start-up achieves: the services that a layer registers are those that its clients find, over an etcd that keeps what is put into it.
\<close>

lemma watch_prefix_run:
  assumes "run_state (watch_prefix be conf svc) w = (Inr (err, d), w')"
  obtains cli w1 resp where "run_state (et_New (bo_etcd be) (Split (CHR '';'') (cf_EtcdAddress conf)) 10000000000) w = (Inr cli, w1)"
    "run_state (bo_Get be cli (cf_BasePath conf @ ''/'' @ svc)) w1 = (resp, w')"
    "case resp of Inl e \<Rightarrow> err = Some e \<and> d = NewServiceDiscovery
      | Inr kvs \<Rightarrow> err = None \<and> WatchService (bo_Dial be) kvs [] NewServiceDiscovery = Some d"
proof -
  obtain cli w1 resp where run: "run_state (et_New (bo_etcd be) (Split (CHR '';'') (cf_EtcdAddress conf)) 10000000000) w = (Inr cli, w1)"
    "run_state (bo_Get be cli (cf_BasePath conf @ ''/'' @ svc)) w1 = (resp, w')"
    "Inr (err, d) = (case resp of Inl e \<Rightarrow> Inr (Some e, NewServiceDiscovery)
       | Inr kvs \<Rightarrow> (case WatchService (bo_Dial be) kvs [] NewServiceDiscovery of None \<Rightarrow> Inl ''index out of range'' | Some d \<Rightarrow> Inr (None, d)))"
    using assms by (auto simp: watch_prefix_def then_do_Inr bind_run simp del: run_state_bind)
  show ?thesis
    using that [OF run(1,2)] run(3) by (cases resp) (auto split: option.splits)
qed

section \<open>The contract of etcd\<close>

locale etcd_store =
  fixes be :: "('w, 'c) boot_env" and entries :: "'w \<Rightarrow> string \<rightharpoonup> string"
  assumes New_keeps: "keeps entries (et_New (bo_etcd be) endpoints timeout)"
    and Grant_keeps: "keeps entries (et_Grant (bo_etcd be) cli ttl)"
    and KeepAlive_keeps: "keeps entries (et_KeepAlive (bo_etcd be) cli lease)"
    and Listen_keeps: "keeps entries (bo_Listen be network port)"
    and Serve_keeps: "keeps entries (bo_Serve be lis)"
    and Uuid_keeps: "keeps entries (bo_Uuid be)"
    and Put_law: "run_state (et_Put (bo_etcd be) cli k v lease) w = (None, w') \<Longrightarrow> entries w' = (entries w)(k \<mapsto> v)"
    and Get_law: "run_state (bo_Get be cli p) w = (Inr kvs, w') \<Longrightarrow>
      entries w' = entries w \<and> distinct (map fst kvs) \<and> map_of kvs = entries w |` {k. prefix p k}"
begin

lemma NewServiceRegister_store:
  assumes "run_state (NewServiceRegister (bo_etcd be) es k v ttl t) w = (Inr r, w')"
  shows "entries w' = (entries w)(k \<mapsto> v)"
proof -
  obtain cli w1 where new: "run_state (et_New (bo_etcd be) es (t * 1000000000)) w = (Inr cli, w1)"
    "run_state (putKeyWithLease (bo_etcd be) ttl \<lparr>sr_cli = cli, sr_leaseID = 0, sr_keepAliveChan = 0, sr_key = k, sr_val = v\<rparr>) w1 = (Inr r, w')"
    using assms by (auto simp: NewServiceRegister_def split: prod.splits sum.splits)
  then obtain ID w2 w3 ch where put: "run_state (et_Grant (bo_etcd be) cli ttl) w1 = (Inr ID, w2)"
    "run_state (et_Put (bo_etcd be) cli k v ID) w2 = (None, w3)" "run_state (et_KeepAlive (bo_etcd be) cli ID) w3 = (ch, w')"
    by (auto simp: putKeyWithLease_def split: prod.splits sum.splits option.splits)
  then show ?thesis
    using keepsD [OF New_keeps new(1)] keepsD [OF Grant_keeps put(1)] Put_law [OF put(2)] keepsD [OF KeepAlive_keeps put(3)] by simp
qed

lemma register_at_store:
  "run_state (register_at be conf svc address sid) w = (Inr u, w') \<Longrightarrow>
   entries w' = (entries w)(service_key (cf_BasePath conf) svc sid address \<mapsto> address)"
  using NewServiceRegister_store by (auto simp: register_at_def then_do_Inr Let_def split: if_splits)

lemma init_rpc_server_store:
  assumes "run_state (init_rpc_server be (register_at be conf svc) host address sid) w = (Inr u, w')"
  obtains network port where "Split (CHR ''@'') address = [network, port]"
    "entries w' = (entries w)(service_key (cf_BasePath conf) svc sid (host @ '':'' @ port) \<mapsto> host @ '':'' @ port)"
proof -
  obtain network port where split: "Split (CHR ''@'') address = [network, port]"
    using assms by (auto simp: init_rpc_server_def split: list.splits)
  then obtain lis w1 x w2 where run: "run_state (bo_Listen be network ('':'' @ port)) w = (Inr lis, w1)"
    "run_state (bo_Serve be lis) w1 = (x, w2)" "run_state (register_at be conf svc (host @ '':'' @ port) sid) w2 = (Inr u, w')"
    using assms by (auto simp: init_rpc_server_def then_do_Inr bind_run simp del: run_state_bind)
  show ?thesis
    using that [OF split] keepsD [OF Listen_keeps run(1)] keepsD [OF Serve_keeps run(2)] register_at_store [OF run(3)] by simp
qed

text \<open>After the loop over the addresses each is registered.\<close>

lemma servers_registered:
  assumes "run_state (for_each (\<lambda>val. init_rpc_server be (register_at be conf svc) host val sid) addresses) w = (Inr u, w')"
    and "a \<in> set addresses"
  shows "\<exists>network port. Split (CHR ''@'') a = [network, port] \<and>
     entries w' (service_key (cf_BasePath conf) svc sid (host @ '':'' @ port)) = Some (host @ '':'' @ port)"
proof -
  let ?P = "\<lambda>ys w. \<forall>a \<in> set ys. \<exists>network port. Split (CHR ''@'') a = [network, port] \<and>
     entries w (service_key (cf_BasePath conf) svc sid (host @ '':'' @ port)) = Some (host @ '':'' @ port)"
  have "?P addresses w'"
    using assms(1)
  proof (rule for_each_inv)
    fix ys x v w1 w2
    assume "?P ys w1" "run_state (init_rpc_server be (register_at be conf svc) host x sid) w1 = (Inr v, w2)"
    then show "?P (ys @ [x]) w2"
      by (elim init_rpc_server_store) (fastforce simp: service_key_def)
  qed simp
  then show ?thesis
    using assms(2) by blast
qed

lemma watch_prefix_found:
  assumes "run_state (watch_prefix be conf svc) w = (Inr (None, d), w')"
  obtains kvs where "WatchService (bo_Dial be) kvs [] NewServiceDiscovery = Some d" "distinct (map fst kvs)"
    "map_of kvs = entries w |` {k. prefix (cf_BasePath conf @ ''/'' @ svc) k}"
  using assms
proof (rule watch_prefix_run)
  fix cli w1 resp
  assume run: "run_state (et_New (bo_etcd be) (Split (CHR '';'') (cf_EtcdAddress conf)) 10000000000) w = (Inr cli, w1)"
    "run_state (bo_Get be cli (cf_BasePath conf @ ''/'' @ svc)) w1 = (resp, w')"
    "case resp of Inl e \<Rightarrow> None = Some e \<and> d = NewServiceDiscovery
      | Inr kvs \<Rightarrow> None = None \<and> WatchService (bo_Dial be) kvs [] NewServiceDiscovery = Some d"
  then obtain kvs where kvs: "resp = Inr kvs" "WatchService (bo_Dial be) kvs [] NewServiceDiscovery = Some d"
    by (cases resp) auto
  show ?thesis
    using that [OF kvs(2)] keepsD [OF New_keeps run(1)] Get_law [OF run(2) [unfolded kvs(1)]] by simp
qed

end

section \<open>A discovery has what it was given\<close>

abbreviation puts :: "(string \<times> string) list \<Rightarrow> etcd_event list" where
  "puts \<equiv> map (\<lambda>(k, v). PUT k v)"

lemma puts_ok: "watcher dial (puts kvs) s = Some s' \<Longrightarrow> events_ok dial (puts kvs) r"
proof (induction kvs arbitrary: s r)
  case (Cons kv kvs)
  obtain k v where "kv = (k, v)"
    by (cases kv)
  then show ?case
    using Cons by (cases "server_id_of k") (auto simp: SetServiceList_def bind_eq_Some_conv)
qed simp

lemma puts_keep: "kc \<in> set (r sid) \<Longrightarrow> kc \<in> set (fold (reg_event dial) (puts kvs) r sid)"
proof (induction kvs arbitrary: r)
  case (Cons kv kvs)
  have "kc \<in> set (reg_event dial (PUT k v) r sid)" for k v
    using Cons.prems by (auto simp: reg_put_def split: sum.splits)
  then show ?case
    using Cons.IH by (cases kv) simp
qed simp

lemma puts_add:
  assumes "(k, v) \<in> set kvs" and "distinct (map fst kvs)" and "dial v = Inr c" and "server_id_of k = Some sid" and "k \<notin> fst ` set (r sid)"
  shows "(k, c) \<in> set (fold (reg_event dial) (puts kvs) r sid)"
  using assms
proof (induction kvs arbitrary: r)
  case (Cons kv kvs)
  show ?case
  proof (cases "kv = (k, v)")
    case True
    then show ?thesis
      using Cons.prems by (auto simp: reg_put_def intro: puts_keep)
  next
    case False
    then obtain k' v' where kv: "kv = (k', v')" "k' \<noteq> k" "(k, v) \<in> set kvs"
      using Cons.prems(1,2) by (cases kv) force
    then have "k \<notin> fst ` set (reg_event dial (PUT k' v') r sid)"
      using Cons.prems(5) by (auto simp: reg_put_def split: sum.splits)
    then show ?thesis
      using Cons.IH kv Cons.prems by simp
  qed
qed simp

lemma WatchService_found:
  assumes "WatchService dial kvs [] NewServiceDiscovery = Some d" and "distinct (map fst kvs)" and "(k, v) \<in> set kvs"
    and "dial v = Inr c" and "server_id_of k = Some sid"
  shows "disc_ok d \<and> (k, c) \<in> set (registry d sid)"
proof -
  have run: "watcher dial (puts kvs) NewServiceDiscovery = Some d"
    using assms(1) by (simp add: WatchService_def bind_eq_Some_conv)
  obtain d' where "watcher dial (puts kvs) NewServiceDiscovery = Some d'" "disc_ok d'"
    "registry d' = fold (reg_event dial) (puts kvs) (registry NewServiceDiscovery)"
    using watcher_refines [OF disc_ok_new puts_ok [OF run]] by blast
  moreover have "(k, c) \<in> set (fold (reg_event dial) (puts kvs) (registry NewServiceDiscovery) sid)"
    by (rule puts_add [where dial = dial, OF assms(3,2,4,5)]) (simp add: registry_def NewServiceDiscovery_def)
  ultimately show ?thesis
    using run by simp
qed

lemma first_lookup_same:
  assumes "first_lookup sid d = Inr (ins, d')"
  shows "sd_serverList d' = sd_serverList d" and "disc_ok d \<Longrightarrow> disc_ok d'" and "registry d' = registry d"
  using assms by (auto simp: first_lookup_def GetServiceByServerId_def get_advance_def Let_def disc_ok_def registry_def fun_eq_iff
      split: option.splits sum.splits if_splits)

section \<open>Servers are found\<close>

definition clean_names :: "Config \<Rightarrow> string \<Rightarrow> string \<Rightarrow> bool" where
  "clean_names conf svc sid \<longleftrightarrow> CHR ''&'' \<notin> set (cf_BasePath conf) \<and> CHR ''&'' \<notin> set svc \<and> CHR ''&'' \<notin> set sid \<and> RemoveAll ''serverId='' sid = sid"

context etcd_store
begin

lemma servers_found:
  assumes "run_state (for_each (\<lambda>val. init_rpc_server be (register_at be conf svc) host val sid) addresses) w = (Inr u, w1)"
    and "entries w2 = entries w1" and "run_state (watch_prefix be conf svc) w2 = (Inr (None, d), w3)"
    and "clean_names conf svc sid" and "a \<in> set addresses"
  shows "\<exists>network port. Split (CHR ''@'') a = [network, port] \<and>
    (\<forall>c. bo_Dial be (host @ '':'' @ port) = Inr c \<longrightarrow> disc_ok d \<and> c \<in> set (at_list (sd_serverList d) sid) \<and> registry d sid \<noteq> [])"
proof -
  obtain network port where split: "Split (CHR ''@'') a = [network, port]"
    and entry: "entries w1 (service_key (cf_BasePath conf) svc sid (host @ '':'' @ port)) = Some (host @ '':'' @ port)"
    using servers_registered [OF assms(1,5)] by blast
  obtain kvs where kvs: "WatchService (bo_Dial be) kvs [] NewServiceDiscovery = Some d" "distinct (map fst kvs)"
    "map_of kvs = entries w2 |` {k. prefix (cf_BasePath conf @ ''/'' @ svc) k}"
    using assms(3) by (rule watch_prefix_found)
  have "map_of kvs (service_key (cf_BasePath conf) svc sid (host @ '':'' @ port)) = Some (host @ '':'' @ port)"
    using entry assms(2) unfolding kvs(3) by (simp add: restrict_map_def service_key_def prefix_def)
  then have mem: "(service_key (cf_BasePath conf) svc sid (host @ '':'' @ port), host @ '':'' @ port) \<in> set kvs"
    by (rule map_of_SomeD)
  have id: "server_id_of (service_key (cf_BasePath conf) svc sid (host @ '':'' @ port)) = Some sid"
    using assms(4) by (intro server_id_of_key) (simp_all add: clean_names_def)
  have "disc_ok d \<and> c \<in> set (at_list (sd_serverList d) sid) \<and> registry d sid \<noteq> []" if "bo_Dial be (host @ '':'' @ port) = Inr c" for c
  proof -
    have found: "disc_ok d" "(service_key (cf_BasePath conf) svc sid (host @ '':'' @ port), c) \<in> set (registry d sid)"
      using WatchService_found [OF kvs(1,2) mem that id] by simp_all
    then have "c \<in> set (map snd (registry d sid))"
      by force
    then show ?thesis
      using found unfolding disc_ok_at(2) [OF found(1)] by auto
  qed
  then show ?thesis
    using split by blast
qed

end

text \<open>
  C23: once the logic layer has started, the interface that starts afterwards on the same configuration and etcd has a connection to
  each of the addresses that could be dialled, filed under the server id it asks for, and its first request gets one of them.
\<close>
theorem logic_servers_found:
  assumes "etcd_store be entries" and "clean_names conf (cf_ServerPathLogic conf) (cf_LogicServerId conf)"
    and "run_state (logic_Run be conf) w = (Inr (), w1)" and "run_state (api_InitLogicClient be conf) w1 = (Inr link, w2)"
    and "a \<in> set (Split (CHR '';'') (cf_LogicRpcAddress conf))"
  shows "\<exists>network port. Split (CHR ''@'') a = [network, port] \<and>
    (\<forall>c. bo_Dial be (cf_LogicHost conf @ '':'' @ port) = Inr c \<longrightarrow>
       c \<in> set (at_list (sd_serverList (ap_discovery link)) (cf_LogicServerId conf))
       \<and> (\<exists>c' l. GetLogicRpcInstance link = (Some (Inr c'), l)))"
proof -
  have started: "run_state (for_each (\<lambda>val. init_rpc_server be (register_at be conf (cf_ServerPathLogic conf)) (cf_LogicHost conf) val (cf_LogicServerId conf))
      (Split (CHR '';'') (cf_LogicRpcAddress conf))) w = (Inr (), w1)"
    using assms(3) by (simp add: logic_Run_def initLogicRpcServer_def logic_registerServer2Etcd_def [abs_def])
  obtain d ins d' where watch: "run_state (watch_prefix be conf (cf_ServerPathLogic conf)) w1 = (Inr (None, d), w2)"
    and lookup: "first_lookup (cf_LogicServerId conf) d = Inr (ins, d')"
    and link: "link = \<lparr>ap_discovery = d', ap_serverId = cf_LogicServerId conf\<rparr>"
    using assms(4) by (auto simp: api_InitLogicClient_def logic_discovery_def then_do_Inr split: option.splits prod.splits)
  have "\<exists>c' l. GetLogicRpcInstance link = (Some (Inr c'), l)" if "disc_ok d" "registry d (cf_LogicServerId conf) \<noteq> []"
    using get_registered [of d' "cf_LogicServerId conf"] first_lookup_same [OF lookup] that
    by (auto simp: GetLogicRpcInstance_def link)
  then show ?thesis
    using etcd_store.servers_found [OF assms(1) started refl watch assms(2,5)] first_lookup_same(1) [OF lookup] by (fastforce simp: link)
qed

text \<open>
  C24: once a connect server has started, the task layer that starts afterwards on the same configuration, and can read etcd, has a connection to
  each of the addresses that could be dialled, filed under the id that the connect server stores for its users, and a request for that id gets one.
\<close>
theorem connect_servers_found:
  assumes "etcd_store be entries" and "\<And>cli p w. \<not> isl (fst (run_state (bo_Get be cli p) w))"
    and "run_state (connect_Run be conf) w = (Inr boot, w1)" and "run_state (task_Run be conf) w1 = (Inr task, w2)"
    and "clean_names conf (cf_ServerPathConnect conf) (cb_ServerId boot)" and "a \<in> set (Split (CHR '';'') (cf_WsRpcAddress conf))"
  shows "\<exists>network port. Split (CHR ''@'') a = [network, port] \<and>
      (\<forall>c. bo_Dial be (cf_WsHost conf @ '':'' @ port) = Inr c \<longrightarrow>
         c \<in> set (at_list (sd_serverList (ts_discovery (tb_state task))) (cb_ServerId boot))
         \<and> (\<exists>c' d. GetServiceByServerId (cb_ServerId boot) (ts_discovery (tb_state task)) = Some (Inr c', d)))"
proof -
  obtain w' where started: "run_state (for_each (\<lambda>val. init_rpc_server be (register_at be conf (cf_ServerPathConnect conf)) (cf_WsHost conf) val (cb_ServerId boot))
      (Split (CHR '';'') (cf_WsRpcAddress conf))) w' = (Inr (), w1)"
    using assms(3) by (auto simp: connect_Run_def then_do_Inr bind_run Let_def initConnectRpcServer_def connect_registerServer2Etcd_def [abs_def]
        simp del: run_state_bind split: option.splits)
  obtain err d where watch: "run_state (watch_prefix be conf (cf_ServerPathConnect conf)) w1 = (Inr (err, d), w2)"
    and task: "ts_discovery (tb_state task) = d"
    using assms(4) by (auto simp: task_Run_def InitConnectRpcClient_def then_do_Inr split: prod.splits)
  have "err = None"
  proof (rule watch_prefix_run [OF watch])
    fix cli v resp
    assume "run_state (bo_Get be cli (cf_BasePath conf @ ''/'' @ cf_ServerPathConnect conf)) v = (resp, w2)"
      "case resp of Inl e \<Rightarrow> err = Some e \<and> d = NewServiceDiscovery
        | Inr kvs \<Rightarrow> err = None \<and> WatchService (bo_Dial be) kvs [] NewServiceDiscovery = Some d"
    then show "err = None"
      using assms(2) [of cli "cf_BasePath conf @ ''/'' @ cf_ServerPathConnect conf" v] by (cases resp) simp_all
  qed
  then show ?thesis
    using etcd_store.servers_found [OF assms(1) started refl _ assms(5,6)] watch get_registered [of d "cb_ServerId boot"]
    unfolding task by blast
qed

section \<open>An etcd in memory\<close>

definition mem_etcd :: "(string \<times> string) list etcd_api" where
  "mem_etcd = \<lparr>et_New = (\<lambda>es t. State_Monad.return (Inr 0)), et_Grant = (\<lambda>c ttl. State_Monad.return (Inr 1)),
     et_Put = (\<lambda>c k v l. State (\<lambda>kvs. (None, (k, v) # kvs))), et_KeepAlive = (\<lambda>c l. State_Monad.return (Inr 0)),
     et_Revoke = (\<lambda>c l. State_Monad.return None), et_Close = (\<lambda>c. State_Monad.return None)\<rparr>"

definition mem_boot :: "((string \<times> string) list, string) boot_env" where
  "mem_boot = \<lparr>bo_etcd = mem_etcd,
     bo_Get = (\<lambda>c p. State (\<lambda>kvs. (Inr (filter (\<lambda>kv. prefix p (fst kv)) (AList.clearjunk kvs)), kvs))),
     bo_Dial = Inr, bo_Listen = (\<lambda>n p. State_Monad.return (Inr 0)), bo_Serve = (\<lambda>l. State_Monad.return ()),
     bo_Uuid = State_Monad.return ''1b4e28ba''\<rparr>"

lemma map_of_filter_keys: "map_of (filter (\<lambda>kv. P (fst kv)) kvs) = map_of kvs |` {k. P k}"
  by (induction kvs) (auto simp: fun_eq_iff restrict_map_def)

lemma distinct_keys_filter: "distinct (map fst kvs) \<Longrightarrow> distinct (map fst (filter Q kvs))"
  by (induction kvs) auto

interpretation mem: etcd_store mem_boot map_of
  by unfold_locales
     (auto simp: mem_boot_def mem_etcd_def keeps_def map_of_filter_keys map_of_clearjunk distinct_clearjunk distinct_keys_filter)

text \<open>The configuration of \<^verbatim>\<open>config/dev\<close>; the file names the path of the connect layer \<^verbatim>\<open>serverPathConnet\<close>, which no field reads.\<close>

definition dev_conf :: Config where
  "dev_conf = \<lparr>cf_DbAddress = ''localhost@3306'', cf_DbUsername = ''root'', cf_DbPassword = [], cf_DbName = ''axisChat'', cf_InitModel = True,
     cf_RedisAddress = ''localhost@6379;localhost@6380'', cf_RedisPassword = [], cf_RedisDb = 1, cf_KafkaAddress = ''localhost:9092'',
     cf_KafkaUsername = [], cf_KafkaPassword = [], cf_EtcdAddress = ''localhost:2379'', cf_BasePath = ''/axis_chat'',
     cf_ServerPathLogic = ''logicRpc'', cf_ServerPathConnect = [], cf_EtcdUsername = [], cf_EtcdPassword = [], cf_ConnectionTimeout = 5,
     cf_ApiHost = ''localhost'', cf_ApiPort = 8090, cf_ChatImgDir = [], cf_AvatarImgDir = [], cf_DefaultAvatar = [],
     cf_LogicServerId = ''logicRpcServer-axis'', cf_LogicHost = ''localhost'', cf_LogicRpcAddress = ''tcp@9100;tcp@9101'',
     cf_LogicCerPath = [], cf_LogicKeyPath = [], cf_CpuNum = 4, cf_WsHost = ''localhost'', cf_WsBind = ''0.0.0.0:8100'',
     cf_WsRpcAddress = ''tcp@9200;tcp@9201'', cf_WsCerPath = [], cf_WsKeyPath = []\<rparr>"

lemma dev_names: "clean_names dev_conf (cf_ServerPathLogic dev_conf) (cf_LogicServerId dev_conf)"
  "clean_names dev_conf (cf_ServerPathConnect dev_conf) ''ws-1b4e28ba''"
  unfolding clean_names_def by code_simp+

lemma dev_addresses: "''tcp@9101'' \<in> set (Split (CHR '';'') (cf_LogicRpcAddress dev_conf))" "Split (CHR ''@'') ''tcp@9101'' = [''tcp'', ''9101'']"
  "''tcp@9201'' \<in> set (Split (CHR '';'') (cf_WsRpcAddress dev_conf))" "Split (CHR ''@'') ''tcp@9201'' = [''tcp'', ''9201'']"
  by (simp_all add: dev_conf_def)

definition logic_started :: "(string \<times> string) list" where
  "logic_started = snd (run_state (logic_Run mem_boot dev_conf) [])"

lemma logic_starts:
  "run_state (logic_Run mem_boot dev_conf) [] = (Inr (), logic_started)"
  "logic_started = [(''/axis_chat/logicRpc&serverId=logicRpcServer-axis&address=localhost:9101'', ''localhost:9101''),
     (''/axis_chat/logicRpc&serverId=logicRpcServer-axis&address=localhost:9100'', ''localhost:9100'')]"
  unfolding logic_started_def by code_simp+

theorem logic_servers_found_witness:
  "\<exists>link w2 c l. run_state (logic_Run mem_boot dev_conf) [] = (Inr (), logic_started)
     \<and> run_state (api_InitLogicClient mem_boot dev_conf) logic_started = (Inr link, w2)
     \<and> ''localhost:9101'' \<in> set (at_list (sd_serverList (ap_discovery link)) ''logicRpcServer-axis'')
     \<and> GetLogicRpcInstance link = (Some (Inr c), l)"
proof -
  have "\<not> isl (fst (run_state (api_InitLogicClient mem_boot dev_conf) logic_started))"
    unfolding logic_starts(2) by code_simp
  then obtain link w2 where link: "run_state (api_InitLogicClient mem_boot dev_conf) logic_started = (Inr link, w2)"
    by (metis prod.collapse sum.collapse(2))
  have "bo_Dial mem_boot (cf_LogicHost dev_conf @ '':'' @ ''9101'') = Inr ''localhost:9101''" "cf_LogicServerId dev_conf = ''logicRpcServer-axis''"
    by (simp_all add: mem_boot_def dev_conf_def)
  then show ?thesis
    using logic_starts(1) link logic_servers_found [OF mem.etcd_store_axioms dev_names(1) logic_starts(1) link dev_addresses(1)]
    unfolding dev_addresses(2) by auto
qed

definition connect_started :: "(string \<times> string) list" where
  "connect_started = snd (run_state (connect_Run mem_boot dev_conf) logic_started)"

lemma connect_starts: "\<exists>boot. run_state (connect_Run mem_boot dev_conf) logic_started = (Inr boot, connect_started) \<and> cb_ServerId boot = ''ws-1b4e28ba''"
proof -
  have "case fst (run_state (connect_Run mem_boot dev_conf) logic_started) of Inl _ \<Rightarrow> False | Inr boot \<Rightarrow> cb_ServerId boot = ''ws-1b4e28ba''"
    unfolding logic_starts(2) by code_simp
  then show ?thesis
    by (cases "run_state (connect_Run mem_boot dev_conf) logic_started") (auto simp: connect_started_def split: sum.splits)
qed

theorem connect_servers_found_witness:
  "\<exists>boot task w2. run_state (connect_Run mem_boot dev_conf) logic_started = (Inr boot, connect_started)
     \<and> run_state (task_Run mem_boot dev_conf) connect_started = (Inr task, w2)
     \<and> ''localhost:9201'' \<in> set (at_list (sd_serverList (ts_discovery (tb_state task))) (cb_ServerId boot))"
proof -
  obtain boot where boot: "run_state (connect_Run mem_boot dev_conf) logic_started = (Inr boot, connect_started)" "cb_ServerId boot = ''ws-1b4e28ba''"
    using connect_starts by blast
  have "\<not> isl (fst (run_state (task_Run mem_boot dev_conf) connect_started))"
    unfolding connect_started_def logic_starts(2) by code_simp
  then obtain task w2 where task: "run_state (task_Run mem_boot dev_conf) connect_started = (Inr task, w2)"
    by (metis prod.collapse sum.collapse(2))
  have "\<not> isl (fst (run_state (bo_Get mem_boot cli p) w))" for cli p w
    by (simp add: mem_boot_def)
  note found = connect_servers_found [OF mem.etcd_store_axioms this boot(1) task dev_names(2) [folded boot(2)] dev_addresses(3)]
  have "bo_Dial mem_boot (cf_WsHost dev_conf @ '':'' @ ''9201'') = Inr ''localhost:9201''"
    by (simp add: mem_boot_def dev_conf_def)
  then show ?thesis
    using boot task found unfolding dev_addresses(4) by auto
qed

end
