(* ===== verification/Spec2Isabelle.thy ===== *)
theory Spec2Isabelle
  imports WsServer RedisStore Discovery Kafka Db Utils Reference Routing LetterBox Join Listeners Delivery Access Boot ConnectRun
begin

text \<open>
  Verification of the axis-chat server, a chat system of four services that share Redis, Kafka, etcd and MySQL. Each theory
  opens with what it models; this is the map.

  \<^bold>\<open>How the parts interact.\<close> Clients talk HTTP to the \<^emph>\<open>api\<close> service and hold a websocket to a \<^emph>\<open>connect\<close> server. The api service checks
  the session and calls the \<^emph>\<open>logic\<close> service, which keeps sessions and presence in Redis, users, groups and friends in MySQL,
  and publishes chat messages to Kafka topics (one per group and per user) and status notices to a Redis list. The \<^emph>\<open>task\<close>
  service listens to the topics that are online and to the list, looks up the connect servers of the receivers and calls them; a connect
  server puts the message into the buffers of the connections, writes it to the client, commits its offset in Redis, keeps it in a letter
  box there and saves the boxes to MySQL. The services find each other through etcd.

  \<^bold>\<open>Shared ground.\<close>
  \<^item> \<open>Prelude\<close>, \<open>Effects\<close>, \<open>GoStrings\<close>: Go integers as words, slices with the bounds check (a panic is \<^term>\<open>None\<close>), \<^verbatim>\<open>fmt\<close>/\<^verbatim>\<open>strconv\<close>/\<^verbatim>\<open>strings\<close>,
    effects as state monads over a world of type \<open>'w\<close>, errors as sums.
  \<^item> \<open>Json\<close>, \<open>Times\<close>, \<open>Messages\<close>: printer and parser of \<^verbatim>\<open>encoding/json\<close> with their round trip, decoding into structs, RFC 3339 times, and the data of
    \<^verbatim>\<open>db/model.go\<close>, \<^verbatim>\<open>common/param.go\<close>, \<^verbatim>\<open>common/kafka.go\<close> and the protobuf messages.
  \<^item> \<open>RoundRobin\<close>: the locale \<open>round_robin\<close> of a counter that deals out indices, interpreted on the queues of a bucket and on the instances of a service.

  \<^bold>\<open>Components.\<close>
  \<^item> \<open>CityHash\<close> (\<^verbatim>\<open>utils/cityhash.go\<close>): all indices of the three hashes are in range (\<open>CityHash_no_panic\<close>).
    \<open>ConsistentHash\<close> (\<^verbatim>\<open>utils/consistent_hash.go\<close>): the ring as keys and map; lookup is the clockwise successor (\<open>Get_clockwise\<close>), adding servers moves
    keys to the new ones only (\<open>Add_stable\<close>); locale \<open>balancer\<close>. \<open>Utils\<close>: passwords, tokens and ids.
  \<^item> \<open>Redis\<close>, \<open>RedisLocker\<close> (\<^verbatim>\<open>common/redis.go\<close>, \<^verbatim>\<open>common/redis_lock.go\<close>): every wrapper, over a record of commands. \<open>RedisScript\<close> reads and runs the two lock scripts.
    \<open>RedisStore\<close>: what is relied on, in the locales \<open>redis_server\<close> (documented effect of the commands) and \<open>lock_server\<close> (a server runs the scripts); from these the
    stores, hashes, queue (sublocales \<open>string_store\<close>, \<open>hash_store\<close>, \<open>message_queue\<close>) and mutual exclusion over all histories (\<open>lock_mutual_exclusion\<close>). \<open>mem\<close> interprets them on a
    server in memory. \<open>RedisFrame\<close>: which keys a command leaves alone.
  \<^item> \<open>Kafka\<close> (\<^verbatim>\<open>common/kafka.go\<close>): the pool of producers is process state; locales \<open>kafka_broker\<close> and \<open>topic_producer\<close>; \<open>TopicProduce_appends\<close>.
    \<open>Db\<close> (\<^verbatim>\<open>db/curd.go\<close>): every query with its text and arguments.
    \<open>Discovery\<close> (\<^verbatim>\<open>etcd/\<close>): registration and the watcher, which refines an abstract registry (\<open>watch_refines_registry\<close>).
  \<^item> \<open>GroupNode\<close>, \<open>Bucket\<close>, \<open>ConnectRun\<close>, \<open>WsServer\<close> (\<^verbatim>\<open>connect/socket.go\<close>, \<^verbatim>\<open>group_node.go\<close>, \<^verbatim>\<open>bucket.go\<close>, \<^verbatim>\<open>server.go\<close>, \<^verbatim>\<open>rpc.go\<close>, \<^verbatim>\<open>utils.go\<close>): connections and group nodes are cells of a heap,
    linked through fields shared by all groups of a connection. For one group the list is the roster (\<open>group_delivery\<close>, locale \<open>roster\<close>); \<open>bucket_delivery\<close>, \<open>group_msg_broadcast\<close>, \<open>friend_msg_delivery\<close>
    and \<open>frame_roundtrip\<close> follow a message to the buffers and frames; \<open>server_reachable\<close> is what all interleavings keep, and \<open>second_group_cuts_first\<close>,
    \<open>second_group_leaks\<close>, \<open>put_delete_race\<close> what they do not.
  \<^item> \<open>Pumps\<close>, \<open>LetterBox\<close>, \<open>Join\<close> (\<^verbatim>\<open>connect/server_ws.go\<close>, \<^verbatim>\<open>connect/connect.go\<close>): the turns of the two goroutines of a connection. \<open>consume_once\<close>, \<open>saved_boxes_moved\<close>,
    \<open>failed_save_loses_messages\<close>, \<open>first_message_stored_twice\<close>, \<open>join_needs_token\<close>, \<open>groupless_user_unreachable\<close>; locales \<open>letter_box\<close>, \<open>message_table\<close>.
  \<^item> \<open>Publish\<close>, \<open>Logic\<close> (\<^verbatim>\<open>logic/publish.go\<close>, \<^verbatim>\<open>logic/rpc.go\<close>): all handlers. \<open>Presence\<close>: what \<^verbatim>\<open>Connect\<close> and \<^verbatim>\<open>DisConnect\<close> change of the members online and their numbers, exactly and from any
    state of Redis with the right types; locales \<open>logic_layer\<close>, \<open>relation_table\<close>. \<open>Sessions\<close>: login, logout, registration; locale \<open>session_layer\<close>. \<open>Publication\<close>: which topics get what.
    \<open>Reference\<close> interprets these locales on a world in memory and holds their instances.
  \<^item> \<open>Task\<close>, \<open>Routing\<close> (\<^verbatim>\<open>task/push.go\<close>, \<^verbatim>\<open>redis_queue.go\<close>, \<^verbatim>\<open>rpc.go\<close>): which connect servers get a message; locale \<open>connect_layer\<close>. \<open>Topics\<close>, \<open>Listeners\<close>, \<open>Fetch\<close>, \<open>Delivery\<close>
    (\<^verbatim>\<open>task/kafka_queue.go\<close>): rounds, starter and listeners as atomic sections of goroutines. \<open>one_listener_each\<close> holds as long as no topic comes back
    while its old listener ends, \<open>early_round_leaks_listener\<close> and \<open>early_round_blocks_starter\<close> are the other case; \<open>round_ends_or_blocks\<close> bounds a round in every reachable state; \<open>pushed_in_order\<close>, \<open>push_takes_lock\<close>
    and \<open>error_restart_stalls\<close> are about one listener and its fetchers.
  \<^item> \<open>Api\<close>, \<open>Access\<close> (\<^verbatim>\<open>api/\<close>): every handler with the binding of its form, the session check, the routes with the redirection of a path that ends in a slash. \<open>protected_needs_session\<close>,
    \<open>serve_well_formed\<close>; locale \<open>logic_service\<close>, interpreted on the handlers of \<open>Logic\<close>.
  \<^item> \<open>Startup\<close>, \<open>Boot\<close> (\<^verbatim>\<open>config/config.go\<close>, \<^verbatim>\<open>cmd/root.go\<close> and the \<^verbatim>\<open>Run\<close> of each layer): clients find the servers that were registered (\<open>logic_servers_found\<close>, \<open>connect_servers_found\<close>);
    locale \<open>etcd_store\<close>.
  \<^item> This theory: a message from the HTTP request to Kafka (\<open>message_of_session_published\<close>).

  \<^bold>\<open>Parameters.\<close> Redis, Kafka, etcd, gorm, gRPC, gin, the websocket library, bcrypt, MD5, the random source, clocks and files are arguments; what is relied on of them are the
  assumptions of the locales, each interpreted on a concrete instance.

  \<^bold>\<open>Bounds.\<close> The JSON parser has the length of its text as fuel, which always is enough (\<open>json_parse_print\<close>). The loop in which a pump waits for
  a lock is given \<open>pe_tries\<close> attempts, a parameter; theorems about a pump speak of the turns that return, for every such bound. The loop over a group list
  that has become cyclic does not return and is an option (\<open>second_put_diverges\<close>). Other loops are structural or have a measure.

  \<^bold>\<open>Where the model differs from the code.\<close>
  \<^item> Strings are valid UTF-8: \<^verbatim>\<open>json.Marshal\<close> would replace an invalid byte by U+FFFD. Decoding goes on after a time that does not parse, where Go stops.
  \<^item> Keys of Redis do not expire during the operation or history a theorem is about.
  \<^item> The code between a lock and its unlock is one step. A section of a listener is possible as soon as its channels and locks allow it; the code may be
    held up by Redis or a call before. A worker of the task layer looks up and calls in one step; that all workers share the variable between the two is
    \<open>wrong_server_race\<close>.
  \<^item> Not modelled: set-up of the database, logging, generated code but for its message types, tests, static files served by gin.
\<close>

text \<open>
  C1: when the interface answers a friend message with success, the token of the request had a session in Redis, and the message
  of the session's user, with the content and to the friend that the request names, has been appended to the topic
  of the friend and then to the topic of the user itself. The clock and the lookup of the session are assumed not to touch Kafka.
\<close>
theorem message_of_session_published:
  assumes "session_layer e view" and "kafka_broker (le_kafka e) log conn_of" and "pool_ok conn_of (w, p)"
    and "ae_client ae = logic_direct e"
    and "\<And>t. keeps (\<lambda>w. (log w, conn_of w)) (get_string e (SESSION t))"
    and "keeps (\<lambda>(w, p). (log w, conn_of w, p)) (ae_now ae)"
    and "rq_Method rq = ''POST''" and "rq_Path rq = ''/push/push-friend''"
    and "run_state (serve ae rq) ((w, p), l) = (SuccessWithMsg None dat, (w', p'), l')"
  shows "\<exists>t u form m w1. session_token rq = Some t
    \<and> fst (Unmarshal (dec_pointer dec_proto_User zero_User) (str_at (store view (le_servers e) w (SESSION t))) None) = Some u
    \<and> bind_pushReq rq = Some form \<and> cm_Userid m = pu_Id u \<and> cm_FriendId m = pf_FriendId form \<and> cm_Content m = pf_Content form
    \<and> published log (FriendQueue (pf_FriendId form)) (msg_body OpFriendMsgSend (enc_FriendMsg (friend_payload m (pf_FriendId form)))) w w1
    \<and> published log (FriendQueue (pu_Id u)) (msg_body OpFriendMsgSend (enc_FriendMsg (friend_payload m (pu_Id u)))) w1 w'"
proof -
  have route: "(rq_Method rq, rq_Path rq, api_Push ae rq) \<in> set (protected_routes ae rq)"
    using assms(7,8) by (simp add: protected_routes_def)
  obtain t c l1 reply u w2 p2 where session: "session_token rq = Some t"
    "run_state (ac_GetUserInfoByAccessToken (ae_client ae) c t) (w, p) = (Inr reply, w2, p2)" "ui_User reply = Some u"
    "run_state (api_Push ae rq (Some (pu_Id u))) ((w2, p2), l1) = (SuccessWithMsg None dat, (w', p'), l')"
    using CheckSession_success [OF assms(9) [unfolded serve_protected [OF route]]] by (metis surj_pair)
  have looked_up: "run_state (logic_GetUserInfoByAccessToken e t) w = (Inr reply, w2)" "p2 = p"
    using session(2) assms(4) by (simp_all add: logic_direct_def outside_Inr del: run_outside)
  have user: "fst (Unmarshal (dec_pointer dec_proto_User zero_User) (str_at (store view (le_servers e) w (SESSION t))) None) = Some u"
    using session_layer.info_of_token [OF assms(1) looked_up(1)] session(3) by auto
  have "keeps (\<lambda>w. (log w, conn_of w)) (logic_GetUserInfoByAccessToken e t)"
    unfolding logic_GetUserInfoByAccessToken_def by (intro kept assms(5))
  then have same: "log w2 = log w" "conn_of w2 = conn_of w"
    using keepsD [OF _ looked_up(1)] by auto
  obtain form c' now w3 p3 m where sent: "bind_pushReq rq = Some form" "run_state (ae_now ae) (w2, p2) = (now, w3, p3)"
    "run_state (ac_Push (ae_client ae) c' m) (w3, p3) = (Inr (), w', p')" "cm_Userid m = pu_Id u" "cm_FriendId m = pf_FriendId form"
    "cm_Content m = pf_Content form"
    using api_Push_success [OF session(4)] by (metis surj_pair)
  have "log w3 = log w \<and> conn_of w3 = conn_of w \<and> p3 = p"
    using keepsD [OF assms(6) sent(2)] same looked_up(2) by simp
  then have ok: "pool_ok conn_of (w3, p3)" and same3: "log w3 = log w"
    using assms(3) by (simp_all add: pool_ok_def)
  have "run_state (rpc_Push e (Some m)) (w3, p3) = (Inr (), w', p')"
    using sent(3) assms(4) by (simp add: logic_direct_def over_rpc_Inr)
  then obtain s1 where r:
    "run_state (logic_Push (le_kafka e) (le_kafka_address e) (cm_FriendId m) (enc_FriendMsg (friend_payload m (cm_FriendId m))) OpFriendMsgSend) (w3, p3) = (Inr (), s1)"
    "run_state (logic_Push (le_kafka e) (le_kafka_address e) (cm_Userid m) (enc_FriendMsg (friend_payload m (cm_Userid m))) OpFriendMsgSend) s1 = (Inr (), w', p')"
    by (rule rpc_Push_run)
  note first = kafka_broker.logic_Push_friend [OF assms(2) ok r(1)]
  note second = kafka_broker.logic_Push_friend [OF assms(2) conjunct1 [OF first] r(2)]
  have "published log (FriendQueue (pf_FriendId form)) (msg_body OpFriendMsgSend (enc_FriendMsg (friend_payload m (pf_FriendId form)))) w (fst s1)"
    "published log (FriendQueue (pu_Id u)) (msg_body OpFriendMsgSend (enc_FriendMsg (friend_payload m (pu_Id u)))) (fst s1) w'"
    using first second same3 sent(4,5) by (simp_all add: published_def)
  then show ?thesis
    using session(1) user sent by blast
qed

theorem message_of_session_published_witness:
  "\<exists>w' w1 m u. fst (Unmarshal (dec_pointer dec_proto_User zero_User) (json_print (enc_user ada)) None) = Some u \<and> cm_Content m = ''hello''
     \<and> published (\<lambda>w. kw_log (cw_kafka w)) (FriendQueue 2) (msg_body OpFriendMsgSend (enc_FriendMsg (friend_payload m 2))) logged_in w1
     \<and> published (\<lambda>w. kw_log (cw_kafka w)) (FriendQueue (pu_Id u)) (msg_body OpFriendMsgSend (enc_FriendMsg (friend_payload m (pu_Id u)))) w1 w'"
proof -
  have broker: "kafka_broker (le_kafka ref_env) (\<lambda>w. kw_log (cw_kafka w)) (\<lambda>w. mem_conn (cw_kafka w))"
    using ref_kafka by (simp add: ref_env_def)
  have ok: "pool_ok (\<lambda>w. mem_conn (cw_kafka w)) (logged_in, no_producers)"
    by (simp add: pool_ok_def no_producers_def)
  have client: "ae_client ref_api = logic_direct ref_env"
    by (simp add: ref_api_def)
  have get: "keeps (\<lambda>w. (kw_log (cw_kafka w), mem_conn (cw_kafka w))) (get_string ref_env (SESSION t))" for t
    by (simp add: keeps_def ref_strings)
  have now: "keeps (\<lambda>(w, p). (kw_log (cw_kafka w), mem_conn (cw_kafka w), p)) (ae_now ref_api)"
    by (simp add: keeps_def ref_api_def)
  have route: "rq_Method send_hello = ''POST''" "rq_Path send_hello = ''/push/push-friend''"
    by (simp_all add: send_hello_def)
  obtain w' p' l' where "run_state (serve ref_api send_hello) ((logged_in, no_producers), ref_link)
     = (SuccessWithMsg None (StrData ''success''), (w', p'), l')"
    using hello_served by blast
  from message_of_session_published [OF ref.session_layer_axioms broker ok client get now route this] show ?thesis
    by (fastforce simp: hello_bound logged_in_def str_at_def)
qed

end
